(* ===== verification/Prelude.thy ===== *)
theory Prelude
  imports Main "HOL-Library.Multiset"
begin

text \<open>
  Shared vocabulary of the development: the faults a C++ operation can run into (undefined
  behaviour, an exception that nobody catches), the result type of a fallible operation,
  checked element access of \<open>std::vector\<close> and raw arrays, 32-bit \<open>int\<close> arithmetic, and the
  generic lemmas on lists the components use.
\<close>

section \<open>Faults and results\<close>

text \<open>
  \<open>OutOfBounds\<close>: an index outside a vector or array; \<open>NullDeref\<close>: a null pointer is read
  (also a C string or a MySQL field that is \<open>NULL\<close>); \<open>Dangling\<close>: an object is used after
  \<open>delete\<close>; \<open>DivByZero\<close>: integer division or remainder by zero; \<open>BufferOverflow\<close>: a
  \<open>strcpy\<close>, \<open>sprintf\<close> or \<open>memcpy\<close> past the end of its destination; \<open>IntOverflow\<close>: signed
  overflow or an out-of-range conversion to \<open>int\<close>; \<open>BadAlloc\<close>: \<open>new T[n]\<close> with negative
  \<open>n\<close>; \<open>BadRange\<close>: an invalid iterator range handed to a container; \<open>BadFormat\<close>: a
  \<open>sprintf\<close> conversion without a matching argument; \<open>Uninit\<close>: memory is read before it is
  written; \<open>BadCast\<close>: an object is used as one of a class it does not have.
\<close>

datatype fault =
    OutOfBounds | NullDeref | Dangling | DivByZero | BufferOverflow | IntOverflow | BadAlloc | BadRange
  | BadFormat | Uninit | BadCast

type_synonym 'a res = "fault + 'a"

definition rbind :: "'a res \<Rightarrow> ('a \<Rightarrow> 'b res) \<Rightarrow> 'b res" where
  "rbind m f = (case m of Inl e \<Rightarrow> Inl e | Inr x \<Rightarrow> f x)"

lemma rbind_simps [simp]:
  "rbind (Inl e) f = Inl e"
  "rbind (Inr x) f = f x"
  by (simp_all add: rbind_def)

lemma rbind_eq_Inr: "rbind m f = Inr y \<longleftrightarrow> (\<exists>x. m = Inr x \<and> f x = Inr y)"
  by (cases m) auto

lemma rbind_eq_Inl: "rbind m f = Inl e \<longleftrightarrow> m = Inl e \<or> (\<exists>x. m = Inr x \<and> f x = Inl e)"
  by (cases m) auto

lemma rbind_assoc: "rbind (rbind m f) g = rbind m (\<lambda>x. rbind (f x) g)"
  by (cases m) auto

lemma rbind_cong [cong]:
  "m = m' \<Longrightarrow> (\<And>x. m' = Inr x \<Longrightarrow> f x = f' x) \<Longrightarrow> rbind m f = rbind m' f'"
  by (cases m') auto

text \<open>\<open>require c e\<close> stops with the fault \<open>e\<close> unless \<open>c\<close> holds.\<close>

definition require :: "bool \<Rightarrow> fault \<Rightarrow> unit res" where
  "require c e = (if c then Inr () else Inl e)"

lemma require_simps [simp]:
  "require True e = Inr ()"
  "require False e = Inl e"
  by (simp_all add: require_def)

lemma require_eq_Inr [simp]: "require c e = Inr u \<longleftrightarrow> c"
  by (cases u) (simp add: require_def)

section \<open>Loops over a list of inputs\<close>

fun rmap :: "('a \<Rightarrow> 'b res) \<Rightarrow> 'a list \<Rightarrow> 'b list res" where
  "rmap f [] = Inr []"
| "rmap f (x # xs) = rbind (f x) (\<lambda>y. rbind (rmap f xs) (\<lambda>ys. Inr (y # ys)))"

fun rfold :: "('a \<Rightarrow> 's \<Rightarrow> 's res) \<Rightarrow> 'a list \<Rightarrow> 's \<Rightarrow> 's res" where
  "rfold f [] s = Inr s"
| "rfold f (x # xs) s = rbind (f x s) (rfold f xs)"

lemma rmap_Inr: "(\<And>x. x \<in> set xs \<Longrightarrow> f x = Inr (g x)) \<Longrightarrow> rmap f xs = Inr (map g xs)"
  by (induction xs) auto

lemma rmap_length: "rmap f xs = Inr ys \<Longrightarrow> length ys = length xs"
  by (induction xs arbitrary: ys) (auto simp: rbind_eq_Inr)

lemma rmap_nth: "rmap f xs = Inr ys \<Longrightarrow> i < length xs \<Longrightarrow> f (xs ! i) = Inr (ys ! i)"
proof (induction xs arbitrary: ys i)
  case Nil
  then show ?case by simp
next
  case (Cons x xs)
  then show ?case by (cases i) (auto simp: rbind_eq_Inr)
qed

lemma rfold_append: "rfold f (xs @ ys) s = rbind (rfold f xs s) (rfold f ys)"
  by (induction xs arbitrary: s) (auto simp: rbind_assoc)

lemma rfold_invariant:
  assumes "rfold f xs s = Inr t" and "P s"
    and "\<And>x s t. x \<in> set xs \<Longrightarrow> P s \<Longrightarrow> f x s = Inr t \<Longrightarrow> P t"
  shows "P t"
  using assms
proof (induction xs arbitrary: s)
  case Nil
  then show ?case by simp
next
  case (Cons x xs)
  from Cons.prems(1) obtain s' where s': "f x s = Inr s'" "rfold f xs s' = Inr t"
    by (auto simp: rbind_eq_Inr)
  have "P s'" using Cons.prems(2,3) s'(1) by (meson list.set_intros(1))
  with s'(2) show ?case using Cons.IH Cons.prems(3) by (meson list.set_intros(2))
qed

section \<open>Checked element access\<close>

text \<open>
  \<open>v[i]\<close> with \<open>int i\<close>: a negative index converts to a huge \<open>size_t\<close>, so both ends fault.
\<close>

definition vget :: "'a list \<Rightarrow> int \<Rightarrow> 'a res" where
  "vget xs i = (if 0 \<le> i \<and> i < int (length xs) then Inr (xs ! nat i) else Inl OutOfBounds)"

definition vset :: "'a list \<Rightarrow> int \<Rightarrow> 'a \<Rightarrow> 'a list res" where
  "vset xs i x =
     (if 0 \<le> i \<and> i < int (length xs) then Inr (xs[nat i := x]) else Inl OutOfBounds)"

lemma vget_Inr_iff: "vget xs i = Inr x \<longleftrightarrow> 0 \<le> i \<and> i < int (length xs) \<and> x = xs ! nat i"
  by (auto simp: vget_def)

lemma vset_Inr_iff: "vset xs i x = Inr ys \<longleftrightarrow> 0 \<le> i \<and> i < int (length xs) \<and> ys = xs[nat i := x]"
  by (auto simp: vset_def)

lemma vget_ok [simp]: "0 \<le> i \<Longrightarrow> i < int (length xs) \<Longrightarrow> vget xs i = Inr (xs ! nat i)"
  by (simp add: vget_def)

lemma vset_ok [simp]: "0 \<le> i \<Longrightarrow> i < int (length xs) \<Longrightarrow> vset xs i x = Inr (xs[nat i := x])"
  by (simp add: vset_def)

lemma vget_of_nat [simp]: "i < length xs \<Longrightarrow> vget xs (int i) = Inr (xs ! i)"
  by (simp add: vget_def)

section \<open>The 32-bit \<open>int\<close>\<close>

definition int_range :: "int \<Rightarrow> bool" where
  "int_range x \<longleftrightarrow> - (2 ^ 31) \<le> x \<and> x < 2 ^ 31"

text \<open>The result of a signed operation: overflow is undefined behaviour.\<close>

definition chk :: "int \<Rightarrow> int res" where
  "chk x = (if int_range x then Inr x else Inl IntOverflow)"

lemma chk_eq_Inr [simp]: "chk x = Inr y \<longleftrightarrow> int_range x \<and> y = x"
  by (auto simp: chk_def)

lemma int_range_nonneg: "0 \<le> x \<Longrightarrow> x < 2 ^ 31 \<Longrightarrow> int_range x"
  by (simp add: int_range_def)

lemma chk_ok: "int_range x \<Longrightarrow> chk x = Inr x"
  by (simp add: chk_def)

text \<open>Conversion to \<open>int\<close> keeps the low 32 bits.\<close>

definition wrap32 :: "int \<Rightarrow> int" where
  "wrap32 x = (x + 2 ^ 31) mod 2 ^ 32 - 2 ^ 31"

lemma wrap32_id [simp]: "int_range x \<Longrightarrow> wrap32 x = x"
  by (simp add: wrap32_def int_range_def)

text \<open>C's \<open>/\<close> and \<open>%\<close> truncate towards zero.\<close>

definition c_div :: "int \<Rightarrow> int \<Rightarrow> int" where
  "c_div a b = sgn a * sgn b * (\<bar>a\<bar> div \<bar>b\<bar>)"

definition c_mod :: "int \<Rightarrow> int \<Rightarrow> int" where
  "c_mod a b = a - b * c_div a b"

lemma c_div_nonneg: "0 \<le> a \<Longrightarrow> 0 < b \<Longrightarrow> c_div a b = a div b"
  by (cases "a = 0") (simp_all add: c_div_def)

lemma c_mod_nonneg: "0 \<le> a \<Longrightarrow> 0 < b \<Longrightarrow> c_mod a b = a mod b"
  by (simp add: c_mod_def c_div_nonneg minus_mult_div_eq_mod)

definition int_div :: "int \<Rightarrow> int \<Rightarrow> int res" where
  "int_div a b = (if b = 0 then Inl DivByZero else chk (c_div a b))"

definition int_mod :: "int \<Rightarrow> int \<Rightarrow> int res" where
  "int_mod a b = (if b = 0 then Inl DivByZero else Inr (c_mod a b))"

section \<open>Lists\<close>

text \<open>The elements from \<open>begin() + a\<close> up to \<open>begin() + b\<close>, a valid range only inside the list.\<close>

definition vrange :: "'a list \<Rightarrow> int \<Rightarrow> int \<Rightarrow> 'a list res" where
  "vrange xs a b =
     (if 0 \<le> a \<and> a \<le> b \<and> b \<le> int (length xs)
      then Inr (take (nat (b - a)) (drop (nat a) xs)) else Inl BadRange)"

lemma vrange_Inr_iff: "vrange xs a b = Inr ys \<longleftrightarrow>
    0 \<le> a \<and> a \<le> b \<and> b \<le> int (length xs) \<and> ys = take (nat (b - a)) (drop (nat a) xs)"
  by (auto simp: vrange_def)

lemma vrange_join:
  assumes "vrange xs a b = Inr p" and "vrange xs b c = Inr q"
  shows "vrange xs a c = Inr (p @ q)"
proof -
  from assms have r: "0 \<le> a" "a \<le> b" "b \<le> c" "c \<le> int (length xs)"
    and pq: "p = take (nat (b - a)) (drop (nat a) xs)" "q = take (nat (c - b)) (drop (nat b) xs)"
    by (auto simp: vrange_Inr_iff)
  have "nat (c - a) = nat (b - a) + nat (c - b)" and "nat b = nat (b - a) + nat a"
    using r by auto
  then show ?thesis
    using r by (simp add: vrange_Inr_iff pq take_add)
qed

lemma vrange_all: "vrange xs 0 (int (length xs)) = Inr xs"
  by (simp add: vrange_def)

lemma mset_swap_nth:
  "i < length xs \<Longrightarrow> p < length xs \<Longrightarrow> mset (xs[i := xs ! p, p := xs ! i]) = mset xs"
  by (metis mset_swap)

lemma distinct_index_unique:
  "distinct xs \<Longrightarrow> i < length xs \<Longrightarrow> j < length xs \<Longrightarrow> xs ! i = xs ! j \<Longrightarrow> i = j"
  by (simp add: nth_eq_iff_index_eq)

lemma upt_int_less: "j \<in> set (map int [0..<n]) \<longleftrightarrow> 0 \<le> j \<and> j < int n"
proof -
  have "j \<in> set (map int [0..<n]) \<longleftrightarrow> (\<exists>k<n. j = int k)"
    by (auto simp: image_iff)
  also have "\<dots> \<longleftrightarrow> 0 \<le> j \<and> j < int n"
    by (metis nat_less_iff of_nat_0_le_iff of_nat_less_iff int_nat_eq)
  finally show ?thesis .
qed

end
