(* ===== verification/CFloat.thy ===== *)
theory CFloat
  imports Complex_Main "HOL-Library.Log_Nat" Prelude
begin

text \<open>
  IEEE-754 \<open>float\<close> (binary32) and \<open>double\<close> (binary64) values as the code computes with them:
  a finite value is a rational, every operation rounds its exact result to the nearest
  representable value (ties to even), and overflow gives an infinity. The sign of a zero is
  not kept; no modelled operation divides by a zero.
\<close>

section \<open>Values\<close>

datatype cnum = FNan | FPInf | FNInf | Num rat

definition round_half_even :: "rat \<Rightarrow> int" where
  "round_half_even x =
     (let f = \<lfloor>x\<rfloor>; r = x - of_int f
      in if r < 1 / 2 then f else if 1 / 2 < r then f + 1 else if even f then f else f + 1)"

definition pow2 :: "int \<Rightarrow> rat" where
  "pow2 k = (if 0 \<le> k then 2 ^ nat k else 1 / 2 ^ nat (- k))"

text \<open>The binary exponent of a nonzero rational: the floor of \<open>log 2 \<bar>x\<bar>\<close>.\<close>

definition exponent2 :: "rat \<Rightarrow> int" where
  "exponent2 x =
     (let (n, d) = quotient_of \<bar>x\<bar>; k = bitlen n - bitlen d
      in if pow2 k \<le> \<bar>x\<bar> then k else k - 1)"

text \<open>Precision \<open>p\<close> bits, smallest quantum \<open>2 ^ qmin\<close>, largest exponent \<open>emax\<close>.\<close>

definition round_binary :: "int \<Rightarrow> int \<Rightarrow> int \<Rightarrow> rat \<Rightarrow> cnum" where
  "round_binary p qmin emax x =
     (if x = 0 then Num 0
      else let q = pow2 (max (exponent2 x - (p - 1)) qmin);
               r = of_int (round_half_even (x / q)) * q
           in if pow2 (emax + 1) \<le> r then FPInf
              else if r \<le> - pow2 (emax + 1) then FNInf
              else Num r)"

definition round32 :: "rat \<Rightarrow> cnum" where
  "round32 = round_binary 24 (- 149) 127"

definition round64 :: "rat \<Rightarrow> cnum" where
  "round64 = round_binary 53 (- 1074) 1023"

section \<open>Arithmetic and comparison\<close>

fun fneg :: "cnum \<Rightarrow> cnum" where
  "fneg FNan = FNan"
| "fneg FPInf = FNInf"
| "fneg FNInf = FPInf"
| "fneg (Num x) = Num (- x)"

fun fadd :: "(rat \<Rightarrow> cnum) \<Rightarrow> cnum \<Rightarrow> cnum \<Rightarrow> cnum" where
  "fadd rnd (Num x) (Num y) = rnd (x + y)"
| "fadd rnd FPInf FNInf = FNan"
| "fadd rnd FNInf FPInf = FNan"
| "fadd rnd FNan y = FNan"
| "fadd rnd x FNan = FNan"
| "fadd rnd FPInf y = FPInf"
| "fadd rnd x FPInf = FPInf"
| "fadd rnd FNInf y = FNInf"
| "fadd rnd x FNInf = FNInf"

definition fsub :: "(rat \<Rightarrow> cnum) \<Rightarrow> cnum \<Rightarrow> cnum \<Rightarrow> cnum" where
  "fsub rnd x y = fadd rnd x (fneg y)"

definition finf_signed :: "bool \<Rightarrow> cnum" where
  "finf_signed pos = (if pos then FPInf else FNInf)"

fun fmul :: "(rat \<Rightarrow> cnum) \<Rightarrow> cnum \<Rightarrow> cnum \<Rightarrow> cnum" where
  "fmul rnd (Num x) (Num y) = rnd (x * y)"
| "fmul rnd FNan y = FNan"
| "fmul rnd x FNan = FNan"
| "fmul rnd FPInf (Num y) = (if y = 0 then FNan else finf_signed (0 < y))"
| "fmul rnd FNInf (Num y) = (if y = 0 then FNan else finf_signed (y < 0))"
| "fmul rnd (Num x) FPInf = (if x = 0 then FNan else finf_signed (0 < x))"
| "fmul rnd (Num x) FNInf = (if x = 0 then FNan else finf_signed (x < 0))"
| "fmul rnd FPInf FPInf = FPInf"
| "fmul rnd FPInf FNInf = FNInf"
| "fmul rnd FNInf FPInf = FNInf"
| "fmul rnd FNInf FNInf = FPInf"

fun flt :: "cnum \<Rightarrow> cnum \<Rightarrow> bool" where
  "flt FNan y = False"
| "flt x FNan = False"
| "flt x FNInf = False"
| "flt FNInf y = True"
| "flt FPInf y = False"
| "flt x FPInf = True"
| "flt (Num x) (Num y) = (x < y)"

fun feq :: "cnum \<Rightarrow> cnum \<Rightarrow> bool" where
  "feq FNan y = False"
| "feq x FNan = False"
| "feq x y = (x = y)"

definition fle :: "cnum \<Rightarrow> cnum \<Rightarrow> bool" where
  "fle x y \<longleftrightarrow> flt x y \<or> feq x y"

text \<open>\<open>(float)d\<close>, and \<open>(int)d\<close>, which is undefined when the truncated value does not fit.\<close>

fun to_float :: "cnum \<Rightarrow> cnum" where
  "to_float (Num x) = round32 x"
| "to_float y = y"

definition trunc_rat :: "rat \<Rightarrow> int" where
  "trunc_rat x = (if 0 \<le> x then \<lfloor>x\<rfloor> else - \<lfloor>- x\<rfloor>)"

fun to_int :: "cnum \<Rightarrow> int res" where
  "to_int (Num x) = chk (trunc_rat x)"
| "to_int _ = Inl IntOverflow"

section \<open>Rounding is exact on small integers\<close>

lemma round_half_even_of_int [simp]: "round_half_even (of_int n) = n"
  by (simp add: round_half_even_def)

lemma pow2_pos [simp]: "0 < pow2 k"
  by (simp add: pow2_def)

lemma pow2_nonneg_int: "0 \<le> k \<Longrightarrow> pow2 k = of_int (2 ^ nat k)"
  by (simp add: pow2_def)

lemma pow2_inverse_int: "k \<le> 0 \<Longrightarrow> 1 / pow2 k = of_int (2 ^ nat (- k))"
  by (cases "k = 0") (simp_all add: pow2_def)

lemma exponent2_of_int_le:
  assumes "n \<noteq> 0" and "\<bar>n\<bar> < 2 ^ p"
  shows "exponent2 (of_int n) \<le> int p - 1"
proof -
  have q: "quotient_of \<bar>rat_of_int n\<bar> = (\<bar>n\<bar>, 1)"
    by (simp add: of_int_rat quotient_of_Fract Rat.normalize_def flip: of_int_abs)
  have "bitlen \<bar>n\<bar> \<le> int p"
    using assms(2) by (simp add: bitlen_le_iff_power)
  moreover have "bitlen 1 = 1"
    by (simp add: bitlen_def floorlog_def)
  ultimately show ?thesis
    by (simp add: exponent2_def q Let_def)
qed

lemma round_binary_exact_int:
  assumes "\<bar>n\<bar> < 2 ^ p" and "qmin \<le> 0" and "int p \<le> emax + 1"
  shows "round_binary (int p) qmin emax (of_int n) = Num (of_int n)"
proof (cases "n = 0")
  case True
  then show ?thesis by (simp add: round_binary_def)
next
  case False
  let ?k = "max (exponent2 (of_int n) - (int p - 1)) qmin"
  have k: "?k \<le> 0"
    using exponent2_of_int_le [OF False assms(1)] assms(2) by simp
  have "of_int n / pow2 ?k = of_int (n * 2 ^ nat (- ?k))"
    using pow2_inverse_int [OF k] by (simp add: divide_inverse)
  then have r: "of_int (round_half_even (of_int n / pow2 ?k)) * pow2 ?k = rat_of_int n"
    by (metis less_irrefl nonzero_divide_eq_eq pow2_pos round_half_even_of_int)
  have "0 \<le> emax + 1" using assms(3) by linarith
  then have "pow2 (emax + 1) = of_int (2 ^ nat (emax + 1))"
    by (rule pow2_nonneg_int)
  moreover have "(2::int) ^ p \<le> 2 ^ nat (emax + 1)"
    using assms(3) by (intro power_increasing) auto
  ultimately have "rat_of_int \<bar>n\<bar> < pow2 (emax + 1)"
    using assms(1) by (metis le_less_trans less_le_trans of_int_less_iff)
  then have "\<not> pow2 (emax + 1) \<le> rat_of_int n" and "\<not> rat_of_int n \<le> - pow2 (emax + 1)"
    by (auto simp: abs_if split: if_splits)
  with r False show ?thesis
    by (simp add: round_binary_def Let_def)
qed

lemma round32_exact [simp]: "\<bar>n\<bar> < 2 ^ 24 \<Longrightarrow> round32 (of_int n) = Num (of_int n)"
  unfolding round32_def using round_binary_exact_int [of n 24 "- 149" 127] by simp

lemma round64_exact [simp]: "\<bar>n\<bar> < 2 ^ 53 \<Longrightarrow> round64 (of_int n) = Num (of_int n)"
  unfolding round64_def using round_binary_exact_int [of n 53 "- 1074" 1023] by simp

lemma fadd32_exact:
  "\<bar>a + b\<bar> < 2 ^ 24 \<Longrightarrow> fadd round32 (Num (of_int a)) (Num (of_int b)) = Num (of_int (a + b))"
  by (metis fadd.simps(1) of_int_add round32_exact)

lemma to_int_of_int [simp]: "int_range n \<Longrightarrow> to_int (Num (of_int n)) = Inr n"
proof -
  have "trunc_rat (of_int n) = n"
    by (metis (no_types, opaque_lifting) add.inverse_inverse floor_of_int of_int_minus trunc_rat_def)
  then show "int_range n \<Longrightarrow> to_int (Num (of_int n)) = Inr n"
    by (simp add: chk_def)
qed

section \<open>Rounding stays between integers\<close>

lemma round_half_even_le: "x \<le> of_int n \<Longrightarrow> round_half_even x \<le> n"
proof (cases "x = of_int n")
  case False
  assume "x \<le> of_int n"
  with False have "\<lfloor>x\<rfloor> < n" by (simp add: floor_less_iff)
  then show ?thesis by (simp add: round_half_even_def Let_def)
qed simp

lemma round_half_even_ge: "of_int n \<le> x \<Longrightarrow> n \<le> round_half_even x"
proof -
  assume "of_int n \<le> x"
  then have "n \<le> \<lfloor>x\<rfloor>" by (simp add: le_floor_iff)
  then show ?thesis by (simp add: round_half_even_def Let_def)
qed

lemma exponent2_le:
  assumes "x \<noteq> 0" and "\<bar>x\<bar> < 2 ^ p"
  shows "exponent2 x \<le> int p - 1"
proof -
  obtain n d where nd: "quotient_of \<bar>x\<bar> = (n, d)" by force
  have x: "\<bar>x\<bar> = of_int n / of_int d" and d: "0 < d"
    using quotient_of_div [OF nd] quotient_of_denom_pos [OF nd] by auto
  have "0 < rat_of_int n / of_int d" using assms(1) by (simp flip: x)
  with d have n: "0 < n" by (simp add: zero_less_divide_iff)
  let ?k = "bitlen n - bitlen d"
  have bn: "1 \<le> bitlen n" and bd: "1 \<le> bitlen d"
    using n d by (simp_all add: bitlen_ge_iff_power)
  have "2 ^ nat (bitlen n - 1) \<le> n" and "d < 2 ^ nat (bitlen d)"
    using bitlen_bounds n d by auto
  then have lo: "2 ^ nat (bitlen n - 1) \<le> rat_of_int n" and hi: "rat_of_int d < 2 ^ nat (bitlen d)"
    by (metis of_int_le_iff of_int_numeral of_int_power)
      (metis \<open>d < 2 ^ nat (bitlen d)\<close> of_int_less_iff of_int_numeral of_int_power)
  have "2 ^ nat (bitlen n - 1) < 2 ^ p * (2::rat) ^ nat (bitlen d)"
  proof -
    have "2 ^ nat (bitlen n - 1) \<le> \<bar>x\<bar> * of_int d" using lo d by (simp add: x)
    also have "\<dots> < 2 ^ p * 2 ^ nat (bitlen d)"
      using assms(2) hi d by (intro mult_strict_mono) auto
    finally show ?thesis .
  qed
  then have "nat (bitlen n - 1) < p + nat (bitlen d)"
    by (simp flip: power_add)
  then have k: "?k \<le> int p" using bn bd by linarith
  show ?thesis
  proof (cases "pow2 ?k \<le> \<bar>x\<bar>")
    case True
    have "?k \<noteq> int p"
    proof
      assume "?k = int p"
      with True assms(2) show False by (simp add: pow2_def)
    qed
    with k True show ?thesis by (simp add: exponent2_def nd Let_def)
  next
    case False
    with k show ?thesis by (simp add: exponent2_def nd Let_def)
  qed
qed

text \<open>A nonnegative value up to an integer \<open>m\<close> rounds to a value up to \<open>m\<close>.\<close>

lemma round64_between:
  assumes "0 \<le> x" and "x \<le> of_int m" and "m < 2 ^ 52"
  shows "\<exists>r. round64 x = Num r \<and> 0 \<le> r \<and> r \<le> of_int m"
proof (cases "x = 0")
  case True
  then show ?thesis using assms by (intro exI [of _ 0]) (simp add: round64_def round_binary_def)
next
  case False
  let ?k = "max (exponent2 x - 52) (- 1074)"
  let ?r = "of_int (round_half_even (x / pow2 ?k)) * pow2 ?k"
  have "rat_of_int m < 2 ^ 52"
    using assms(3) by (metis of_int_less_iff of_int_numeral of_int_power)
  with assms False have "exponent2 x \<le> int 52 - 1"
    by (intro exponent2_le) auto
  then have k: "?k \<le> 0" by simp
  have m: "of_int m / pow2 ?k = of_int (m * 2 ^ nat (- ?k))"
    using pow2_inverse_int [OF k] by (simp add: divide_inverse)
  have "x / pow2 ?k \<le> of_int m / pow2 ?k"
    using assms(2) by (simp add: divide_right_mono less_imp_le)
  then have "round_half_even (x / pow2 ?k) \<le> m * 2 ^ nat (- ?k)"
    unfolding m by (rule round_half_even_le)
  then have "rat_of_int (round_half_even (x / pow2 ?k)) \<le> of_int m / pow2 ?k"
    unfolding m by (simp only: of_int_le_iff)
  then have up: "?r \<le> of_int m"
    by (simp add: pos_le_divide_eq)
  have "0 \<le> round_half_even (x / pow2 ?k)"
    using assms(1) by (intro round_half_even_ge) (simp add: less_imp_le)
  then have lo: "0 \<le> ?r" by (simp add: less_imp_le)
  have big: "pow2 1024 = (2::rat) ^ 1024" by (simp add: pow2_def)
  have "(2::rat) ^ 52 < 2 ^ 1024" by (rule power_strict_increasing) auto
  with up \<open>rat_of_int m < 2 ^ 52\<close> have "\<not> pow2 1024 \<le> ?r" unfolding big by linarith
  moreover have "\<not> ?r \<le> - pow2 1024" using lo pow2_pos [of 1024] by linarith
  ultimately have "round64 x = Num ?r"
    using False by (simp add: round64_def round_binary_def Let_def)
  with up lo show ?thesis by blast
qed

lemma trunc_rat_between: "0 \<le> r \<Longrightarrow> r \<le> of_int m \<Longrightarrow> 0 \<le> trunc_rat r \<and> trunc_rat r \<le> m"
  by (simp add: trunc_rat_def floor_le_iff)

section \<open>The strict order on numbers\<close>

lemma flt_irrefl [simp]: "\<not> flt x x"
  by (cases x) auto

lemma flt_trans: "flt x y \<Longrightarrow> flt y z \<Longrightarrow> flt x z"
  by (cases x; cases y; cases z) auto

lemma flt_asym: "flt x y \<Longrightarrow> \<not> flt y x"
  by (cases x; cases y) auto

lemma flt_not_total: "x \<noteq> FNan \<Longrightarrow> y \<noteq> FNan \<Longrightarrow> \<not> flt x y \<Longrightarrow> \<not> flt y x \<Longrightarrow> x = y"
  by (cases x; cases y) auto

end
