(* ===== verification/CStrings.thy ===== *)
theory CStrings
  imports CFloat "HOL-Library.Word"
begin

text \<open>
  The C string library as the program uses it. A C string is the list of its bytes up to the
  terminating NUL. \<open>strcpy\<close> and \<open>sprintf\<close> write into a buffer of a known size and fault when
  the text and its NUL do not fit; \<open>atoi\<close> and \<open>atof\<close> read the longest numeric prefix, as
  \<open>strtol\<close> and \<open>strtod\<close> do in the C locale. Wide strings are lists of 32-bit \<open>wchar_t\<close>.
\<close>

section \<open>Buffers\<close>

definition strcpy :: "nat \<Rightarrow> string \<Rightarrow> string res" where
  "strcpy cap s = (if length s < cap then Inr s else Inl BufferOverflow)"

lemma strcpy_Inr [simp]: "strcpy cap s = Inr t \<longleftrightarrow> length s < cap \<and> t = s"
  by (auto simp: strcpy_def)

section \<open>Numbers in strings\<close>

definition is_space :: "char \<Rightarrow> bool" where
  "is_space c = (let k = (of_char c :: nat) in k = 32 \<or> (9 \<le> k \<and> k \<le> 13))"

definition digit_val :: "nat \<Rightarrow> char \<Rightarrow> nat option" where
  "digit_val base c =
     (let k = (of_char c :: nat);
          d = (if 48 \<le> k \<and> k \<le> 57 then Some (k - 48)
               else if 97 \<le> k \<and> k \<le> 102 then Some (k - 87)
               else if 65 \<le> k \<and> k \<le> 70 then Some (k - 55) else None)
      in case d of None \<Rightarrow> None | Some n \<Rightarrow> if n < base then Some n else None)"

fun span_digits :: "nat \<Rightarrow> string \<Rightarrow> nat list \<times> string" where
  "span_digits base [] = ([], [])"
| "span_digits base (c # cs) =
     (case digit_val base c of
        None \<Rightarrow> ([], c # cs)
      | Some d \<Rightarrow> (let (ds, r) = span_digits base cs in (d # ds, r)))"

definition from_digits :: "nat \<Rightarrow> nat list \<Rightarrow> nat" where
  "from_digits base ds = foldl (\<lambda>acc d. acc * base + d) 0 ds"

fun take_sign :: "string \<Rightarrow> bool \<times> string" where
  "take_sign [] = (False, [])"
| "take_sign (c # cs) =
     (if c = CHR ''-'' then (True, cs) else if c = CHR ''+'' then (False, cs) else (False, c # cs))"

definition atoi :: "string \<Rightarrow> int res" where
  "atoi s =
     (let (neg, r) = take_sign (dropWhile is_space s);
          n = int (from_digits 10 (fst (span_digits 10 r)))
      in chk (if neg then - n else n))"

definition lower :: "char \<Rightarrow> char" where
  "lower c = (let k = (of_char c :: nat) in if 65 \<le> k \<and> k \<le> 90 then char_of (k + 32) else c)"

text \<open>Mantissa digits before and after the point, and the rest.\<close>

definition span_mantissa :: "nat \<Rightarrow> string \<Rightarrow> nat list \<times> nat list \<times> string" where
  "span_mantissa base s =
     (let (ip, r) = span_digits base s
      in case r of
           [] \<Rightarrow> (ip, [], [])
         | c # cs \<Rightarrow>
             if c = CHR ''.'' then (let (fp, r') = span_digits base cs in (ip, fp, r'))
             else (ip, [], r))"

text \<open>An optional exponent after the letter \<open>mark\<close>; it counts only if it has a digit.\<close>

definition read_exponent :: "char \<Rightarrow> string \<Rightarrow> int" where
  "read_exponent mark s =
     (case s of
        [] \<Rightarrow> 0
      | c # cs \<Rightarrow>
          if lower c \<noteq> mark then 0
          else let (neg, r) = take_sign cs; n = int (from_digits 10 (fst (span_digits 10 r)))
               in if neg then - n else n)"

definition rat_pow :: "rat \<Rightarrow> int \<Rightarrow> rat" where
  "rat_pow b e = (if 0 \<le> e then b ^ nat e else 1 / b ^ nat (- e))"

definition read_number :: "nat \<Rightarrow> char \<Rightarrow> rat \<Rightarrow> string \<Rightarrow> rat option" where
  "read_number base mark radix s =
     (let (ip, fp, r) = span_mantissa base s
      in if ip = [] \<and> fp = [] then None
         else Some (of_nat (from_digits base (ip @ fp)) / of_nat (base ^ length fp)
                    * rat_pow radix (read_exponent mark r)))"

definition atof :: "string \<Rightarrow> cnum" where
  "atof s =
     (let (neg, r) = take_sign (dropWhile is_space s);
          hex = (if map lower (take 2 r) = ''0x'' then read_number 16 CHR ''p'' 2 (drop 2 r) else None);
          v = (if map lower (take 3 r) = ''inf'' then FPInf
               else if map lower (take 3 r) = ''nan'' then FNan
               else case hex of
                      Some q \<Rightarrow> round64 q
                    | None \<Rightarrow> (case read_number 10 CHR ''e'' 10 r of
                                Some q \<Rightarrow> round64 q
                              | None \<Rightarrow> Num 0))
      in if neg then fneg v else v)"

section \<open>Formatted output\<close>

definition digit_char :: "nat \<Rightarrow> char" where
  "digit_char d = char_of (48 + d)"

fun show_nat :: "nat \<Rightarrow> string" where
  "show_nat n = (if n < 10 then [digit_char n] else show_nat (n div 10) @ [digit_char (n mod 10)])"

declare show_nat.simps [simp del]

definition show_int :: "int \<Rightarrow> string" where
  "show_int n = (if n < 0 then CHR ''-'' # show_nat (nat (- n)) else show_nat (nat n))"

text \<open>
  A format string as a list of pieces: literal text, \<open>%s\<close>, \<open>%s\<close> between single quotes,
  and \<open>'%d'\<close> between single quotes. Arguments left over are ignored, as C ignores them.
\<close>

datatype piece = Txt string | Str | Quoted | QuotedInt

datatype arg = AStr string | AInt int

definition quote_char :: char where
  "quote_char = CHR 0x27"

fun format :: "piece list \<Rightarrow> arg list \<Rightarrow> string res" where
  "format [] xs = Inr []"
| "format (Txt t # ps) xs = rbind (format ps xs) (\<lambda>r. Inr (t @ r))"
| "format (Str # ps) (AStr s # xs) = rbind (format ps xs) (\<lambda>r. Inr (s @ r))"
| "format (Quoted # ps) (AStr s # xs) =
     rbind (format ps xs) (\<lambda>r. Inr (quote_char # s @ quote_char # r))"
| "format (QuotedInt # ps) (AInt n # xs) =
     rbind (format ps xs) (\<lambda>r. Inr (quote_char # show_int n @ quote_char # r))"
| "format ps xs = Inl BadFormat"

definition sprintf :: "nat \<Rightarrow> piece list \<Rightarrow> arg list \<Rightarrow> string res" where
  "sprintf cap ps xs = rbind (format ps xs) (strcpy cap)"

section \<open>Wide strings\<close>

type_synonym wstring = "32 word list"

text \<open>
  \<open>std::wstring(p, p + n)\<close> converts each signed \<open>char\<close> to \<open>wchar_t\<close>;
  \<open>std::string::assign(w.begin(), w.end())\<close> keeps the low byte of each \<open>wchar_t\<close>.
\<close>

definition widen :: "string \<Rightarrow> wstring" where
  "widen s = map (\<lambda>c. scast (word_of_nat (of_char c) :: 8 word)) s"

definition narrow :: "wstring \<Rightarrow> string" where
  "narrow w = map (\<lambda>x. char_of (unat (ucast x :: 8 word))) w"

lemma of_char_less_256 [simp]: "(of_char c :: nat) < 256"
  by (metis char_of_char mod_less_divisor of_char_of zero_less_numeral)

lemma narrow_widen [simp]: "narrow (widen s) = s"
proof -
  have "ucast (scast (x :: 8 word) :: 32 word) = x" for x
    by (rule bit_word_eqI) (simp add: bit_unsigned_iff bit_signed_iff)
  moreover have "unat (word_of_nat (of_char c) :: 8 word) = of_char c" for c
    by (simp add: unat_of_nat take_bit_nat_eq_self)
  ultimately show ?thesis by (simp add: narrow_def widen_def o_def)
qed

lemma length_widen [simp]: "length (widen s) = length s"
  by (simp add: widen_def)

section \<open>Reading back a printed number\<close>

lemma digit_char_code: "d < 10 \<Longrightarrow> (of_char (digit_char d) :: nat) = 48 + d"
  by (simp add: digit_char_def)

lemma digit_val_digit_char [simp]: "d < 10 \<Longrightarrow> digit_val 10 (digit_char d) = Some d"
  by (simp add: digit_val_def digit_char_code Let_def)

lemma show_nat_nonempty [simp]: "show_nat n \<noteq> []"
  by (subst show_nat.simps) simp

lemma show_nat_head: "\<exists>d cs. show_nat n = digit_char d # cs \<and> d < 10"
proof (induction n rule: show_nat.induct)
  case (1 n)
  show ?case
  proof (cases "n < 10")
    case True
    then show ?thesis by (subst show_nat.simps) auto
  next
    case False
    with 1 obtain d cs where "show_nat (n div 10) = digit_char d # cs \<and> d < 10" by blast
    with False show ?thesis by (subst show_nat.simps) fastforce
  qed
qed

lemma from_digits_snoc: "from_digits b (ds @ [d]) = from_digits b ds * b + d"
  by (simp add: from_digits_def)

lemma span_digits_show_nat: "\<exists>ds. span_digits 10 (show_nat n) = (ds, []) \<and> from_digits 10 ds = n"
proof (induction n rule: show_nat.induct)
  case (1 n)
  have app: "span_digits 10 xs = (ds, []) \<Longrightarrow> d < 10 \<Longrightarrow>
      span_digits 10 (xs @ [digit_char d]) = (ds @ [d], [])" for xs ds d
    by (induction xs arbitrary: ds) (auto split: option.splits prod.splits)
  show ?case
  proof (cases "n < 10")
    case True
    then show ?thesis by (subst show_nat.simps) (simp add: from_digits_def)
  next
    case False
    with "1.IH" obtain ds where ds: "span_digits 10 (show_nat (n div 10)) = (ds, [])"
      and n: "from_digits 10 ds = n div 10" by blast
    from app [OF ds, of "n mod 10"] False
    have "span_digits 10 (show_nat n) = (ds @ [n mod 10], [])"
      by (subst show_nat.simps) simp
    moreover have "from_digits 10 (ds @ [n mod 10]) = n"
      by (simp add: from_digits_snoc n)
    ultimately show ?thesis by blast
  qed
qed

lemma digit_char_plain:
  assumes "d < 10"
  shows "\<not> is_space (digit_char d)" "digit_char d \<noteq> CHR ''-''" "digit_char d \<noteq> CHR ''+''"
proof -
  have k: "(of_char (digit_char d) :: nat) = 48 + d" by (rule digit_char_code [OF assms])
  show "\<not> is_space (digit_char d)" using assms by (simp add: is_space_def k)
  show "digit_char d \<noteq> CHR ''-''"
  proof
    assume "digit_char d = CHR ''-''"
    with k have "(of_char CHR ''-'' :: nat) = 48 + d" by metis
    then show False by simp
  qed
  show "digit_char d \<noteq> CHR ''+''"
  proof
    assume "digit_char d = CHR ''+''"
    with k have "(of_char CHR ''+'' :: nat) = 48 + d" by metis
    then show False by simp
  qed
qed

lemma atoi_show_nat: "int_range (int n) \<Longrightarrow> atoi (show_nat n) = Inr (int n)"
proof -
  assume r: "int_range (int n)"
  obtain d cs where h: "show_nat n = digit_char d # cs" "d < 10" using show_nat_head by blast
  have "take_sign (dropWhile is_space (show_nat n)) = (False, show_nat n)"
    using h digit_char_plain by simp
  moreover obtain ds where "span_digits 10 (show_nat n) = (ds, [])" "from_digits 10 ds = n"
    using span_digits_show_nat by blast
  ultimately show ?thesis using r by (simp add: atoi_def)
qed

lemma atoi_show_int: "int_range n \<Longrightarrow> atoi (show_int n) = Inr n"
proof (cases "n < 0")
  case True
  assume r: "int_range n"
  obtain ds where d: "span_digits 10 (show_nat (nat (- n))) = (ds, [])" "from_digits 10 ds = nat (- n)"
    using span_digits_show_nat by blast
  have "\<not> is_space CHR ''-''" by (simp add: is_space_def)
  then show ?thesis using True d r by (simp add: atoi_def show_int_def)
next
  case False
  assume "int_range n"
  then show ?thesis using False by (simp add: show_int_def atoi_show_nat)
qed

end
