(* ===== verification/HashMap.thy ===== *)
theory HashMap
  imports Prelude
begin

text \<open>
  \<open>__gnu_cxx::hash_map\<close> as its clients use it (\<open>TspCities::_cities\<close>,
  \<open>GaCatalogue::_entries\<close>): the contract is the locale \<open>hash_table\<close>, its model an
  association list with distinct keys. The order in which the container iterates is not
  specified; where the code iterates, the order is a parameter of the operation.
\<close>

section \<open>The contract\<close>

locale hash_table =
  fixes find :: "'m \<Rightarrow> 'k \<Rightarrow> 'v option"
    and ins :: "'k \<Rightarrow> 'v \<Rightarrow> 'm \<Rightarrow> 'm"
    and erase :: "'k \<Rightarrow> 'm \<Rightarrow> 'm"
    and size_of :: "'m \<Rightarrow> nat"
    and inv :: "'m \<Rightarrow> bool"
  assumes find_ins:
      "inv m \<Longrightarrow> find (ins k v m) = (if find m k = None then (find m)(k \<mapsto> v) else find m)"
    and find_erase: "inv m \<Longrightarrow> find (erase k m) = (find m)(k := None)"
    and size_of_card: "inv m \<Longrightarrow> size_of m = card (dom (find m)) \<and> finite (dom (find m))"
    and inv_ins: "inv m \<Longrightarrow> inv (ins k v m)"
    and inv_erase: "inv m \<Longrightarrow> inv (erase k m)"
begin

text \<open>Insertion never replaces; erasing first does.\<close>

lemma find_ins_fresh: "inv m \<Longrightarrow> find m k = None \<Longrightarrow> find (ins k v m) = (find m)(k \<mapsto> v)"
  by (simp add: find_ins)

lemma find_ins_present: "inv m \<Longrightarrow> find m k = Some v' \<Longrightarrow> find (ins k v m) = find m"
  by (simp add: find_ins)

lemma find_replace: "inv m \<Longrightarrow> find (ins k v (erase k m)) = (find m)(k \<mapsto> v)"
  by (simp add: find_ins inv_erase find_erase)

lemma size_ins_fresh:
  assumes "inv m" and "find m k = None"
  shows "size_of (ins k v m) = Suc (size_of m)"
proof -
  have "k \<notin> dom (find m)" using assms(2) by auto
  moreover have "dom (find (ins k v m)) = insert k (dom (find m))"
    using find_ins_fresh [OF assms] by simp
  ultimately show ?thesis
    using size_of_card [OF assms(1)] size_of_card [OF inv_ins [OF assms(1)]]
    by (simp add: card_insert_disjoint)
qed

lemma size_erase_present:
  assumes "inv m" and "find m k = Some v"
  shows "Suc (size_of (erase k m)) = size_of m"
proof -
  have k: "k \<in> dom (find m)" using assms(2) by auto
  have "dom (find (erase k m)) = dom (find m) - {k}"
    using find_erase [OF assms(1)] by simp
  then show ?thesis
    using k size_of_card [OF assms(1)] size_of_card [OF inv_erase [OF assms(1)]]
    by (metis card_Suc_Diff1)
qed

end

section \<open>The model\<close>

type_synonym ('k, 'v) hash_map = "('k \<times> 'v) list"

definition hm_find :: "('k, 'v) hash_map \<Rightarrow> 'k \<Rightarrow> 'v option" where
  "hm_find m = map_of m"

definition hm_insert :: "'k \<Rightarrow> 'v \<Rightarrow> ('k, 'v) hash_map \<Rightarrow> ('k, 'v) hash_map" where
  "hm_insert k v m = (case hm_find m k of None \<Rightarrow> m @ [(k, v)] | Some _ \<Rightarrow> m)"

definition hm_erase :: "'k \<Rightarrow> ('k, 'v) hash_map \<Rightarrow> ('k, 'v) hash_map" where
  "hm_erase k m = filter (\<lambda>e. fst e \<noteq> k) m"

definition hm_inv :: "('k, 'v) hash_map \<Rightarrow> bool" where
  "hm_inv m \<longleftrightarrow> distinct (map fst m)"

lemma hm_find_Some_iff: "hm_inv m \<Longrightarrow> hm_find m k = Some v \<longleftrightarrow> (k, v) \<in> set m"
  by (simp add: hm_find_def hm_inv_def)

lemma hm_find_None_iff: "hm_find m k = None \<longleftrightarrow> k \<notin> fst ` set m"
  by (simp add: hm_find_def map_of_eq_None_iff)

lemma hm_find_insert:
  "hm_find (hm_insert k v m) = (if hm_find m k = None then (hm_find m)(k \<mapsto> v) else hm_find m)"
proof (rule ext)
  fix j
  show "hm_find (hm_insert k v m) j =
      (if hm_find m k = None then (hm_find m)(k \<mapsto> v) else hm_find m) j"
    by (auto simp: hm_insert_def hm_find_def map_of_append map_add_def split: option.splits)
qed

lemma hm_find_erase: "hm_find (hm_erase k m) = (hm_find m)(k := None)"
proof (rule ext)
  fix j
  show "hm_find (hm_erase k m) j = ((hm_find m)(k := None)) j"
    by (induction m) (auto simp: hm_erase_def hm_find_def)
qed

lemma hm_inv_insert: "hm_inv m \<Longrightarrow> hm_inv (hm_insert k v m)"
  by (auto simp: hm_inv_def hm_insert_def hm_find_None_iff split: option.splits)

lemma hm_inv_erase: "hm_inv m \<Longrightarrow> hm_inv (hm_erase k m)"
  by (induction m) (auto simp: hm_inv_def hm_erase_def)

lemma hm_size_card: "hm_inv m \<Longrightarrow> length m = card (dom (hm_find m)) \<and> finite (dom (hm_find m))"
  by (simp add: hm_inv_def hm_find_def dom_map_of_conv_image_fst finite_dom_map_of
      flip: distinct_card [of "map fst m", simplified])

interpretation hm: hash_table hm_find hm_insert hm_erase length hm_inv
  by unfold_locales
    (auto simp: hm_find_insert hm_find_erase hm_size_card hm_inv_insert hm_inv_erase)

text \<open>An iteration order visits every entry once.\<close>

definition iteration_order :: "(('k, 'v) hash_map \<Rightarrow> ('k, 'v) hash_map) \<Rightarrow> bool" where
  "iteration_order ord \<longleftrightarrow> (\<forall>m. mset (ord m) = mset m)"

lemma iteration_order_id [simp]: "iteration_order (\<lambda>m. m)"
  by (simp add: iteration_order_def)

lemma iteration_order_rev [simp]: "iteration_order rev"
  by (simp add: iteration_order_def)

end
