(* ===== verification/Cities.thy ===== *)
theory Cities
  imports CStrings HashMap
begin

text \<open>
  \<open>TSP/TspCity.h\<close> and \<open>TSP/TspCity.cpp\<close>: the delivery points. \<open>TspCity\<close> objects live in a
  heap of addresses; \<open>TspCities\<close> (a singleton) maps a city's id to its address. A pointer
  is an address or \<open>None\<close> for \<open>NULL\<close>. The distance of two cities is read from the matrix
  \<open>_vectorMutualData\<close> of the view.
\<close>

section \<open>Data\<close>

type_synonym ptr = "nat option"

text \<open>The fields \<open>AddCity\<close> receives and \<open>TspCity\<close> stores, in the order of its parameters.\<close>

record city_fields =
  f_name :: wstring
  f_x :: cnum
  f_y :: cnum
  f_guestId :: wstring
  f_isShop :: wstring
  f_jusoSubId :: wstring
  f_accno :: wstring
  f_accnoDuple :: wstring
  f_guestName :: wstring
  f_guestTel :: wstring
  f_guestJuso :: wstring
  f_pay :: wstring
  f_guestLat :: wstring
  f_guestLon :: wstring

record TspCity =
  city_id :: int
  city_originId :: int
  city_data :: city_fields

text \<open>One row of the distance table; each field is a \<open>char\<close> array.\<close>

record VectorMutualData =
  vd_seq :: string
  vd_guestId :: string
  vd_guestJusoSubId :: string
  vd_deguestId :: string
  vd_deguestJusoSubId :: string
  vd_guestLat :: string
  vd_guestLon :: string
  vd_deguestLat :: string
  vd_deguestLon :: string
  vd_distanceValue :: string
  vd_guestDate :: string
  vd_deguestDate :: string
  vd_createDate :: string
  vd_updateDate :: string
  vd_guestIsShop :: string
  vd_deguestIsShop :: string

text \<open>
  The static counter \<open>_nextId\<close>, the allocated cities, the next unused address, the map
  \<open>_cities\<close> of the singleton, and its table \<open>fTmp\<close>.
\<close>

record world =
  w_nextId :: int
  w_heap :: "nat \<rightharpoonup> TspCity"
  w_fresh :: nat
  w_cities :: "(int, ptr) hash_map"
  w_fTmp :: "cnum list list"

section \<open>Class \<open>TspCity\<close>\<close>

definition deref :: "world \<Rightarrow> ptr \<Rightarrow> TspCity res" where
  "deref w p =
     (case p of
        None \<Rightarrow> Inl NullDeref
      | Some a \<Rightarrow> (case w_heap w a of None \<Rightarrow> Inl Dangling | Some c \<Rightarrow> Inr c))"

definition TspCity_new :: "city_fields \<Rightarrow> int \<Rightarrow> world \<Rightarrow> (nat \<times> world) res" where
  "TspCity_new d orig w =
     rbind (chk (w_nextId w + 1)) (\<lambda>i.
       let a = w_fresh w; c = \<lparr>city_id = i, city_originId = orig, city_data = d\<rparr>
       in Inr (a, w\<lparr>w_nextId := i, w_heap := (w_heap w)(a \<mapsto> c), w_fresh := Suc a\<rparr>))"

definition ResetNextId :: "world \<Rightarrow> world" where
  "ResetNextId w = w\<lparr>w_nextId := 0\<rparr>"

definition PointWithinCity :: "TspCity \<Rightarrow> int \<Rightarrow> int \<Rightarrow> bool" where
  "PointWithinCity c x y =
     (let half = Num (of_int (c_div 14 2)); px = Num (of_int x); py = Num (of_int y);
          cx = f_x (city_data c); cy = f_y (city_data c)
      in fle (fsub round64 cx half) px \<and> fle px (fadd round64 cx half)
       \<and> fle (fsub round64 cy half) py \<and> fle py (fadd round64 cy half))"

definition TspCity_GetDistance ::
  "VectorMutualData list list \<Rightarrow> TspCity \<Rightarrow> TspCity \<Rightarrow> cnum res" where
  "TspCity_GetDistance m a b =
     (let (idStart, idEnd) =
            (if 0 < city_originId a then (city_originId a - 1, city_originId b - 1)
             else (city_id a - 1, city_id b - 1))
      in rbind (vget m idStart) (\<lambda>row.
         rbind (vget row idEnd) (\<lambda>d. Inr (to_float (atof (vd_distanceValue d))))))"

text \<open>\<open>p->GetDistance(*q)\<close> on pointers.\<close>

definition ptr_distance :: "VectorMutualData list list \<Rightarrow> world \<Rightarrow> ptr \<Rightarrow> ptr \<Rightarrow> cnum res" where
  "ptr_distance m w p q =
     rbind (deref w p) (\<lambda>a. rbind (deref w q) (\<lambda>b. TspCity_GetDistance m a b))"

section \<open>Class \<open>TspCities\<close>\<close>

definition AddCity :: "city_fields \<Rightarrow> world \<Rightarrow> world res" where
  "AddCity d w =
     rbind (TspCity_new d 0 w) (\<lambda>(a, w1).
     rbind (deref w1 (Some a)) (\<lambda>c.
       Inr (w1\<lparr>w_cities := hm_insert (city_id c) (Some a) (w_cities w1)\<rparr>)))"

definition AddCityExt :: "city_fields \<Rightarrow> int \<Rightarrow> world \<Rightarrow> world res" where
  "AddCityExt d orig w =
     rbind (TspCity_new d orig w) (\<lambda>(a, w1).
     rbind (deref w1 (Some a)) (\<lambda>c.
       Inr (w1\<lparr>w_cities := hm_insert (city_id c) (Some a) (w_cities w1)\<rparr>)))"

definition delete_city :: "ptr \<Rightarrow> world \<Rightarrow> world res" where
  "delete_city p w =
     (case p of
        None \<Rightarrow> Inr w
      | Some a \<Rightarrow>
          (case w_heap w a of
             None \<Rightarrow> Inl Dangling
           | Some _ \<Rightarrow> Inr (w\<lparr>w_heap := (w_heap w)(a := None)\<rparr>)))"

text \<open>\<open>_cities[ id ]\<close> inserts a null pointer when the key is missing.\<close>

definition RemoveCity :: "int \<Rightarrow> world \<Rightarrow> (bool \<times> world) res" where
  "RemoveCity k w =
     (let w1 = w\<lparr>w_cities := hm_insert k None (w_cities w)\<rparr>
      in case hm_find (w_cities w1) k of
           Some (Some a) \<Rightarrow>
             rbind (delete_city (Some a) (w1\<lparr>w_cities := hm_erase k (w_cities w1)\<rparr>))
               (\<lambda>w2. Inr (True, w2))
         | _ \<Rightarrow> Inr (False, w1))"

definition Clear :: "world \<Rightarrow> world res" where
  "Clear w =
     rbind (rfold delete_city (map snd (w_cities w)) w) (\<lambda>w1. Inr (w1\<lparr>w_cities := []\<rparr>))"

definition GetCityById :: "world \<Rightarrow> int \<Rightarrow> ptr" where
  "GetCityById w k = (case hm_find (w_cities w) k of Some p \<Rightarrow> p | None \<Rightarrow> None)"

definition TspCities_GetDistance ::
  "VectorMutualData list list \<Rightarrow> world \<Rightarrow> int \<Rightarrow> int \<Rightarrow> cnum res" where
  "TspCities_GetDistance m w cityA cityB =
     (case GetCityById w cityA of
        None \<Rightarrow> Inr (Num (- 1))
      | Some a \<Rightarrow>
          (case GetCityById w cityB of
             None \<Rightarrow> Inr (Num (- 1))
           | Some b \<Rightarrow> ptr_distance m w (Some a) (Some b)))"

text \<open>The container's iteration order \<open>ord\<close> is a parameter where the code iterates.\<close>

type_synonym city_order = "(int, ptr) hash_map \<Rightarrow> (int, ptr) hash_map"

fun find_point :: "world \<Rightarrow> int \<Rightarrow> int \<Rightarrow> ptr list \<Rightarrow> ptr res" where
  "find_point w x y [] = Inr None"
| "find_point w x y (p # ps) =
     rbind (deref w p) (\<lambda>c. if PointWithinCity c x y then Inr p else find_point w x y ps)"

definition GetCityByPoint :: "city_order \<Rightarrow> world \<Rightarrow> int \<Rightarrow> int \<Rightarrow> ptr res" where
  "GetCityByPoint ord w x y = find_point w x y (map snd (ord (w_cities w)))"

definition GetCities :: "city_order \<Rightarrow> world \<Rightarrow> ptr list" where
  "GetCities ord w = map snd (ord (w_cities w))"

definition GetCount :: "world \<Rightarrow> int" where
  "GetCount w = int (length (w_cities w))"

definition nValue :: "int list" where
  "nValue = [0,200,200,220,420,450, 200,0,220,200,400,420, 200,220,0,200,220,420,
             220,200,200,0,200,220, 420,400,220,200,0,200, 450,420,420,220,200,0]"

definition location_step :: "int \<times> int \<Rightarrow> world \<times> int \<Rightarrow> (world \<times> int) res" where
  "location_step ij s =
     (let (i, j) = ij; (w, nIndex) = s
      in rbind (vget nValue nIndex) (\<lambda>v.
         rbind (vget (w_fTmp w) i) (\<lambda>row.
         rbind (vset row j (round32 (of_int v))) (\<lambda>row'.
         rbind (vset (w_fTmp w) i row') (\<lambda>t. Inr (w\<lparr>w_fTmp := t\<rparr>, nIndex + 1))))))"

definition locationInitialize :: "world \<Rightarrow> world res" where
  "locationInitialize w =
     rbind (rfold location_step [(i, j). i \<leftarrow> [0..5], j \<leftarrow> [0..5]] (w, 0)) (\<lambda>(w', _). Inr w')"

section \<open>The invariant of the singleton\<close>

text \<open>
  Keys are distinct; a non-null entry points to a live city with that id; the ids in use are
  at most \<open>_nextId\<close>; unused addresses are unused; there is no null entry.
\<close>

definition cities_ok :: "world \<Rightarrow> bool" where
  "cities_ok w \<longleftrightarrow> hm_inv (w_cities w)
     \<and> (\<forall>(k, p) \<in> set (w_cities w). k \<le> w_nextId w
           \<and> (\<forall>a. p = Some a \<longrightarrow> a < w_fresh w \<and> (\<exists>c. w_heap w a = Some c \<and> city_id c = k)))
     \<and> (\<forall>a \<ge> w_fresh w. w_heap w a = None)"

definition no_null :: "world \<Rightarrow> bool" where
  "no_null w \<longleftrightarrow> None \<notin> snd ` set (w_cities w)"

lemma cities_okD:
  assumes "cities_ok w"
  shows "hm_inv (w_cities w)"
    and "(k, p) \<in> set (w_cities w) \<Longrightarrow> k \<le> w_nextId w"
    and "(k, Some a) \<in> set (w_cities w) \<Longrightarrow> a < w_fresh w \<and> (\<exists>c. w_heap w a = Some c \<and> city_id c = k)"
    and "w_fresh w \<le> a \<Longrightarrow> w_heap w a = None"
  using assms by (auto simp: cities_ok_def)

lemma cities_ok_next_fresh:
  assumes "cities_ok w" and "w_nextId w < k"
  shows "hm_find (w_cities w) k = None"
proof (cases "hm_find (w_cities w) k")
  case (Some p)
  then have "(k, p) \<in> set (w_cities w)"
    by (simp add: hm_find_Some_iff [OF cities_okD(1) [OF assms(1)]])
  with cities_okD(2) [OF assms(1)] assms(2) show ?thesis by fastforce
qed simp

text \<open>What \<open>AddCity\<close> and \<open>AddCityExt\<close> do, in one equation.\<close>

definition added :: "city_fields \<Rightarrow> int \<Rightarrow> world \<Rightarrow> world" where
  "added d orig w =
     (let i = w_nextId w + 1; a = w_fresh w
      in w\<lparr>w_nextId := i,
           w_heap := (w_heap w)(a \<mapsto> \<lparr>city_id = i, city_originId = orig, city_data = d\<rparr>),
           w_fresh := Suc a,
           w_cities := hm_insert i (Some a) (w_cities w)\<rparr>)"

lemma AddCityExt_eq: "AddCityExt d orig w =
    (if int_range (w_nextId w + 1) then Inr (added d orig w) else Inl IntOverflow)"
  by (simp add: AddCityExt_def TspCity_new_def deref_def added_def chk_def Let_def)

lemma AddCity_eq: "AddCity d w =
    (if int_range (w_nextId w + 1) then Inr (added d 0 w) else Inl IntOverflow)"
  by (simp add: AddCity_def TspCity_new_def deref_def added_def chk_def Let_def)

lemma added_cities:
  "cities_ok w \<Longrightarrow> w_cities (added d orig w) = w_cities w @ [(w_nextId w + 1, Some (w_fresh w))]"
  using cities_ok_next_fresh [of w "w_nextId w + 1"]
  by (simp add: added_def Let_def hm_insert_def)

lemma added_ok:
  assumes "cities_ok w"
  shows "cities_ok (added d orig w)"
proof -
  have inv: "hm_inv (w_cities (added d orig w))"
    using cities_okD(1) [OF assms] by (simp add: added_def Let_def hm_inv_insert)
  have cs: "w_cities (added d orig w) = w_cities w @ [(w_nextId w + 1, Some (w_fresh w))]"
    by (rule added_cities [OF assms])
  have old: "k \<le> w_nextId w" "p = Some a \<Longrightarrow> a < w_fresh w \<and> (\<exists>c. w_heap w a = Some c \<and> city_id c = k)"
    if "(k, p) \<in> set (w_cities w)" for k p a
    using cities_okD(2,3) [OF assms] that by auto
  show ?thesis
    unfolding cities_ok_def
  proof (intro conjI ballI inv allI impI)
    fix e assume e: "e \<in> set (w_cities (added d orig w))"
    obtain k p where kp: "e = (k, p)" by force
    show "case e of (k, p) \<Rightarrow> k \<le> w_nextId (added d orig w) \<and>
        (\<forall>a. p = Some a \<longrightarrow> a < w_fresh (added d orig w) \<and>
          (\<exists>c. w_heap (added d orig w) a = Some c \<and> city_id c = k))"
      using e old [of k p] unfolding kp cs
      by (auto simp: added_def Let_def less_SucI)
  next
    fix a assume "w_fresh (added d orig w) \<le> a"
    then show "w_heap (added d orig w) a = None"
      using cities_okD(4) [OF assms] by (simp add: added_def Let_def)
  qed
qed

lemma added_no_null: "cities_ok w \<Longrightarrow> no_null w \<Longrightarrow> no_null (added d orig w)"
  by (simp add: no_null_def added_cities)

text \<open>Adding several cities.\<close>

definition add_all :: "(city_fields \<times> int) list \<Rightarrow> world \<Rightarrow> world" where
  "add_all es w = fold (\<lambda>(d, orig). added d orig) es w"

lemma add_all_simps [simp]: "add_all [] w = w" "add_all ((d, k) # es) w = add_all es (added d k w)"
  by (simp_all add: add_all_def)

lemma add_all_append: "add_all (es @ fs) w = add_all fs (add_all es w)"
  by (simp add: add_all_def)

lemma add_all_counters:
  "w_nextId (add_all es w) = w_nextId w + int (length es) \<and> w_fresh (add_all es w) = w_fresh w + length es"
  by (induction es rule: rev_induct) (auto simp: add_all_append added_def Let_def)

lemma add_all_ok:
  assumes "cities_ok w" and "no_null w"
  shows "cities_ok (add_all es w) \<and> no_null (add_all es w)
    \<and> w_cities (add_all es w) = w_cities w
        @ map (\<lambda>i. (w_nextId w + int i + 1, Some (w_fresh w + i))) [0..<length es]
    \<and> (\<forall>i < length es. w_heap (add_all es w) (w_fresh w + i)
         = Some \<lparr>city_id = w_nextId w + int i + 1, city_originId = snd (es ! i), city_data = fst (es ! i)\<rparr>)"
proof (induction es rule: rev_induct)
  case Nil
  then show ?case using assms by simp
next
  case (snoc e es)
  obtain d k where e: "e = (d, k)" by force
  let ?w = "add_all es w"
  from snoc have ok: "cities_ok ?w" "no_null ?w" by auto
  have h: "w_heap (added d k ?w) = (w_heap ?w)(w_fresh ?w \<mapsto>
      \<lparr>city_id = w_nextId ?w + 1, city_originId = k, city_data = d\<rparr>)"
    by (simp add: added_def Let_def)
  show ?case
    unfolding e add_all_append add_all_simps
    using snoc added_ok [OF ok(1)] added_no_null [OF ok] added_cities [OF ok(1)] add_all_counters [of es w]
    by (auto simp: h nth_append less_Suc_eq)
qed

section \<open>Deleting cities\<close>

text \<open>Deleting pointers, null ones included, of which no live one occurs twice.\<close>

lemma deleted_live:
  assumes "distinct (filter (\<lambda>p. p \<noteq> None) ps)" and "\<And>a. Some a \<in> set ps \<Longrightarrow> w_heap w a \<noteq> None"
  shows "rfold delete_city ps w = Inr (w\<lparr>w_heap := \<lambda>a. if Some a \<in> set ps then None else w_heap w a\<rparr>)"
  using assms
proof (induction ps arbitrary: w)
  case Nil
  then show ?case by simp
next
  case (Cons p ps)
  show ?case
  proof (cases p)
    case None
    have "rfold delete_city ps w = Inr (w\<lparr>w_heap := \<lambda>a. if Some a \<in> set ps then None else w_heap w a\<rparr>)"
      using Cons.prems None by (intro Cons.IH) auto
    moreover have "delete_city p w = Inr w" using None by (simp add: delete_city_def)
    ultimately show ?thesis using None by simp
  next
    case (Some a)
    then obtain c where c: "w_heap w a = Some c" using Cons.prems(2) [of a] by auto
    let ?w = "w\<lparr>w_heap := (w_heap w)(a := None)\<rparr>"
    have "rfold delete_city ps ?w = Inr (?w\<lparr>w_heap := \<lambda>b. if Some b \<in> set ps then None else w_heap ?w b\<rparr>)"
      using Cons.prems Some by (intro Cons.IH) auto
    moreover have "?w\<lparr>w_heap := \<lambda>b. if Some b \<in> set ps then None else w_heap ?w b\<rparr>
        = w\<lparr>w_heap := \<lambda>b. if Some b \<in> set (p # ps) then None else w_heap w b\<rparr>"
      using Some by (intro world.equality) auto
    moreover have "delete_city p w = Inr ?w" using Some c by (simp add: delete_city_def)
    ultimately show ?thesis by (simp only: rfold.simps rbind_simps)
  qed
qed

section \<open>Properties\<close>

text \<open>
  Adding a city keeps the singleton well formed: the new city is found under the next id
  and no other id finds anything else than before.
\<close>

theorem added_city_found:
  assumes "cities_ok w" and "int_range (w_nextId w + 1)"
  shows "\<exists>w'. AddCity d w = Inr w' \<and> cities_ok w' \<and> GetCount w' = GetCount w + 1
    \<and> deref w' (GetCityById w' (w_nextId w + 1))
        = Inr \<lparr>city_id = w_nextId w + 1, city_originId = 0, city_data = d\<rparr>
    \<and> (\<forall>k. k \<noteq> w_nextId w + 1 \<longrightarrow> GetCityById w' k = GetCityById w k)"
proof -
  let ?w = "added d 0 w"
  have none: "hm_find (w_cities w) (w_nextId w + 1) = None"
    using assms(1) by (rule cities_ok_next_fresh) simp
  have find: "hm_find (w_cities ?w) = (hm_find (w_cities w))(w_nextId w + 1 \<mapsto> Some (w_fresh w))"
    using none by (simp add: added_def Let_def hm_find_insert)
  have "GetCount ?w = GetCount w + 1" using added_cities [OF assms(1)] by (simp add: GetCount_def)
  moreover have "deref ?w (GetCityById ?w (w_nextId w + 1))
      = Inr \<lparr>city_id = w_nextId w + 1, city_originId = 0, city_data = d\<rparr>"
    unfolding GetCityById_def find by (simp add: deref_def added_def Let_def)
  moreover have "\<forall>k. k \<noteq> w_nextId w + 1 \<longrightarrow> GetCityById ?w k = GetCityById w k"
    by (simp add: GetCityById_def find)
  ultimately show ?thesis
    using added_ok [OF assms(1)] AddCity_eq [of d w] assms(2) by simp
qed

definition no_cities :: world where
  "no_cities = \<lparr>w_nextId = 0, w_heap = Map.empty, w_fresh = 0, w_cities = [], w_fTmp = []\<rparr>"

theorem added_city_found_witness:
  "\<forall>d. \<exists>w'. AddCity d no_cities = Inr w' \<and> cities_ok w' \<and> GetCount w' = 1"
proof
  fix d
  have "cities_ok no_cities" "int_range (w_nextId no_cities + 1)" "GetCount no_cities = 0"
    by (simp_all add: no_cities_def cities_ok_def hm_inv_def int_range_def GetCount_def)
  with added_city_found [of no_cities d] show "\<exists>w'. AddCity d no_cities = Inr w' \<and> cities_ok w' \<and> GetCount w' = 1"
    by auto
qed

text \<open>
  Removing an id that is not in use reports failure but leaves a null entry behind for it,
  which every later walk over the cities meets.
\<close>

theorem remove_unknown_leaves_null:
  assumes "GetCityById w k = None" and "no_null w"
  shows "\<exists>w'. RemoveCity k w = Inr (False, w') \<and> GetCount w' = GetCount w + 1
    \<and> None \<in> set (GetCities (\<lambda>m. m) w')"
proof -
  have "hm_find (w_cities w) k = None"
  proof (rule ccontr)
    assume "hm_find (w_cities w) k \<noteq> None"
    then obtain p where p: "hm_find (w_cities w) k = Some p" by auto
    with assms(1) have "p = None" by (simp add: GetCityById_def)
    with p have "(k, None) \<in> set (w_cities w)" by (simp add: hm_find_def map_of_SomeD)
    then show False using assms(2) by (force simp: no_null_def)
  qed
  then show ?thesis
    by (simp add: RemoveCity_def hm_insert_def hm_find_def map_of_append map_add_def GetCount_def GetCities_def)
qed

theorem remove_unknown_leaves_null_witness:
  "\<exists>w'. RemoveCity 4 no_cities = Inr (False, w') \<and> GetCount w' = 1"
  using remove_unknown_leaves_null [of no_cities 4]
  by (auto simp: no_cities_def GetCityById_def hm_find_def no_null_def GetCount_def)

end
