(* ===== verification/RandomGen.thy ===== *)
theory RandomGen
  imports CFloat "HOL-Library.Word"
begin

text \<open>
  \<open>TSP/inc/Random.h\<close>: the generators of integers, floats, doubles and booleans. The base class
  \<open>GaRandomGenerator\<close> is compiled code outside the sources; its three draws are the fields of
  \<open>raw_gen\<close>, functions of a generator state \<open>'g\<close>. What its documentation says of
  \<open>GenerateDouble\<close> (a number in (0, 1)) is the predicate \<open>unit_doubles\<close>.
\<close>

unbundle bit_operations_syntax

record 'g raw_gen =
  raw_uint :: "'g \<Rightarrow> 32 word \<times> 'g"
  raw_float :: "'g \<Rightarrow> cnum \<times> 'g"
  raw_double :: "'g \<Rightarrow> cnum \<times> 'g"

definition unit_doubles :: "'g raw_gen \<Rightarrow> bool" where
  "unit_doubles R \<longleftrightarrow> (\<forall>g. \<exists>q. fst (raw_double R g) = Num q \<and> 0 < q \<and> q < 1)"

section \<open>\<open>GaRandomInteger\<close>\<close>

definition GaRandomInteger_Generate :: "'g raw_gen \<Rightarrow> 'g \<Rightarrow> (int \<times> 'g) res" where
  "GaRandomInteger_Generate R g =
     (let (w1, g') = raw_uint R g
      in rbind (if sint w1 < 0 then chk (- sint w1) else Inr (sint w1)) (\<lambda>v. Inr (v, g')))"

definition GaRandomInteger_Generate_max :: "'g raw_gen \<Rightarrow> int \<Rightarrow> 'g \<Rightarrow> (int \<times> 'g) res" where
  "GaRandomInteger_Generate_max R mx g =
     rbind (chk (mx + 1)) (\<lambda>m.
       let (d, g') = raw_double R g
       in rbind (to_int (fmul round64 d (Num (of_int m)))) (\<lambda>k.
          rbind (int_mod k m) (\<lambda>v. Inr (v, g'))))"

definition GaRandomInteger_Generate_range :: "'g raw_gen \<Rightarrow> int \<Rightarrow> int \<Rightarrow> 'g \<Rightarrow> (int \<times> 'g) res" where
  "GaRandomInteger_Generate_range R mn mx g =
     rbind (chk (mx - mn)) (\<lambda>d.
     rbind (GaRandomInteger_Generate_max R d g) (\<lambda>(v, g').
     rbind (chk (mn + v)) (\<lambda>r. Inr (r, g'))))"

section \<open>\<open>GaRandomFloat\<close>, \<open>GaRandomDouble\<close>\<close>

definition GaRandomFloat_Generate :: "'g raw_gen \<Rightarrow> 'g \<Rightarrow> cnum \<times> 'g" where
  "GaRandomFloat_Generate R g = raw_float R g"

definition GaRandomFloat_Generate_max :: "'g raw_gen \<Rightarrow> cnum \<Rightarrow> 'g \<Rightarrow> cnum \<times> 'g" where
  "GaRandomFloat_Generate_max R mx g = (let (d, g') = raw_float R g in (fmul round32 mx d, g'))"

definition GaRandomFloat_Generate_range :: "'g raw_gen \<Rightarrow> cnum \<Rightarrow> cnum \<Rightarrow> 'g \<Rightarrow> cnum \<times> 'g" where
  "GaRandomFloat_Generate_range R mn mx g =
     (let (v, g') = GaRandomFloat_Generate_max R (fsub round32 mx mn) g in (fadd round32 mn v, g'))"

definition GaRandomDouble_Generate :: "'g raw_gen \<Rightarrow> 'g \<Rightarrow> cnum \<times> 'g" where
  "GaRandomDouble_Generate R g = raw_double R g"

definition GaRandomDouble_Generate_max :: "'g raw_gen \<Rightarrow> cnum \<Rightarrow> 'g \<Rightarrow> cnum \<times> 'g" where
  "GaRandomDouble_Generate_max R mx g = (let (d, g') = raw_double R g in (fmul round64 mx d, g'))"

definition GaRandomDouble_Generate_range :: "'g raw_gen \<Rightarrow> cnum \<Rightarrow> cnum \<Rightarrow> 'g \<Rightarrow> cnum \<times> 'g" where
  "GaRandomDouble_Generate_range R mn mx g =
     (let (v, g') = GaRandomDouble_Generate_max R (fsub round64 mx mn) g in (fadd round64 mn v, g'))"

section \<open>\<open>GaRandomBool\<close>\<close>

definition GaRandomBool_Generate :: "'g raw_gen \<Rightarrow> 'g \<Rightarrow> bool \<times> 'g" where
  "GaRandomBool_Generate R g = (let (w, g') = raw_uint R g in (w AND 1 = 1, g'))"

definition GaRandomBool_Generate_max :: "'g raw_gen \<Rightarrow> bool \<Rightarrow> 'g \<Rightarrow> bool \<times> 'g" where
  "GaRandomBool_Generate_max R mx g = GaRandomBool_Generate R g"

definition GaRandomBool_Generate_range :: "'g raw_gen \<Rightarrow> bool \<Rightarrow> bool \<Rightarrow> 'g \<Rightarrow> bool \<times> 'g" where
  "GaRandomBool_Generate_range R mn mx g = GaRandomBool_Generate R g"

definition GaRandomBool_Generate_prob :: "'g raw_gen \<Rightarrow> cnum \<Rightarrow> 'g \<Rightarrow> bool \<times> 'g" where
  "GaRandomBool_Generate_prob R p g = (let (f, g') = raw_float R g in (flt f p, g'))"

definition GaRandomBool_Generate_percent :: "'g raw_gen \<Rightarrow> int \<Rightarrow> 'g \<Rightarrow> (bool \<times> 'g) res" where
  "GaRandomBool_Generate_percent R p g =
     (let (d, g') = raw_double R g
      in rbind (to_int (fmul round64 d (Num 100))) (\<lambda>k. Inr (k < p, g')))"

section \<open>Bounds\<close>

lemma Generate_max_in_range:
  assumes "fst (raw_double R g) = Num q" and "0 \<le> q" and "q \<le> 1"
    and "0 \<le> mx" and "mx < 2 ^ 31 - 1"
  shows "\<exists>v. GaRandomInteger_Generate_max R mx g = Inr (v, snd (raw_double R g)) \<and> 0 \<le> v \<and> v \<le> mx"
proof -
  let ?m = "mx + 1"
  have m: "int_range ?m" "0 < ?m" using assms(4,5) by (auto simp: int_range_def)
  have "0 \<le> q * of_int ?m" and "q * of_int ?m \<le> of_int ?m"
    using assms(2,3) m(2) by (auto intro: mult_left_le_one_le)
  then obtain r where r: "round64 (q * of_int ?m) = Num r" "0 \<le> r" "r \<le> of_int ?m"
    using round64_between [of "q * of_int ?m" ?m] assms(5) by auto
  have t: "0 \<le> trunc_rat r" "trunc_rat r \<le> ?m"
    using trunc_rat_between [OF r(2,3)] by auto
  then have "int_range (trunc_rat r)" using m(1) by (auto simp: int_range_def)
  moreover have "int_mod (trunc_rat r) ?m = Inr (trunc_rat r mod ?m)"
    using m(2) t(1) by (simp add: int_mod_def c_mod_nonneg)
  moreover have "0 \<le> trunc_rat r mod ?m \<and> trunc_rat r mod ?m \<le> mx"
    using m(2) by (metis pos_mod_bound pos_mod_sign zle_add1_eq_le)
  moreover obtain d g' where "raw_double R g = (d, g')" by force
  ultimately show ?thesis
    using r(1) assms(1) m(1) by (simp add: GaRandomInteger_Generate_max_def chk_ok del: of_int_add)
qed

lemma Generate_max_minus_one: "GaRandomInteger_Generate_max R (- 1) g = 
    (case to_int (fmul round64 (fst (raw_double R g)) (Num 0)) of Inl e \<Rightarrow> Inl e | Inr _ \<Rightarrow> Inl DivByZero)"
  by (cases "raw_double R g")
    (simp add: GaRandomInteger_Generate_max_def chk_def int_range_def int_mod_def rbind_def split: sum.splits)

section \<open>Properties\<close>

text \<open>
  C37. Drawing an integer between two bounds never faults and stays between them, when the
  difference of the bounds fits below the largest \<open>int\<close> and the double drawn is in [0, 1].
\<close>

theorem random_integer_in_range:
  assumes "fst (raw_double R g) = Num q" and "0 \<le> q" and "q \<le> 1" and "int_range mn" and "int_range mx"
    and "mn \<le> mx" and "mx - mn < 2 ^ 31 - 1"
  shows "\<exists>v. GaRandomInteger_Generate_range R mn mx g = Inr (v, snd (raw_double R g)) \<and> mn \<le> v \<and> v \<le> mx"
proof -
  obtain v where v: "GaRandomInteger_Generate_max R (mx - mn) g = Inr (v, snd (raw_double R g))" "0 \<le> v" "v \<le> mx - mn"
    using Generate_max_in_range [OF assms(1-3), of "mx - mn"] assms(6,7) by auto
  have "int_range (mx - mn)" using assms(6,7) by (simp add: int_range_def)
  moreover have "int_range (mn + v)" using v(2,3) assms(4,5) by (auto simp: int_range_def)
  ultimately show ?thesis
    using v by (simp add: GaRandomInteger_Generate_range_def chk_ok)
qed

definition half_generator :: "unit raw_gen" where
  "half_generator = \<lparr>raw_uint = (\<lambda>g. (0x80000000, g)), raw_float = (\<lambda>g. (Num (1 / 2), g)),
     raw_double = (\<lambda>g. (Num (1 / 2), g))\<rparr>"

theorem random_integer_in_range_witness:
  "\<exists>v. GaRandomInteger_Generate_range half_generator (- 5) 5 () = Inr (v, ()) \<and> - 5 \<le> v \<and> v \<le> 5"
  using random_integer_in_range [of half_generator "()" "1 / 2" "- 5" 5]
  by (simp add: half_generator_def int_range_def)

text \<open>
  Drawing an integer without bounds negates a negative number drawn: it is never negative,
  and its only fault is the overflow for the pattern with just the sign bit set.
\<close>

theorem random_integer_nonnegative:
  "GaRandomInteger_Generate R g =
    (if fst (raw_uint R g) = 0x80000000 then Inl IntOverflow
     else Inr (\<bar>sint (fst (raw_uint R g))\<bar>, snd (raw_uint R g)))"
proof (cases "raw_uint R g")
  case (Pair w g')
  have eq: "w = 0x80000000 \<longleftrightarrow> sint w = - (2 ^ 31)"
  proof
    assume "sint w = - (2 ^ 31)"
    also have "\<dots> = sint (0x80000000 :: 32 word)" by simp
    finally show "w = 0x80000000" by (rule signed_word_eqI)
  qed simp
  have range: "- (2 ^ 31) \<le> sint w \<and> sint w < 2 ^ 31"
    using sint_ge [of w] sint_less [of w] by simp
  show ?thesis
  proof (cases "w = 0x80000000")
    case True
    then show ?thesis using Pair by (simp add: GaRandomInteger_Generate_def chk_def int_range_def)
  next
    case False
    with eq range have "int_range (- sint w)" by (auto simp: int_range_def)
    then show ?thesis using Pair False by (simp add: GaRandomInteger_Generate_def chk_ok)
  qed
qed

end
