(* ===== verification/ValueSets.thy ===== *)
theory ValueSets
  imports Prelude
begin

text \<open>
  \<open>TSP/inc/ValueSets.h\<close>: the value sets a chromosome draws its values from. The abstract class
  \<open>GaValueSet\<close> is the locale \<open>value_set\<close> and, for the code that calls a set through a base
  pointer, the record of its virtual functions \<open>value_set_ops\<close>. The template parameter \<open>T\<close> is a
  type with exact arithmetic. The global generators are parameters: \<open>rb\<close> draws a boolean,
  \<open>ri max\<close> an integer up to \<open>max\<close>; a set's own generator is a function of both bounds.
\<close>

section \<open>Class \<open>GaValueSet\<close>\<close>

record ('a, 'g) value_set_ops =
  vs_random :: "'g \<Rightarrow> ('a \<times> 'g) res"
  vs_inverse :: "'a \<Rightarrow> 'a option res"
  vs_belongs :: "'a \<Rightarrow> bool"
  vs_closest :: "'a \<Rightarrow> 'a res"

text \<open>What a caller may rely on: drawn and adjusted values are members, and only members invert.\<close>

definition lawful_set :: "('a, 'g) value_set_ops \<Rightarrow> bool" where
  "lawful_set s \<longleftrightarrow>
     (\<forall>g y g'. vs_random s g = Inr (y, g') \<longrightarrow> vs_belongs s y)
   \<and> (\<forall>x. \<exists>y. vs_closest s x = Inr y \<and> vs_belongs s y)
   \<and> (\<forall>x r. vs_inverse s x = Inr r \<longrightarrow> (r \<noteq> None) = vs_belongs s x)"

locale value_set =
  fixes random :: "'s \<Rightarrow> 'g \<Rightarrow> ('a \<times> 'g) res"
    and inverse_of :: "'s \<Rightarrow> 'a \<Rightarrow> 'a option res"
    and belongs :: "'s \<Rightarrow> 'a \<Rightarrow> bool"
    and closest :: "'s \<Rightarrow> 'a \<Rightarrow> 'a res"
    and inv :: "'s \<Rightarrow> bool"
  assumes random_belongs: "inv s \<Longrightarrow> random s g = Inr (y, g') \<Longrightarrow> belongs s y"
    and closest_belongs: "inv s \<Longrightarrow> \<exists>y. closest s x = Inr y \<and> belongs s y"
    and inverse_member: "inv s \<Longrightarrow> inverse_of s x = Inr r \<Longrightarrow> (r \<noteq> None) = belongs s x"
begin

lemma ops_lawful:
  "inv s \<Longrightarrow> lawful_set \<lparr>vs_random = random s, vs_inverse = inverse_of s,
     vs_belongs = belongs s, vs_closest = closest s\<rparr>"
  unfolding lawful_set_def value_set_ops.simps
  using random_belongs closest_belongs inverse_member by blast

lemma closest_never_faults: "inv s \<Longrightarrow> closest s x \<noteq> Inl e"
  using closest_belongs by (metis Inl_Inr_False)

end

section \<open>Class \<open>GaSingleValueSet\<close>\<close>

record 'a single_set =
  sv_value :: 'a
  sv_inverted :: 'a
  sv_viceVersa :: bool

definition single_random :: "('g \<Rightarrow> bool \<times> 'g) \<Rightarrow> 'a single_set \<Rightarrow> 'g \<Rightarrow> ('a \<times> 'g) res" where
  "single_random rb s g =
     (if \<not> sv_viceVersa s then Inr (sv_value s, g)
      else let (b, g') = rb g in Inr (if b then sv_value s else sv_inverted s, g'))"

definition single_inverse :: "'a single_set \<Rightarrow> 'a \<Rightarrow> 'a option res" where
  "single_inverse s v =
     (if v = sv_value s then Inr (Some (sv_inverted s))
      else if sv_viceVersa s \<and> v = sv_inverted s then Inr (Some (sv_value s))
      else Inr None)"

definition single_belongs :: "'a single_set \<Rightarrow> 'a \<Rightarrow> bool" where
  "single_belongs s v \<longleftrightarrow> v = sv_value s \<or> (sv_viceVersa s \<and> v = sv_inverted s)"

definition single_closest :: "'a single_set \<Rightarrow> 'a \<Rightarrow> 'a res" where
  "single_closest s v = Inr (sv_value s)"

definition single_SetValue :: "'a \<Rightarrow> 'a single_set \<Rightarrow> 'a single_set" where
  "single_SetValue v s = s\<lparr>sv_value := v\<rparr>"

definition single_SetValues :: "'a \<Rightarrow> 'a \<Rightarrow> 'a single_set \<Rightarrow> 'a single_set" where
  "single_SetValues original inverted s = s\<lparr>sv_value := original, sv_inverted := inverted\<rparr>"

definition single_SetInvertedValue :: "'a \<Rightarrow> 'a single_set \<Rightarrow> 'a single_set" where
  "single_SetInvertedValue v s = s\<lparr>sv_inverted := v\<rparr>"

interpretation single: value_set "single_random rb" single_inverse single_belongs single_closest
    "\<lambda>_. True" for rb
  by unfold_locales
    (auto simp: single_random_def single_inverse_def single_belongs_def single_closest_def
      split: if_splits prod.splits)

section \<open>Class \<open>GaMultiValueSet\<close>\<close>

record 'a multi_set =
  ms_values :: "'a list"
  ms_inverted :: "'a list"
  ms_viceVersa :: bool

definition multi_random ::
  "('g \<Rightarrow> bool \<times> 'g) \<Rightarrow> (int \<Rightarrow> 'g \<Rightarrow> (int \<times> 'g) res) \<Rightarrow> 'a multi_set \<Rightarrow> 'g \<Rightarrow> ('a \<times> 'g) res" where
  "multi_random rb ri s g =
     (let (b, g1) = (if \<not> ms_viceVersa s then (True, g) else rb g);
          xs = (if b then ms_values s else ms_inverted s)
      in rbind (ri (int (length xs) - 1) g1) (\<lambda>(k, g2). rbind (vget xs k) (\<lambda>x. Inr (x, g2))))"

text \<open>The position of the first element equal to \<open>v\<close>, counted from \<open>pos\<close>.\<close>

fun first_pos :: "'a \<Rightarrow> 'a list \<Rightarrow> int \<Rightarrow> int option" where
  "first_pos v [] pos = None"
| "first_pos v (x # xs) pos = (if v = x then Some pos else first_pos v xs (pos + 1))"

definition multi_inverse :: "'a multi_set \<Rightarrow> 'a \<Rightarrow> 'a option res" where
  "multi_inverse s v =
     (case first_pos v (ms_values s) 0 of
        Some pos \<Rightarrow> rbind (vget (ms_inverted s) pos) (\<lambda>y. Inr (Some y))
      | None \<Rightarrow>
          if ms_viceVersa s then
            (case first_pos v (ms_inverted s) 0 of
               Some pos \<Rightarrow> rbind (vget (ms_values s) pos) (\<lambda>y. Inr (Some y))
             | None \<Rightarrow> Inr None)
          else Inr None)"

definition multi_belongs :: "'a multi_set \<Rightarrow> 'a \<Rightarrow> bool" where
  "multi_belongs s v \<longleftrightarrow> v \<in> set (ms_values s) \<or> (ms_viceVersa s \<and> v \<in> set (ms_inverted s))"

text \<open>The first loop of \<open>ClosestValue\<close>: \<open>Inl v\<close> is its early return.\<close>

fun closest_scan :: "'a::linordered_idom \<Rightarrow> 'a list \<Rightarrow> 'a \<Rightarrow> 'a \<Rightarrow> 'a + 'a" where
  "closest_scan v [] closest diff = Inr closest"
| "closest_scan v (x # xs) closest diff =
     (if v = x then Inl v
      else let d = (if v > x then v - x else x - v)
           in if d < diff then closest_scan v xs x d else closest_scan v xs closest diff)"

fun closest_scan_inverted :: "'a::linordered_idom \<Rightarrow> 'a list \<Rightarrow> 'a \<Rightarrow> 'a" where
  "closest_scan_inverted v [] closest = closest"
| "closest_scan_inverted v (x # xs) closest =
     (if v = x then v
      else if v > x then closest_scan_inverted v xs (if v - x < closest then x else closest)
      else closest_scan_inverted v xs (if x - v < closest then x else closest))"

definition multi_closest :: "'a::linordered_idom multi_set \<Rightarrow> 'a \<Rightarrow> 'a res" where
  "multi_closest s v =
     (case ms_values s of
        [] \<Rightarrow> Inl OutOfBounds
      | x # xs \<Rightarrow>
          (case closest_scan v xs x (if v < x then x - v else v - x) of
             Inl y \<Rightarrow> Inr y
           | Inr c \<Rightarrow> Inr (if ms_viceVersa s then closest_scan_inverted v (ms_inverted s) c else c)))"

definition multi_Add :: "'a \<Rightarrow> 'a \<Rightarrow> 'a multi_set \<Rightarrow> bool \<times> 'a multi_set" where
  "multi_Add original inverted s =
     (if multi_belongs s original \<or> (ms_viceVersa s \<and> multi_belongs s inverted) then (False, s)
      else (True, s\<lparr>ms_values := ms_values s @ [original],
                    ms_inverted := ms_inverted s @ [inverted]\<rparr>))"

text \<open>The array version adds from the last pair to the first.\<close>

fun multi_Add_pairs :: "('a \<times> 'a) list \<Rightarrow> int \<Rightarrow> 'a multi_set \<Rightarrow> int \<times> 'a multi_set" where
  "multi_Add_pairs [] added s = (added, s)"
| "multi_Add_pairs ((v, i) # ps) added s =
     (let (ok, s') = multi_Add v i s in multi_Add_pairs ps (if ok then added + 1 else added) s')"

definition multi_Add_array :: "'a list \<Rightarrow> 'a list \<Rightarrow> 'a multi_set \<Rightarrow> int \<times> 'a multi_set" where
  "multi_Add_array values invertedValues s = multi_Add_pairs (rev (zip values invertedValues)) 0 s"

definition erase_at :: "nat \<Rightarrow> 'a list \<Rightarrow> 'a list" where
  "erase_at k xs = take k xs @ drop (Suc k) xs"

text \<open>\<open>Remove(value)\<close>: two iterators in step; the second may run out first.\<close>

fun remove_index :: "bool \<Rightarrow> 'a \<Rightarrow> 'a list \<Rightarrow> 'a list \<Rightarrow> nat \<Rightarrow> nat option res" where
  "remove_index vv v [] is k = Inr None"
| "remove_index vv v (x # xs) is k =
     (if v = x then Inr (Some k)
      else if vv then
        (case is of
           [] \<Rightarrow> Inl OutOfBounds
         | i # is' \<Rightarrow> if v = i then Inr (Some k) else remove_index vv v xs is' (Suc k))
      else remove_index vv v xs (tl is) (Suc k))"

definition multi_Remove :: "'a \<Rightarrow> 'a multi_set \<Rightarrow> 'a multi_set res" where
  "multi_Remove v s =
     rbind (remove_index (ms_viceVersa s) v (ms_values s) (ms_inverted s) 0) (\<lambda>r.
       case r of
         None \<Rightarrow> Inr s
       | Some k \<Rightarrow>
           if k < length (ms_inverted s)
           then Inr (s\<lparr>ms_values := erase_at k (ms_values s), ms_inverted := erase_at k (ms_inverted s)\<rparr>)
           else Inl BadRange)"

definition multi_Remove_at :: "int \<Rightarrow> 'a multi_set \<Rightarrow> 'a multi_set res" where
  "multi_Remove_at pos s =
     (if 0 \<le> pos \<and> pos < int (length (ms_values s))
      then if nat pos < length (ms_inverted s)
           then Inr (s\<lparr>ms_values := erase_at (nat pos) (ms_values s),
                       ms_inverted := erase_at (nat pos) (ms_inverted s)\<rparr>)
           else Inl BadRange
      else Inr s)"

definition multi_GetValue :: "int \<Rightarrow> 'a multi_set \<Rightarrow> 'a res" where
  "multi_GetValue pos s = vget (ms_values s) pos"

definition multi_GetInvertedValue :: "int \<Rightarrow> 'a multi_set \<Rightarrow> 'a res" where
  "multi_GetInvertedValue pos s = vget (ms_inverted s) pos"

definition multi_SetValue :: "int \<Rightarrow> 'a \<Rightarrow> 'a multi_set \<Rightarrow> 'a multi_set res" where
  "multi_SetValue pos v s = rbind (vset (ms_values s) pos v) (\<lambda>xs. Inr (s\<lparr>ms_values := xs\<rparr>))"

definition multi_SetValues :: "int \<Rightarrow> 'a \<Rightarrow> 'a \<Rightarrow> 'a multi_set \<Rightarrow> 'a multi_set res" where
  "multi_SetValues pos original inverted s =
     rbind (vset (ms_values s) pos original) (\<lambda>xs.
     rbind (vset (ms_inverted s) pos inverted) (\<lambda>ys.
       Inr (s\<lparr>ms_values := xs, ms_inverted := ys\<rparr>)))"

definition multi_SetInvertedValue :: "int \<Rightarrow> 'a \<Rightarrow> 'a multi_set \<Rightarrow> 'a multi_set res" where
  "multi_SetInvertedValue pos v s =
     rbind (vset (ms_inverted s) pos v) (\<lambda>ys. Inr (s\<lparr>ms_inverted := ys\<rparr>))"

subsection \<open>Correctness\<close>

lemma first_pos_Some: "first_pos v xs k = Some p \<Longrightarrow> k \<le> p \<and> p < k + int (length xs) \<and> xs ! nat (p - k) = v"
proof (induction xs arbitrary: k)
  case Nil
  then show ?case by simp
next
  case (Cons x xs)
  show ?case
  proof (cases "v = x")
    case True
    with Cons.prems show ?thesis by auto
  next
    case False
    with Cons.prems have "first_pos v xs (k + 1) = Some p" by simp
    from Cons.IH [OF this] have p: "k + 1 \<le> p" "p < k + 1 + int (length xs)" "xs ! nat (p - (k + 1)) = v"
      by auto
    have "nat (p - k) = Suc (nat (p - (k + 1)))" using p(1) by linarith
    with p show ?thesis by simp
  qed
qed

lemma first_pos_None_iff: "first_pos v xs k = None \<longleftrightarrow> v \<notin> set xs"
  by (induction xs arbitrary: k) auto

lemma first_pos_distinct:
  assumes "distinct xs" and "i < length xs" and "xs ! i = v"
  shows "first_pos v xs 0 = Some (int i)"
proof -
  have "v \<in> set xs" using assms(2,3) by auto
  then obtain p where p: "first_pos v xs 0 = Some p"
    using first_pos_None_iff by fastforce
  with first_pos_Some [OF p] have "0 \<le> p" "nat p < length xs" "xs ! nat p = v" by auto
  with assms have "nat p = i" using distinct_index_unique by blast
  with \<open>0 \<le> p\<close> p show ?thesis by simp
qed

text \<open>The arrays have one length; the pairs do not overlap where the set inverts both ways.\<close>

definition multi_ok :: "'a multi_set \<Rightarrow> bool" where
  "multi_ok s \<longleftrightarrow> length (ms_values s) = length (ms_inverted s) \<and> ms_values s \<noteq> []"

definition multi_wf :: "'a multi_set \<Rightarrow> bool" where
  "multi_wf s \<longleftrightarrow> length (ms_values s) = length (ms_inverted s) \<and> distinct (ms_values s)
     \<and> (ms_viceVersa s \<longrightarrow> distinct (ms_inverted s)
          \<and> (\<forall>i < length (ms_values s). \<forall>j < length (ms_values s).
               ms_values s ! i = ms_inverted s ! j \<longrightarrow> i = j))"

lemma multi_Add_wf:
  assumes "multi_wf s" and "multi_Add original inverted s = (ok, s')"
  shows "multi_wf s'"
proof (cases "multi_belongs s original \<or> (ms_viceVersa s \<and> multi_belongs s inverted)")
  case True
  with assms show ?thesis by (auto simp: multi_Add_def)
next
  case False
  have cross: "ms_values s ! i \<noteq> inverted" "original \<noteq> ms_inverted s ! i"
    if "ms_viceVersa s" "i < length (ms_values s)" for i
    using False that assms(1) by (auto simp: multi_belongs_def multi_wf_def)
  from False assms cross show ?thesis
    by (auto simp: multi_Add_def multi_wf_def multi_belongs_def nth_append less_Suc_eq)
qed

lemma multi_inverse_iff:
  assumes "multi_wf s" and "ms_viceVersa s"
  shows "multi_inverse s v = Inr (Some y) \<longleftrightarrow>
    (\<exists>i < length (ms_values s). (v = ms_values s ! i \<and> y = ms_inverted s ! i)
      \<or> (v = ms_inverted s ! i \<and> y = ms_values s ! i))"
proof -
  let ?vs = "ms_values s" and ?is = "ms_inverted s"
  from assms have len: "length ?is = length ?vs" and dv: "distinct ?vs" and di: "distinct ?is"
    and cr: "\<And>i j. i < length ?vs \<Longrightarrow> j < length ?vs \<Longrightarrow> ?vs ! i = ?is ! j \<Longrightarrow> i = j"
    by (simp_all add: multi_wf_def)
  have fwd: "multi_inverse s (?vs ! i) = Inr (Some (?is ! i))" if "i < length ?vs" for i
    using first_pos_distinct [OF dv that refl] that len by (simp add: multi_inverse_def)
  have bwd: "multi_inverse s (?is ! i) = Inr (Some (?vs ! i))" if i: "i < length ?vs" for i
  proof (cases "?is ! i \<in> set ?vs")
    case True
    then obtain j where "j < length ?vs" "?vs ! j = ?is ! i" by (auto simp: in_set_conv_nth)
    with cr i have "?vs ! i = ?is ! i" by metis
    with fwd [OF i] show ?thesis by simp
  next
    case False
    then have "first_pos (?is ! i) ?vs 0 = None" by (simp add: first_pos_None_iff)
    with first_pos_distinct [OF di _ refl] i len assms(2) show ?thesis by (simp add: multi_inverse_def)
  qed
  have none: "multi_inverse s v = Inr None" if "v \<notin> set ?vs" "v \<notin> set ?is"
    using that assms(2) by (simp add: multi_inverse_def first_pos_None_iff [THEN iffD2])
  show ?thesis
  proof
    assume y: "multi_inverse s v = Inr (Some y)"
    then have "v \<in> set ?vs \<or> v \<in> set ?is" using none by force
    then obtain i where "i < length ?vs" "v = ?vs ! i \<or> v = ?is ! i" using len by (metis in_set_conv_nth)
    with fwd bwd y show "\<exists>i < length ?vs. (v = ?vs ! i \<and> y = ?is ! i) \<or> (v = ?is ! i \<and> y = ?vs ! i)" by force
  next
    assume "\<exists>i < length ?vs. (v = ?vs ! i \<and> y = ?is ! i) \<or> (v = ?is ! i \<and> y = ?vs ! i)"
    with fwd bwd show "multi_inverse s v = Inr (Some y)" by auto
  qed
qed

lemma closest_scan_nearest:
  assumes "\<forall>x \<in> C. diff \<le> \<bar>v - x\<bar>" and "diff = \<bar>v - c\<bar>" and "c \<in> C"
  shows "case closest_scan v xs c diff of
      Inl y \<Rightarrow> y = v \<and> v \<in> set xs
    | Inr y \<Rightarrow> y \<in> C \<union> set xs \<and> (\<forall>x \<in> C \<union> set xs. \<bar>v - y\<bar> \<le> \<bar>v - x\<bar>)"
  using assms
proof (induction xs arbitrary: C c diff)
  case Nil
  then show ?case by simp
next
  case (Cons x xs)
  let ?d = "if v > x then v - x else x - v"
  have d: "?d = \<bar>v - x\<bar>" by (simp add: abs_if)
  show ?case
  proof (cases "v = x")
    case True
    then show ?thesis by simp
  next
    case ne: False
    show ?thesis
    proof (cases "?d < diff")
      case True
      have "\<forall>z \<in> insert x C. ?d \<le> \<bar>v - z\<bar>" using True Cons.prems(1) d by force
      from Cons.IH [OF this d] ne True show ?thesis by (auto split: sum.splits)
    next
      case False
      have "\<forall>z \<in> insert x C. diff \<le> \<bar>v - z\<bar>" using False Cons.prems(1) d by force
      from Cons.IH [OF this Cons.prems(2)] Cons.prems(3) ne False show ?thesis by (auto split: sum.splits)
    qed
  qed
qed

lemma closest_scan_inverted_member: "closest_scan_inverted v xs c = y \<Longrightarrow> y = c \<or> y \<in> set xs"
  by (induction xs arbitrary: c) (auto split: if_splits)

lemma multi_closest_cases:
  assumes "ms_values s \<noteq> []"
  shows "\<exists>y. multi_closest s v = Inr y \<and> multi_belongs s y
    \<and> (\<not> ms_viceVersa s \<longrightarrow> (\<forall>x \<in> set (ms_values s). \<bar>v - y\<bar> \<le> \<bar>v - x\<bar>))"
proof -
  obtain x xs where vs: "ms_values s = x # xs" using assms by (cases "ms_values s") auto
  let ?d = "if v < x then x - v else v - x"
  have "?d = \<bar>v - x\<bar>" by (simp add: abs_if)
  then have c: "case closest_scan v xs x ?d of
      Inl y \<Rightarrow> y = v \<and> v \<in> set xs
    | Inr y \<Rightarrow> y \<in> {x} \<union> set xs \<and> (\<forall>z \<in> {x} \<union> set xs. \<bar>v - y\<bar> \<le> \<bar>v - z\<bar>)"
    by (intro closest_scan_nearest) auto
  show ?thesis
  proof (cases "closest_scan v xs x ?d")
    case (Inl y)
    with c show ?thesis by (simp add: multi_closest_def vs multi_belongs_def)
  next
    case (Inr y)
    with c have y: "y \<in> set (x # xs)" "\<forall>z \<in> set (x # xs). \<bar>v - y\<bar> \<le> \<bar>v - z\<bar>" by auto
    show ?thesis
    proof (cases "ms_viceVersa s")
      case True
      from closest_scan_inverted_member [of v "ms_inverted s" y] y(1) Inr True show ?thesis
        by (auto simp: multi_closest_def vs multi_belongs_def)
    next
      case False
      with y Inr show ?thesis by (simp add: multi_closest_def vs multi_belongs_def)
    qed
  qed
qed

lemma multi_random_belongs:
  "multi_random rb ri s g = Inr (y, g') \<Longrightarrow> multi_belongs s y"
  by (auto simp: multi_random_def multi_belongs_def rbind_eq_Inr vget_Inr_iff nat_less_iff Let_def
      split: prod.splits if_splits)

lemma multi_inverse_member:
  "multi_inverse s x = Inr r \<Longrightarrow> (r \<noteq> None) = multi_belongs s x"
  by (auto simp: multi_inverse_def multi_belongs_def rbind_eq_Inr first_pos_None_iff
      split: option.splits if_splits dest: first_pos_Some)

interpretation multi: value_set "multi_random rb ri" multi_inverse multi_belongs multi_closest multi_ok
  for rb ri
  by (unfold_locales; use multi_random_belongs multi_inverse_member multi_closest_cases in
      \<open>fastforce simp: multi_ok_def\<close>)

section \<open>Classes \<open>GaValueIntervalBounds\<close> and \<open>GaIntervalValueSet\<close>\<close>

record 'a bounds =
  vb_lower :: 'a
  vb_higher :: 'a

definition bounds_new :: "'a::linorder \<Rightarrow> 'a \<Rightarrow> 'a bounds" where
  "bounds_new lower higher =
     (if lower \<le> higher then \<lparr>vb_lower = lower, vb_higher = higher\<rparr>
      else \<lparr>vb_lower = higher, vb_higher = lower\<rparr>)"

definition SetLowerBound :: "'a::linorder \<Rightarrow> 'a bounds \<Rightarrow> 'a bounds" where
  "SetLowerBound lower b = (if lower \<le> vb_higher b then b\<lparr>vb_lower := lower\<rparr> else b)"

definition SetHigherBound :: "'a::linorder \<Rightarrow> 'a bounds \<Rightarrow> 'a bounds" where
  "SetHigherBound higher b = (if vb_lower b \<le> higher then b\<lparr>vb_higher := higher\<rparr> else b)"

definition SetBounds :: "'a::linorder \<Rightarrow> 'a \<Rightarrow> 'a bounds \<Rightarrow> 'a bounds" where
  "SetBounds lower higher b =
     (if lower \<le> higher then b\<lparr>vb_lower := lower, vb_higher := higher\<rparr>
      else b\<lparr>vb_lower := higher, vb_higher := lower\<rparr>)"

definition InBounds :: "'a::linorder \<Rightarrow> 'a bounds \<Rightarrow> bool" where
  "InBounds v b \<longleftrightarrow> v \<ge> vb_lower b \<and> v \<le> vb_higher b"

definition bounds_ok :: "'a::linorder bounds \<Rightarrow> bool" where
  "bounds_ok b \<longleftrightarrow> vb_lower b \<le> vb_higher b"

lemma bounds_new_ok: "bounds_ok (bounds_new l h)"
  by (auto simp: bounds_ok_def bounds_new_def)

lemma bounds_set_ok:
  "bounds_ok b \<Longrightarrow> bounds_ok (SetLowerBound l b)"
  "bounds_ok b \<Longrightarrow> bounds_ok (SetHigherBound h b)"
  "bounds_ok (SetBounds l h b)"
  by (auto simp: bounds_ok_def SetLowerBound_def SetHigherBound_def SetBounds_def)

record 'a interval_set =
  iv_values :: "'a bounds"
  iv_inverted :: "'a bounds"
  iv_viceVersa :: bool

definition interval_random ::
  "('g \<Rightarrow> bool \<times> 'g) \<Rightarrow> ('a \<Rightarrow> 'a \<Rightarrow> 'g \<Rightarrow> ('a \<times> 'g) res) \<Rightarrow> 'a interval_set \<Rightarrow> 'g \<Rightarrow> ('a \<times> 'g) res" where
  "interval_random rb rg s g =
     (let (b, g1) = (if \<not> iv_viceVersa s then (True, g) else rb g);
          bs = (if b then iv_values s else iv_inverted s)
      in rg (vb_lower bs) (vb_higher bs) g1)"

definition interval_belongs :: "'a::linorder interval_set \<Rightarrow> 'a \<Rightarrow> bool" where
  "interval_belongs s v \<longleftrightarrow> InBounds v (iv_values s) \<or> (iv_viceVersa s \<and> InBounds v (iv_inverted s))"

definition interval_inverse :: "'a::linordered_idom interval_set \<Rightarrow> 'a \<Rightarrow> 'a option res" where
  "interval_inverse s v =
     (if InBounds v (iv_values s) \<or> (iv_viceVersa s \<and> InBounds v (iv_inverted s))
      then Inr (Some (vb_lower (iv_inverted s) + vb_higher (iv_values s) - v)) else Inr None)"

definition bounds_array :: "'a interval_set \<Rightarrow> 'a list" where
  "bounds_array s = [vb_lower (iv_values s), vb_higher (iv_values s),
                     vb_lower (iv_inverted s), vb_higher (iv_inverted s)]"

text \<open>The search from index \<open>i\<close> down to 0; both branches of each difference are the same.\<close>

fun bounds_search :: "'a::linordered_idom \<Rightarrow> 'a list \<Rightarrow> nat \<Rightarrow> nat \<Rightarrow> 'a \<Rightarrow> nat" where
  "bounds_search v bs i ret diff =
     (let d = v - bs ! i;
          (ret', diff') = (if d < diff then (i, d) else (ret, diff))
      in case i of 0 \<Rightarrow> ret' | Suc j \<Rightarrow> bounds_search v bs j ret' diff')"

definition interval_closest :: "'a::linordered_idom interval_set \<Rightarrow> 'a \<Rightarrow> 'a res" where
  "interval_closest s v =
     (if InBounds v (iv_values s) \<or> (iv_viceVersa s \<and> InBounds v (iv_inverted s)) then Inr v
      else let bs = bounds_array s; i = (if iv_viceVersa s then 2 else 0);
               ret = i + 1; diff = bs ! ret - v
           in Inr (bs ! bounds_search v bs i ret diff))"

definition interval_SetBounds :: "'a bounds \<Rightarrow> 'a bounds \<Rightarrow> 'a interval_set \<Rightarrow> 'a interval_set" where
  "interval_SetBounds originals inverted s = s\<lparr>iv_values := originals, iv_inverted := inverted\<rparr>"

definition SetValueBounds :: "'a bounds \<Rightarrow> 'a interval_set \<Rightarrow> 'a interval_set" where
  "SetValueBounds b s = s\<lparr>iv_values := b\<rparr>"

definition SetInvertedValueBounds :: "'a bounds \<Rightarrow> 'a interval_set \<Rightarrow> 'a interval_set" where
  "SetInvertedValueBounds b s = s\<lparr>iv_inverted := b\<rparr>"

definition range_law :: "('a::linorder \<Rightarrow> 'a \<Rightarrow> 'g \<Rightarrow> ('a \<times> 'g) res) \<Rightarrow> bool" where
  "range_law rg \<longleftrightarrow> (\<forall>lo hi g y g'. lo \<le> hi \<longrightarrow> rg lo hi g = Inr (y, g') \<longrightarrow> lo \<le> y \<and> y \<le> hi)"

definition interval_ok :: "'a::linorder interval_set \<Rightarrow> bool" where
  "interval_ok s \<longleftrightarrow> bounds_ok (iv_values s) \<and> bounds_ok (iv_inverted s)"

lemma bounds_search_index: "ret < 4 \<Longrightarrow> i < 4 \<Longrightarrow> bounds_search v bs i ret diff < 4"
  by (induction v bs i ret diff rule: bounds_search.induct)
    (subst bounds_search.simps, auto simp: Let_def split: nat.splits prod.splits if_splits)

declare bounds_search.simps [simp del]

lemma interval_closest_member:
  assumes "interval_ok s"
  shows "\<exists>y. interval_closest s v = Inr y \<and> interval_belongs s y"
proof (cases "interval_belongs s v")
  case True
  then show ?thesis by (simp add: interval_closest_def interval_belongs_def)
next
  case False
  have b: "InBounds (bounds_array s ! 0) (iv_values s)" "InBounds (bounds_array s ! 1) (iv_values s)"
      "InBounds (bounds_array s ! 2) (iv_inverted s)" "InBounds (bounds_array s ! 3) (iv_inverted s)"
    using assms by (simp_all add: bounds_array_def InBounds_def interval_ok_def bounds_ok_def)
  show ?thesis
  proof (cases "iv_viceVersa s")
    case True
    let ?k = "bounds_search v (bounds_array s) 2 3 (bounds_array s ! 3 - v)"
    have "?k < 4" by (rule bounds_search_index) auto
    then have "interval_belongs s (bounds_array s ! ?k)"
      using b True by (auto simp: interval_belongs_def less_Suc_eq numeral_eq_Suc)
    with True False show ?thesis by (simp add: interval_closest_def interval_belongs_def Let_def)
  next
    case nv: False
    let ?k = "bounds_search v (bounds_array s) 0 1 (bounds_array s ! 1 - v)"
    have "?k = 0 \<or> ?k = 1" by (simp add: bounds_search.simps Let_def)
    then have "interval_belongs s (bounds_array s ! ?k)"
      using b by (elim disjE) (simp_all only: interval_belongs_def simp_thms)
    with nv False show ?thesis by (simp add: interval_closest_def interval_belongs_def Let_def)
  qed
qed

text \<open>Without the way back the nearest bound is found.\<close>

lemma interval_closest_nearest:
  assumes "interval_ok s" and "\<not> iv_viceVersa s" and "interval_closest s v = Inr y" and "InBounds x (iv_values s)"
  shows "\<bar>v - y\<bar> \<le> \<bar>v - x\<bar>"
  using assms
  by (auto simp: interval_closest_def bounds_search.simps bounds_array_def InBounds_def interval_ok_def
      bounds_ok_def Let_def abs_if split: if_splits)

lemma interval_random_belongs:
  assumes "interval_ok s" and "range_law rg" and "interval_random rb rg s g = Inr (y, g')"
  shows "interval_belongs s y"
proof -
  have law: "rg lo hi h = Inr (y, g') \<Longrightarrow> lo \<le> hi \<Longrightarrow> lo \<le> y \<and> y \<le> hi" for lo hi h
    using assms(2) unfolding range_law_def by blast
  from assms(1,3) law show ?thesis
    by (fastforce simp: interval_random_def interval_belongs_def InBounds_def interval_ok_def bounds_ok_def
        Let_def split: prod.splits if_splits)
qed

lemma interval_inverse_member:
  "interval_inverse s x = Inr r \<Longrightarrow> (r \<noteq> None) = interval_belongs s x"
  by (auto simp: interval_inverse_def interval_belongs_def split: if_splits)

interpretation interval: value_set "interval_random rb rg" interval_inverse interval_belongs interval_closest
    "\<lambda>s. interval_ok s \<and> range_law rg" for rb rg
proof (unfold_locales, goal_cases)
  case (1 s g y g')
  then show ?case by (elim conjE) (rule interval_random_belongs)
next
  case (2 s x)
  then show ?case using interval_closest_member by blast
next
  case (3 s x r)
  show ?case by (rule interval_inverse_member [OF 3(2)])
qed

section \<open>Class \<open>GaCombinedValueSet\<close>\<close>

text \<open>
  The member sets are pointers \<open>'p\<close> that \<open>ops\<close> resolves to their virtual functions. Its
  \<open>ClosestValue\<close> calls a function without the argument it needs and cannot be instantiated.
\<close>

definition combined_random ::
  "('p \<Rightarrow> ('a, 'g) value_set_ops) \<Rightarrow> (int \<Rightarrow> 'g \<Rightarrow> (int \<times> 'g) res) \<Rightarrow> 'p list \<Rightarrow> 'g \<Rightarrow> ('a \<times> 'g) res" where
  "combined_random ops ri sets g =
     rbind (ri (int (length sets) - 1) g) (\<lambda>(k, g').
     rbind (vget sets k) (\<lambda>p. vs_random (ops p) g'))"

fun combined_inverse :: "('p \<Rightarrow> ('a, 'g) value_set_ops) \<Rightarrow> 'p list \<Rightarrow> 'a \<Rightarrow> 'a option res" where
  "combined_inverse ops [] v = Inr None"
| "combined_inverse ops (p # ps) v =
     rbind (vs_inverse (ops p) v) (\<lambda>r.
       case r of Some y \<Rightarrow> Inr (Some y) | None \<Rightarrow> combined_inverse ops ps v)"

fun combined_belongs :: "('p \<Rightarrow> ('a, 'g) value_set_ops) \<Rightarrow> 'p list \<Rightarrow> 'a \<Rightarrow> bool" where
  "combined_belongs ops [] v = False"
| "combined_belongs ops (p # ps) v = (if vs_belongs (ops p) v then True else combined_belongs ops ps v)"

definition combined_Add :: "'p \<Rightarrow> 'p list \<Rightarrow> 'p list" where
  "combined_Add p sets = sets @ [p]"

text \<open>\<open>Remove(set)\<close>: the loop's step expression is \<open>it\<close>, which does not move the iterator.\<close>

partial_function (option) combined_Remove_loop :: "'p \<Rightarrow> 'p list \<Rightarrow> nat \<Rightarrow> 'p list option" where
  "combined_Remove_loop p sets it =
     (if it = length sets then Some sets
      else if sets ! it = p then Some (erase_at it sets)
      else combined_Remove_loop p sets it)"

definition combined_Remove :: "'p \<Rightarrow> 'p list \<Rightarrow> 'p list option" where
  "combined_Remove p sets = combined_Remove_loop p sets 0"

text \<open>\<open>Remove(pos)\<close>: the counter moves, the iterator does not.\<close>

function combined_Remove_at_loop :: "int \<Rightarrow> 'p list \<Rightarrow> int \<Rightarrow> 'p list res" where
  "combined_Remove_at_loop pos sets i =
     (if sets = [] then Inr sets
      else if i = pos then Inr (erase_at 0 sets)
      else if i + 1 < 2 ^ 31 then combined_Remove_at_loop pos sets (i + 1)
      else Inl IntOverflow)"
  by pat_completeness auto
termination by (relation "measure (\<lambda>(pos, sets, i). nat (2 ^ 31 - i))") auto

declare combined_Remove_at_loop.simps [simp del]

definition combined_Remove_at :: "int \<Rightarrow> 'p list \<Rightarrow> 'p list res" where
  "combined_Remove_at pos sets = combined_Remove_at_loop pos sets 0"

definition combined_GetNumberOfSets :: "'p list \<Rightarrow> int" where
  "combined_GetNumberOfSets sets = int (length sets)"

definition combined_at :: "'p list \<Rightarrow> int \<Rightarrow> 'p res" where
  "combined_at sets pos = vget sets pos"

lemma combined_belongs_iff: "combined_belongs ops sets v \<longleftrightarrow> (\<exists>p \<in> set sets. vs_belongs (ops p) v)"
  by (induction sets) auto

lemma combined_inverse_member:
  assumes "\<forall>p \<in> set sets. lawful_set (ops p)" and "combined_inverse ops sets v = Inr r"
  shows "(r \<noteq> None) = combined_belongs ops sets v"
  using assms
proof (induction sets)
  case Nil
  then show ?case by simp
next
  case (Cons p ps)
  from Cons.prems(2) obtain q where q: "vs_inverse (ops p) v = Inr q"
      "(case q of Some y \<Rightarrow> Inr (Some y) | None \<Rightarrow> combined_inverse ops ps v) = Inr r"
    by (auto simp: rbind_eq_Inr)
  have "(q \<noteq> None) = vs_belongs (ops p) v"
    using Cons.prems(1) q(1) by (simp add: lawful_set_def)
  with q Cons show ?case by (cases q) auto
qed

lemma combined_random_belongs:
  assumes "\<forall>p \<in> set sets. lawful_set (ops p)" and "combined_random ops ri sets g = Inr (y, g')"
  shows "combined_belongs ops sets y"
proof -
  from assms(2) obtain k g1 where "0 \<le> k" "k < int (length sets)" "vs_random (ops (sets ! nat k)) g1 = Inr (y, g')"
    by (auto simp: combined_random_def rbind_eq_Inr vget_Inr_iff split: prod.splits)
  moreover from this have "sets ! nat k \<in> set sets" by (simp add: nat_less_iff)
  ultimately show ?thesis
    using assms(1) unfolding combined_belongs_iff lawful_set_def by blast
qed

text \<open>Removing a set returns exactly when it is the first one (or there is none).\<close>

lemma combined_Remove_loop_returns:
  assumes "combined_Remove_loop p sets it = Some r"
  shows "it = length sets \<or> sets ! it = p"
  by (rule combined_Remove_loop.raw_induct [OF _ assms, where P = "\<lambda>p sets it r. it = length sets \<or> sets ! it = p"])
    (auto split: if_splits)

lemma combined_Remove_iff:
  "combined_Remove p sets = (if sets = [] then Some [] else if hd sets = p then Some (tl sets) else None)"
proof (cases sets)
  case Nil
  then show ?thesis by (simp add: combined_Remove_def combined_Remove_loop.simps)
next
  case (Cons x xs)
  show ?thesis
  proof (cases "x = p")
    case True
    with Cons show ?thesis by (simp add: combined_Remove_def combined_Remove_loop.simps erase_at_def)
  next
    case False
    have "combined_Remove p sets \<noteq> Some r" for r
      using combined_Remove_loop_returns [of p sets 0 r] False Cons by (auto simp: combined_Remove_def)
    then have "combined_Remove p sets = None" by (cases "combined_Remove p sets") auto
    with False Cons show ?thesis by simp
  qed
qed

lemma combined_Remove_at_loop_eq:
  assumes "sets \<noteq> []" and "i \<le> pos" and "pos < 2 ^ 31"
  shows "combined_Remove_at_loop pos sets i = Inr (tl sets)"
  using assms
proof (induction "nat (pos - i)" arbitrary: i)
  case 0
  then have "i = pos" by simp
  with 0 show ?case
    by (simp add: combined_Remove_at_loop.simps [of pos sets pos] erase_at_def drop_Suc)
next
  case (Suc k)
  from Suc.hyps(2) have "i < pos" "k = nat (pos - (i + 1))" by auto
  with Suc.hyps(1) [of "i + 1"] Suc.prems show ?case
    by (simp add: combined_Remove_at_loop.simps [of pos sets i])
qed

section \<open>Class \<open>GaUnboundValueSet\<close>\<close>

definition unbound_random :: "('g \<Rightarrow> ('a \<times> 'g) res) \<Rightarrow> unit \<Rightarrow> 'g \<Rightarrow> ('a \<times> 'g) res" where
  "unbound_random r s g = r g"

definition unbound_inverse :: "unit \<Rightarrow> 'a::linordered_idom \<Rightarrow> 'a option res" where
  "unbound_inverse s v = Inr (Some (- v))"

definition unbound_belongs :: "unit \<Rightarrow> 'a \<Rightarrow> bool" where
  "unbound_belongs s v = True"

definition unbound_closest :: "unit \<Rightarrow> 'a \<Rightarrow> 'a res" where
  "unbound_closest s v = Inr v"

interpretation unbound: value_set "unbound_random r" unbound_inverse unbound_belongs unbound_closest "\<lambda>_. True"
  for r
  by unfold_locales (auto simp: unbound_inverse_def unbound_belongs_def unbound_closest_def)

section \<open>Properties\<close>

text \<open>
  Adding a pair keeps a multi-value set well formed: one array length, no value twice, and
  for a set that inverts both ways no inverted value twice and none equal to the value of
  another pair.
\<close>

theorem multi_Add_keeps_wf:
  assumes "multi_wf s" and "multi_Add original inverted s = (ok, s')"
  shows "multi_wf s' \<and> (ok \<longrightarrow> length (ms_values s') = Suc (length (ms_values s)) \<and> multi_belongs s' original)"
  using multi_Add_wf [OF assms] assms(2) by (auto simp: multi_Add_def multi_belongs_def split: if_splits)

theorem multi_Add_keeps_wf_witness:
  "multi_wf \<lparr>ms_values = [1, 2::int], ms_inverted = [5, 6], ms_viceVersa = True\<rparr>"
  using multi_Add_keeps_wf [of "\<lparr>ms_values = [1], ms_inverted = [5], ms_viceVersa = True\<rparr>" 2 "6::int" True
      "\<lparr>ms_values = [1, 2], ms_inverted = [5, 6], ms_viceVersa = True\<rparr>"]
  by (simp add: multi_wf_def multi_Add_def multi_belongs_def)

text \<open>
  In a well-formed set that inverts both ways, inverting is an involution: the inverse of
  the inverse of a member is the member.
\<close>

theorem multi_Inverse_involution:
  assumes "multi_wf s" and "ms_viceVersa s" and "multi_inverse s v = Inr (Some y)"
  shows "multi_inverse s y = Inr (Some v)"
  using assms(3) unfolding multi_inverse_iff [OF assms(1,2)] by blast

theorem multi_Inverse_involution_witness:
  "multi_inverse \<lparr>ms_values = [1, 2], ms_inverted = [5, 6::int], ms_viceVersa = True\<rparr> 6 = Inr (Some 2)"
  by (rule multi_Inverse_involution) (simp_all add: multi_wf_def multi_inverse_def less_Suc_eq nth_Cons')



text \<open>
  For a set that inverts both ways \<open>ClosestValue\<close> compares a distance with the candidate
  itself, and can return a value that is not the closest: of the values 0 and 5 it takes 0 as
  closest to 4.
\<close>

theorem multi_ClosestValue_viceVersa_wrong:
  "multi_closest \<lparr>ms_values = [0], ms_inverted = [5], ms_viceVersa = True\<rparr> (4 :: int) = Inr 0
   \<and> \<bar>4 - (5::int)\<bar> < \<bar>4 - 0\<bar>"
  by (simp add: multi_closest_def)

text \<open>
  The closest value of an interval set without the way back is the nearest point of its
  interval.
\<close>

theorem interval_ClosestValue_nearest:
  assumes "interval_ok s" and "\<not> iv_viceVersa s"
  shows "\<exists>y. interval_closest s v = Inr y \<and> InBounds y (iv_values s)
    \<and> (\<forall>x. InBounds x (iv_values s) \<longrightarrow> \<bar>v - y\<bar> \<le> \<bar>v - x\<bar>)"
  using interval_closest_member [OF assms(1), of v] interval_closest_nearest [OF assms, of v] assms(2)
  by (auto simp: interval_belongs_def)

theorem interval_ClosestValue_nearest_witness:
  "\<exists>y. interval_closest \<lparr>iv_values = \<lparr>vb_lower = 0, vb_higher = 10::int\<rparr>,
        iv_inverted = \<lparr>vb_lower = 100, vb_higher = 110\<rparr>, iv_viceVersa = False\<rparr> 40 = Inr y
    \<and> InBounds y \<lparr>vb_lower = 0, vb_higher = 10\<rparr>
    \<and> (\<forall>x. InBounds x \<lparr>vb_lower = 0, vb_higher = 10\<rparr> \<longrightarrow> \<bar>40 - y\<bar> \<le> \<bar>40 - x\<bar>)"
  using interval_ClosestValue_nearest [of "\<lparr>iv_values = \<lparr>vb_lower = 0, vb_higher = 10::int\<rparr>,
        iv_inverted = \<lparr>vb_lower = 100, vb_higher = 110\<rparr>, iv_viceVersa = False\<rparr>" 40]
  by (simp add: interval_ok_def bounds_ok_def)

text \<open>
  C40. \<open>GaCombinedValueSet::Remove\<close> returns only when the set to remove is the first one or
  there are no sets: its loop does not advance the iterator, so for any other set it runs
  forever.
\<close>

theorem combined_Remove_returns:
  "combined_Remove p sets =
     (if sets = [] then Some [] else if hd sets = p then Some (tl sets) else None)"
  by (rule combined_Remove_iff)

text \<open>
  \<open>GaCombinedValueSet::Remove\<close> at a position removes the first set, whatever the position.
\<close>

theorem combined_Remove_at_removes_first:
  assumes "sets \<noteq> []" and "0 \<le> pos" and "pos < 2 ^ 31"
  shows "combined_Remove_at pos sets = Inr (tl sets)"
  unfolding combined_Remove_at_def by (rule combined_Remove_at_loop_eq [OF assms])

theorem combined_Remove_at_removes_first_witness:
  "combined_Remove_at 2 [CHR ''a'', CHR ''b'', CHR ''c''] = Inr [CHR ''b'', CHR ''c'']"
  using combined_Remove_at_removes_first [of "[CHR ''a'', CHR ''b'', CHR ''c'']" 2] by simp

end
