(* ===== verification/Chromosomes.thy ===== *)
theory Chromosomes
  imports CFloat "HOL-Library.Word"
begin

text \<open>
  \<open>TSP/inc/Chromosome.h\<close>, \<open>TSP/inc/FitnessComparators.h\<close> and \<open>TSP/inc/SortedGroupType.h\<close>: the
  parameters of a chromosome, the configuration block it shares with the other chromosomes of
  a population, the base class of all chromosomes, and the wrapper a population keeps around
  each of them. Blocks are shared by pointer, so they live in a store of addresses.
\<close>

unbundle bit_operations_syntax

section \<open>Class \<open>GaChromosomeParams\<close>\<close>

record GaChromosomeParams =
  mutationProbability :: cnum
  mutationSize :: int
  improvingOnlyMutations :: bool
  crossoverProbability :: cnum
  numberOfCrossoverPoints :: int

text \<open>The literals \<open>0.03f\<close> and \<open>0.8f\<close> are the nearest single-precision numbers.\<close>

definition GaChromosomeParams_default :: GaChromosomeParams where
  "GaChromosomeParams_default =
     \<lparr>mutationProbability = round32 (3 / 100), mutationSize = 1, improvingOnlyMutations = True,
      crossoverProbability = round32 (8 / 10), numberOfCrossoverPoints = 1\<rparr>"

definition SetMutationProbability :: "cnum \<Rightarrow> GaChromosomeParams \<Rightarrow> GaChromosomeParams" where
  "SetMutationProbability probability p = p\<lparr>mutationProbability := probability\<rparr>"

definition SetMutationSize :: "int \<Rightarrow> GaChromosomeParams \<Rightarrow> GaChromosomeParams" where
  "SetMutationSize n p = p\<lparr>mutationSize := n\<rparr>"

definition SetImprovingMutationsFlag :: "bool \<Rightarrow> GaChromosomeParams \<Rightarrow> GaChromosomeParams" where
  "SetImprovingMutationsFlag improvingOnly p = p\<lparr>improvingOnlyMutations := improvingOnly\<rparr>"

definition SetCrossoverProbability :: "cnum \<Rightarrow> GaChromosomeParams \<Rightarrow> GaChromosomeParams" where
  "SetCrossoverProbability probability p = p\<lparr>crossoverProbability := probability\<rparr>"

definition SetNumberOfCrossoverPoints :: "int \<Rightarrow> GaChromosomeParams \<Rightarrow> GaChromosomeParams" where
  "SetNumberOfCrossoverPoints n p = p\<lparr>numberOfCrossoverPoints := n\<rparr>"

section \<open>Classes \<open>GaChromosomeParamsBlock\<close> and \<open>GaChromosomeOperationsBlock\<close>\<close>

text \<open>\<open>'op\<close> stands for the addresses of operations; \<open>None\<close> is \<open>NULL\<close>.\<close>

record params_block =
  pb_parameters :: "GaChromosomeParams option"

record 'op operations_block = params_block +
  ob_fitness :: "'op option"
  ob_comparator :: "'op option"
  ob_mutation :: "'op option"
  ob_crossover :: "'op option"

definition operations_block_new ::
  "'op option \<Rightarrow> 'op option \<Rightarrow> 'op option \<Rightarrow> 'op option \<Rightarrow> GaChromosomeParams option \<Rightarrow> 'op operations_block" where
  "operations_block_new crossover mutation fitness comparator params =
     \<lparr>pb_parameters = params, ob_fitness = fitness, ob_comparator = comparator,
      ob_mutation = mutation, ob_crossover = crossover\<rparr>"

definition operations_block_empty :: "'op operations_block" where
  "operations_block_empty = operations_block_new None None None None None"

definition SetCrossoverOperation :: "'op option \<Rightarrow> ('op, 'm) operations_block_scheme \<Rightarrow> ('op, 'm) operations_block_scheme" where
  "SetCrossoverOperation p b = b\<lparr>ob_crossover := p\<rparr>"

definition SetMutationOperation :: "'op option \<Rightarrow> ('op, 'm) operations_block_scheme \<Rightarrow> ('op, 'm) operations_block_scheme" where
  "SetMutationOperation p b = b\<lparr>ob_mutation := p\<rparr>"

definition SetFitnessOperation :: "'op option \<Rightarrow> ('op, 'm) operations_block_scheme \<Rightarrow> ('op, 'm) operations_block_scheme" where
  "SetFitnessOperation p b = b\<lparr>ob_fitness := p\<rparr>"

definition SetFitnessComparator :: "'op option \<Rightarrow> ('op, 'm) operations_block_scheme \<Rightarrow> ('op, 'm) operations_block_scheme" where
  "SetFitnessComparator p b = b\<lparr>ob_comparator := p\<rparr>"

text \<open>The getters return \<open>*_xOperation\<close>, a reference made from the stored pointer.\<close>

definition deref_op :: "'op option \<Rightarrow> 'op res" where
  "deref_op p = (case p of None \<Rightarrow> Inl NullDeref | Some x \<Rightarrow> Inr x)"

definition GetCrossoverOperation :: "('op, 'm) operations_block_scheme \<Rightarrow> 'op res" where
  "GetCrossoverOperation b = deref_op (ob_crossover b)"

definition GetMutationOperation :: "('op, 'm) operations_block_scheme \<Rightarrow> 'op res" where
  "GetMutationOperation b = deref_op (ob_mutation b)"

definition GetFitnessOperation :: "('op, 'm) operations_block_scheme \<Rightarrow> 'op res" where
  "GetFitnessOperation b = deref_op (ob_fitness b)"

definition GetFitnessComparator :: "('op, 'm) operations_block_scheme \<Rightarrow> 'op res" where
  "GetFitnessComparator b = deref_op (ob_comparator b)"

section \<open>Class \<open>GaDefaultChromosome\<close>\<close>

text \<open>The fitness is indeterminate (\<open>None\<close>) in a copy made with \<open>setupOnly\<close>.\<close>

record default_chromosome =
  dc_fitness :: "cnum option"
  dc_configBlock :: nat

type_synonym 'op block_store = "nat \<rightharpoonup> 'op operations_block"

definition default_new :: "nat \<Rightarrow> default_chromosome" where
  "default_new block = \<lparr>dc_fitness = Some (Num 0), dc_configBlock = block\<rparr>"

definition default_copy :: "default_chromosome \<Rightarrow> bool \<Rightarrow> default_chromosome" where
  "default_copy c setupOnly =
     \<lparr>dc_fitness = (if setupOnly then None else dc_fitness c), dc_configBlock = dc_configBlock c\<rparr>"

definition default_GetFitness :: "'m default_chromosome_scheme \<Rightarrow> cnum res" where
  "default_GetFitness c = (case dc_fitness c of None \<Rightarrow> Inl Uninit | Some f \<Rightarrow> Inr f)"

text \<open>\<open>CalculateFitness\<close> is the argument \<open>calc\<close>.\<close>

definition default_RefreshFitness ::
  "('m default_chromosome_scheme \<Rightarrow> cnum res) \<Rightarrow> 'm default_chromosome_scheme \<Rightarrow> 'm default_chromosome_scheme res" where
  "default_RefreshFitness calc c = rbind (calc c) (\<lambda>f. Inr (c\<lparr>dc_fitness := Some f\<rparr>))"

definition default_GetParameters ::
  "'op block_store \<Rightarrow> 'm default_chromosome_scheme \<Rightarrow> GaChromosomeParams res" where
  "default_GetParameters st c =
     (case st (dc_configBlock c) of
        None \<Rightarrow> Inl Dangling
      | Some b \<Rightarrow> (case pb_parameters b of None \<Rightarrow> Inl NullDeref | Some p \<Rightarrow> Inr p))"

definition default_SetParameters ::
  "GaChromosomeParams option \<Rightarrow> 'op block_store \<Rightarrow> 'm default_chromosome_scheme \<Rightarrow> 'op block_store res" where
  "default_SetParameters p st c =
     (case st (dc_configBlock c) of
        None \<Rightarrow> Inl Dangling
      | Some b \<Rightarrow> Inr (st(dc_configBlock c \<mapsto> b\<lparr>pb_parameters := p\<rparr>)))"

definition default_SetConfigBlock ::
  "nat \<Rightarrow> 'm default_chromosome_scheme \<Rightarrow> 'm default_chromosome_scheme" where
  "default_SetConfigBlock block c = c\<lparr>dc_configBlock := block\<rparr>"

definition default_assign ::
  "'m default_chromosome_scheme \<Rightarrow> 'm default_chromosome_scheme \<Rightarrow> 'm default_chromosome_scheme" where
  "default_assign c rhs = c\<lparr>dc_fitness := dc_fitness rhs, dc_configBlock := dc_configBlock rhs\<rparr>"

definition default_CompareFitnesses ::
  "(cnum \<Rightarrow> int res) \<Rightarrow> 'm default_chromosome_scheme \<Rightarrow> int res" where
  "default_CompareFitnesses cmp c = rbind (default_GetFitness c) cmp"

text \<open>
  Chromosomes that share a block share its parameters: what one sets, every other one reads,
  and chromosomes of other blocks are not affected.
\<close>

lemma SetParameters_shared:
  assumes "default_SetParameters (Some p) st c = Inr st'" and "dc_configBlock d = dc_configBlock c"
  shows "default_GetParameters st' d = Inr p"
  using assms by (auto simp: default_SetParameters_def default_GetParameters_def split: option.splits)

lemma SetParameters_other:
  assumes "default_SetParameters p st c = Inr st'" and "dc_configBlock d \<noteq> dc_configBlock c"
  shows "default_GetParameters st' d = default_GetParameters st d"
  using assms by (auto simp: default_SetParameters_def default_GetParameters_def split: option.splits)

section \<open>Fitness comparators\<close>

text \<open>\<open>(int)( a < b ) - (int)( a > b )\<close>: 0 also when either number is not a number.\<close>

definition GaMinFitnessComparator :: "cnum \<Rightarrow> cnum \<Rightarrow> int" where
  "GaMinFitnessComparator f1 f2 = of_bool (flt f1 f2) - of_bool (flt f2 f1)"

definition GaMaxFitnessComparator :: "cnum \<Rightarrow> cnum \<Rightarrow> int" where
  "GaMaxFitnessComparator f1 f2 = of_bool (flt f2 f1) - of_bool (flt f1 f2)"

text \<open>
  What sorting relies on: the sign of the result is a strict weak order on the numbers, 0
  means neither is better, and swapping the arguments negates the result.
\<close>

locale comparator =
  fixes cmp :: "cnum \<Rightarrow> cnum \<Rightarrow> int"
  assumes cmp_antisym: "cmp x y = - cmp y x"
    and cmp_range: "cmp x y \<in> {- 1, 0, 1}"
    and cmp_trans: "cmp x y = 1 \<Longrightarrow> cmp y z = 1 \<Longrightarrow> cmp x z = 1"
    and cmp_equal: "x \<noteq> FNan \<Longrightarrow> y \<noteq> FNan \<Longrightarrow> cmp x y = 0 \<Longrightarrow> x = y"
begin

lemma cmp_refl [simp]: "cmp x x = 0"
  using cmp_antisym [of x x] by simp

lemma cmp_cases:
  assumes "x \<noteq> FNan" and "y \<noteq> FNan"
  obtains "cmp x y = 1" | "x = y" | "cmp y x = 1"
  using assms cmp_range [of x y] cmp_equal [of x y] cmp_antisym [of x y] by fastforce

text \<open>A list has a member no other member beats.\<close>

lemma best_exists:
  assumes "xs \<noteq> []" and "\<forall>x \<in> set xs. x \<noteq> FNan"
  shows "\<exists>b \<in> set xs. \<forall>x \<in> set xs. cmp x b \<noteq> 1"
  using assms
proof (induction xs rule: list_nonempty_induct)
  case (single x)
  then show ?case by simp
next
  case (cons x xs)
  then obtain b where b: "b \<in> set xs" "\<forall>y \<in> set xs. cmp y b \<noteq> 1" by auto
  show ?case
  proof (cases "cmp x b = 1")
    case True
    have "cmp y x \<noteq> 1" if "y \<in> set xs" for y
      using b(2) that True cmp_trans [of y x b] by blast
    then show ?thesis by auto
  next
    case False
    with b show ?thesis by auto
  qed
qed

end

interpretation min_cmp: comparator GaMinFitnessComparator
proof unfold_locales
  fix x y z
  show "GaMinFitnessComparator x y = - GaMinFitnessComparator y x"
    by (simp add: GaMinFitnessComparator_def)
  show "GaMinFitnessComparator x y \<in> {- 1, 0, 1}"
    by (simp add: GaMinFitnessComparator_def)
  show "GaMinFitnessComparator x y = 1 \<Longrightarrow> GaMinFitnessComparator y z = 1 \<Longrightarrow> GaMinFitnessComparator x z = 1"
    using flt_trans [of x y z] flt_asym [of x z]
    by (auto simp: GaMinFitnessComparator_def of_bool_def split: if_splits)
  show "x \<noteq> FNan \<Longrightarrow> y \<noteq> FNan \<Longrightarrow> GaMinFitnessComparator x y = 0 \<Longrightarrow> x = y"
    using flt_not_total [of x y] flt_asym [of x y]
    by (auto simp: GaMinFitnessComparator_def of_bool_def split: if_splits)
qed

lemma Max_is_Min_swapped: "GaMaxFitnessComparator x y = GaMinFitnessComparator y x"
  by (simp add: GaMaxFitnessComparator_def GaMinFitnessComparator_def)

interpretation max_cmp: comparator GaMaxFitnessComparator
  by unfold_locales
    (metis Max_is_Min_swapped min_cmp.cmp_antisym, metis Max_is_Min_swapped min_cmp.cmp_range,
     metis Max_is_Min_swapped min_cmp.cmp_trans, metis Max_is_Min_swapped min_cmp.cmp_equal)

section \<open>Class \<open>GaScaledChromosome\<close>\<close>

text \<open>Group membership is a set of flag bits; \<open>'c\<close> is the type of chromosome pointers.\<close>

type_synonym group_flags = "32 word"

definition GASGT_NONE :: group_flags where "GASGT_NONE = 0"
definition GASGT_BEST :: group_flags where "GASGT_BEST = 1"
definition GASGT_WORST :: group_flags where "GASGT_WORST = 2"
definition GASGT_OTHER :: group_flags where "GASGT_OTHER = 4"

record 'c scaled_chromosome =
  sc_scaledFitness :: cnum
  sc_chromosome :: 'c
  sc_groups :: group_flags
  sc_index :: int

definition SetScaledFitness :: "cnum \<Rightarrow> 'c scaled_chromosome \<Rightarrow> 'c scaled_chromosome" where
  "SetScaledFitness fitness c = c\<lparr>sc_scaledFitness := fitness\<rparr>"

text \<open>\<open>Rescale\<close> belongs to the compiled library and is the argument.\<close>

definition SetChromosome ::
  "('c scaled_chromosome \<Rightarrow> 'c scaled_chromosome) \<Rightarrow> 'c \<Rightarrow> 'c scaled_chromosome \<Rightarrow> 'c scaled_chromosome" where
  "SetChromosome Rescale ch c = Rescale (c\<lparr>sc_chromosome := ch\<rparr>)"

definition ClearGroupFlags :: "group_flags \<Rightarrow> 'c scaled_chromosome \<Rightarrow> 'c scaled_chromosome" where
  "ClearGroupFlags groups c = c\<lparr>sc_groups := sc_groups c AND NOT groups\<rparr>"

definition SetGroupFlags :: "group_flags \<Rightarrow> 'c scaled_chromosome \<Rightarrow> 'c scaled_chromosome" where
  "SetGroupFlags groups c = c\<lparr>sc_groups := sc_groups c OR groups\<rparr>"

definition GetGroupFlag :: "group_flags \<Rightarrow> bool \<Rightarrow> 'c scaled_chromosome \<Rightarrow> bool" where
  "GetGroupFlag groups all c \<longleftrightarrow>
     (if all then sc_groups c AND groups = groups else sc_groups c AND groups \<noteq> 0)"

definition SetGroups :: "group_flags \<Rightarrow> 'c scaled_chromosome \<Rightarrow> 'c scaled_chromosome" where
  "SetGroups groups c = c\<lparr>sc_groups := groups\<rparr>"

lemma flag_word_simps:
  fixes a g h :: group_flags
  shows "(a OR g) AND g = g"
    and "(a AND NOT g) AND g = 0"
    and "g AND h = 0 \<Longrightarrow> (a AND NOT g) AND h = a AND h"
    and "g AND h = 0 \<Longrightarrow> (a OR g) AND h = a AND h"
  by (auto simp: bit_eq_iff bit_simps)

lemma group_flags_set: "GetGroupFlag g True (SetGroupFlags g c)"
  by (simp add: GetGroupFlag_def SetGroupFlags_def flag_word_simps)

lemma group_flags_clear: "\<not> GetGroupFlag g False (ClearGroupFlags g c)"
  by (simp add: GetGroupFlag_def ClearGroupFlags_def flag_word_simps)

lemma group_flags_independent:
  assumes "g AND h = 0"
  shows "GetGroupFlag h all (SetGroupFlags g c) = GetGroupFlag h all c"
    and "GetGroupFlag h all (ClearGroupFlags g c) = GetGroupFlag h all c"
  using assms
  by (simp_all add: GetGroupFlag_def SetGroupFlags_def ClearGroupFlags_def flag_word_simps)

end
