(* ===== verification/MultiValue.thy ===== *)
theory MultiValue
  imports Chromosomes ValueSets
begin

text \<open>
  \<open>TSP/inc/DomainChromosome.h\<close>, \<open>TSP/inc/MultiValueChromosome.h\<close> and the code buffer of
  \<open>TSP/inc/RepresentationInterfaces.h\<close>: chromosomes whose code is a vector of values drawn from
  value sets. An operation on the code is a function of the vector; the ones that ask a value
  set take the block \<open>_configBlock\<close> points to.
\<close>

section \<open>Class \<open>GaChromosomeDomainBlock\<close>\<close>

text \<open>The pointers to value sets, \<open>None\<close> for \<open>NULL\<close>.\<close>

record ('op, 'a, 'g) domain_block = "'op operations_block" +
  db_domains :: "('a, 'g) value_set_ops option list"

definition domain_block_single ::
  "('a, 'g) value_set_ops option \<Rightarrow> 'op operations_block \<Rightarrow> ('op, 'a, 'g) domain_block" where
  "domain_block_single domain base =
     operations_block.extend base \<lparr>db_domains = [domain]\<rparr>"

text \<open>With several domains the loop reads \<open>domains[i]\<close> from the last index to the first.\<close>

definition domain_block_array ::
  "('a, 'g) value_set_ops option list option \<Rightarrow> int \<Rightarrow> 'op operations_block \<Rightarrow> ('op, 'a, 'g) domain_block res" where
  "domain_block_array domains domainCount base =
     (if domainCount < 0 then Inl BadAlloc
      else rbind (rmap (\<lambda>i. case domains of None \<Rightarrow> Inl NullDeref | Some ds \<Rightarrow> vget ds i) [0..domainCount - 1])
        (\<lambda>ds. Inr (operations_block.extend base \<lparr>db_domains = ds\<rparr>)))"

text \<open>\<open>pos % _domains.size()\<close>: \<open>pos\<close> converts to an unsigned 64-bit number first.\<close>

definition domain_index :: "int \<Rightarrow> 'd list \<Rightarrow> nat" where
  "domain_index pos ds = nat ((pos mod 2 ^ 64) mod int (length ds))"

definition GetValueSet :: "('op, 'a, 'g) domain_block \<Rightarrow> int \<Rightarrow> ('a, 'g) value_set_ops option" where
  "GetValueSet B pos =
     (if db_domains B \<noteq> [] then db_domains B ! domain_index pos (db_domains B) else None)"

definition SetValueSet ::
  "('a, 'g) value_set_ops option \<Rightarrow> int \<Rightarrow> ('op, 'a, 'g) domain_block \<Rightarrow> ('op, 'a, 'g) domain_block" where
  "SetValueSet domain pos B =
     (if 0 < length (db_domains B)
      then B\<lparr>db_domains := (db_domains B)[domain_index pos (db_domains B) := domain]\<rparr> else B)"

definition GetValueSetCount :: "('op, 'a, 'g) domain_block \<Rightarrow> int" where
  "GetValueSetCount B = int (length (db_domains B))"

definition GetClosestValue :: "('op, 'a, 'g) domain_block \<Rightarrow> 'a \<Rightarrow> int \<Rightarrow> 'a res" where
  "GetClosestValue B v pos =
     (case GetValueSet B pos of None \<Rightarrow> Inr v | Some d \<Rightarrow> vs_closest d v)"

text \<open>\<open>GetValueSet(pos)->GenerateRandom()\<close>.\<close>

definition random_at :: "('op, 'a, 'g) domain_block \<Rightarrow> int \<Rightarrow> 'g \<Rightarrow> ('a \<times> 'g) res" where
  "random_at B pos g = (case GetValueSet B pos of None \<Rightarrow> Inl NullDeref | Some d \<Rightarrow> vs_random d g)"

text \<open>\<open>GetValueSet(pos)->Inverse( v, v )\<close>: the value is replaced when the set inverts it.\<close>

definition inverse_at :: "('op, 'a, 'g) domain_block \<Rightarrow> int \<Rightarrow> 'a \<Rightarrow> 'a res" where
  "inverse_at B pos v =
     (case GetValueSet B pos of
        None \<Rightarrow> Inl NullDeref
      | Some d \<Rightarrow> rbind (vs_inverse d v) (\<lambda>r. Inr (case r of None \<Rightarrow> v | Some y \<Rightarrow> y)))"

lemma domain_index_less: "ds \<noteq> [] \<Longrightarrow> domain_index pos ds < length ds"
  by (simp add: domain_index_def nat_less_iff)

text \<open>A block without domains adjusts nothing; one whose domains are lawful adjusts to members.\<close>

definition lawful_block :: "('op, 'a, 'g) domain_block \<Rightarrow> bool" where
  "lawful_block B \<longleftrightarrow> (\<forall>d. Some d \<in> set (db_domains B) \<longrightarrow> lawful_set d)"

definition in_domain :: "('op, 'a, 'g) domain_block \<Rightarrow> int \<Rightarrow> 'a \<Rightarrow> bool" where
  "in_domain B pos v = (case GetValueSet B pos of None \<Rightarrow> True | Some d \<Rightarrow> vs_belongs d v)"

lemma GetClosestValue_no_domains [simp]: "db_domains B = [] \<Longrightarrow> GetClosestValue B v pos = Inr v"
  by (simp add: GetClosestValue_def GetValueSet_def)

lemma GetValueSet_lawful: "lawful_block B \<Longrightarrow> GetValueSet B pos = Some d \<Longrightarrow> lawful_set d"
  by (metis GetValueSet_def domain_index_less lawful_block_def nth_mem option.discI)

lemma GetClosestValue_in_domain:
  assumes "lawful_block B"
  shows "\<exists>y. GetClosestValue B v pos = Inr y \<and> in_domain B pos y"
proof (cases "GetValueSet B pos")
  case None
  then show ?thesis by (simp add: GetClosestValue_def in_domain_def)
next
  case (Some d)
  with GetValueSet_lawful [OF assms Some] show ?thesis
    by (simp add: GetClosestValue_def in_domain_def lawful_set_def)
qed

lemma random_at_in_domain:
  assumes "lawful_block B" and "random_at B pos g = Inr (v, g')"
  shows "in_domain B pos v"
proof (cases "GetValueSet B pos")
  case None
  with assms(2) show ?thesis by (simp add: random_at_def)
next
  case (Some d)
  with GetValueSet_lawful [OF assms(1) Some] assms(2) show ?thesis
    by (simp add: random_at_def in_domain_def lawful_set_def) blast
qed

section \<open>Class \<open>GaMultiValueChromosome\<close>: the code\<close>

record 'a multi_value = default_chromosome +
  mv_values :: "'a list"
  mv_backup :: "'a list"

definition mv_Remove :: "int \<Rightarrow> int \<Rightarrow> 'a list \<Rightarrow> 'a list res" where
  "mv_Remove start n vs =
     (if 0 < n \<and> 0 \<le> start \<and> start < int (length vs)
      then rbind (chk (start + n)) (\<lambda>e.
           rbind (vrange vs 0 start) (\<lambda>front.
           rbind (vrange vs start e) (\<lambda>_.
           rbind (vrange vs e (int (length vs))) (\<lambda>back. Inr (front @ back)))))
      else Inr vs)"

text \<open>\<open>data\<close> is an array of \<open>GaChromosomeValue\<close> objects, given by their values.\<close>

definition mv_Insert ::
  "('op, 'a, 'g) domain_block \<Rightarrow> int \<Rightarrow> 'a list option \<Rightarrow> int \<Rightarrow> 'a list \<Rightarrow> 'a list res" where
  "mv_Insert B start data n vs =
     (case data of
        None \<Rightarrow> Inr vs
      | Some ds \<Rightarrow>
          if n \<le> 0 \<or> start < 0 \<or> int (length vs) < start then Inr vs
          else rbind (rmap (\<lambda>i. rbind (vget ds i) (\<lambda>v. GetClosestValue B v i)) [0..n - 1]) (\<lambda>new.
            if start = int (length vs) then Inr (vs @ new)
            else Inr (take (nat start) vs @ new @ drop (nat start) vs)))"

text \<open>The swap reorders its two parts by position and moves an overlapping second part.\<close>

definition mv_Swap :: "int \<Rightarrow> int \<Rightarrow> int \<Rightarrow> int \<Rightarrow> 'a list \<Rightarrow> 'a list res" where
  "mv_Swap start1 size1 start2 size2 vs =
     (if start1 < 0 \<or> int (length vs) \<le> start1 \<or> start2 < 0 \<or> int (length vs) \<le> start2
         \<or> size1 \<le> 0 \<or> size2 \<le> 0 \<or> vs = [] \<or> start1 = start2
      then Inr vs
      else
        let (a, m, b, n) = (if start2 < start1 then (start2, size2, start1, size1)
                            else (start1, size1, start2, size2))
        in rbind (chk (a + m)) (\<lambda>am.
           let (b', n') = (if am \<ge> b then (am, n - (am - b)) else (b, n))
           in rbind (chk (b' + n')) (\<lambda>bn.
              rbind (vrange vs 0 a) (\<lambda>p0.
              rbind (vrange vs b' bn) (\<lambda>p1.
              rbind (vrange vs am b') (\<lambda>p2.
              rbind (vrange vs a am) (\<lambda>p3.
              rbind (vrange vs bn (int (length vs))) (\<lambda>p4.
                Inr (p0 @ p1 @ p2 @ p3 @ p4)))))))))"

text \<open>One step of the loops of \<open>Flip\<close> and \<open>Invert\<close>: the value set is the one of \<open>i\<close>.\<close>

definition flip_step ::
  "('op, 'a, 'g) domain_block \<Rightarrow> int \<Rightarrow> int \<Rightarrow> 'a list \<times> 'g \<Rightarrow> ('a list \<times> 'g) res" where
  "flip_step B start i s =
     (let (vs, g) = s in
      rbind (random_at B i g) (\<lambda>(v, g').
      rbind (vset vs (start + i) v) (\<lambda>vs'. Inr (vs', g'))))"

definition mv_Flip ::
  "('op, 'a, 'g) domain_block \<Rightarrow> int \<Rightarrow> int \<Rightarrow> 'a list \<Rightarrow> 'g \<Rightarrow> ('a list \<times> 'g) res" where
  "mv_Flip B start n vs g =
     (if n \<le> 0 \<or> start < 0 \<or> int (length vs) \<le> start then Inr (vs, g)
      else rfold (flip_step B start) [0..n - 1] (vs, g))"

definition invert_step :: "('op, 'a, 'g) domain_block \<Rightarrow> int \<Rightarrow> int \<Rightarrow> 'a list \<Rightarrow> 'a list res" where
  "invert_step B start i vs =
     rbind (vget vs (start + i)) (\<lambda>v. rbind (inverse_at B i v) (vset vs (start + i)))"

definition mv_Invert :: "('op, 'a, 'g) domain_block \<Rightarrow> int \<Rightarrow> int \<Rightarrow> 'a list \<Rightarrow> 'a list res" where
  "mv_Invert B start n vs =
     (if n \<le> 0 \<or> start < 0 \<or> int (length vs) \<le> start then Inr vs
      else rfold (invert_step B start) [0..n - 1] vs)"

section \<open>Construction, copies and comparison\<close>

definition mv_new :: "nat \<Rightarrow> 'a multi_value" where
  "mv_new block = default_chromosome.extend (default_new block) \<lparr>mv_values = [], mv_backup = []\<rparr>"

text \<open>The constructors with a code size, and the drawing of \<open>MakeNewFromPrototype\<close>.\<close>

fun draw_code :: "('op, 'a, 'g) domain_block \<Rightarrow> int list \<Rightarrow> 'g \<Rightarrow> ('a list \<times> 'g) res" where
  "draw_code B [] g = Inr ([], g)"
| "draw_code B (i # is) g =
     rbind (random_at B i g) (\<lambda>(v, g1).
     rbind (draw_code B is g1) (\<lambda>(vs, g2). Inr (v # vs, g2)))"

text \<open>\<open>reserve\<close> with a negative size throws.\<close>

definition mv_new_random ::
  "('op, 'a, 'g) domain_block \<Rightarrow> nat \<Rightarrow> int \<Rightarrow> 'g \<Rightarrow> ('a multi_value \<times> 'g) res" where
  "mv_new_random B block n g =
     (if n < 0 then Inl BadAlloc
      else rbind (draw_code B [0..n - 1] g) (\<lambda>(vs, g'). Inr ((mv_new block)\<lparr>mv_values := vs\<rparr>, g')))"

definition mv_copy :: "'a multi_value \<Rightarrow> bool \<Rightarrow> 'a multi_value" where
  "mv_copy c setupOnly =
     default_chromosome.extend (default_copy (default_chromosome.truncate c) setupOnly)
       \<lparr>mv_values = (if setupOnly then [] else mv_values c), mv_backup = []\<rparr>"

definition mv_MakeNewFromPrototype ::
  "('op, 'a, 'g) domain_block \<Rightarrow> 'a multi_value \<Rightarrow> 'g \<Rightarrow> ('a multi_value \<times> 'g) res" where
  "mv_MakeNewFromPrototype B c g =
     (let new = mv_copy c True in
      if mv_values c \<noteq> []
      then rbind (draw_code B [0..int (length (mv_values c)) - 1] g)
             (\<lambda>(vs, g'). Inr (new\<lparr>mv_values := vs\<rparr>, g'))
      else Inr (new, g))"

definition mv_GetCodeSize :: "'a multi_value \<Rightarrow> int" where
  "mv_GetCodeSize c = int (length (mv_values c))"

definition mv_GetAt :: "int \<Rightarrow> 'a multi_value \<Rightarrow> 'a res" where
  "mv_GetAt pos c = vget (mv_values c) pos"

definition mv_SetAt ::
  "('op, 'a, 'g) domain_block \<Rightarrow> 'a \<Rightarrow> int \<Rightarrow> 'a multi_value \<Rightarrow> 'a multi_value res" where
  "mv_SetAt B v pos c =
     rbind (GetClosestValue B v pos) (\<lambda>y.
     rbind (vset (mv_values c) pos y) (\<lambda>vs. Inr (c\<lparr>mv_values := vs\<rparr>)))"

definition mv_assign :: "'a multi_value \<Rightarrow> 'a multi_value \<Rightarrow> 'a multi_value" where
  "mv_assign c rhs = default_assign (c\<lparr>mv_values := mv_values rhs\<rparr>) rhs"

text \<open>The comparison scans from the last index to the first.\<close>

fun equal_below :: "nat \<Rightarrow> 'a list \<Rightarrow> 'a list \<Rightarrow> bool" where
  "equal_below 0 xs ys = True"
| "equal_below (Suc i) xs ys = (if ys ! i \<noteq> xs ! i then False else equal_below i xs ys)"

definition mv_equal :: "'a multi_value \<Rightarrow> 'a multi_value \<Rightarrow> bool" where
  "mv_equal c d =
     (if length (mv_values d) \<noteq> length (mv_values c) then False
      else equal_below (length (mv_values c)) (mv_values c) (mv_values d))"

definition PreapareForMutation :: "'a multi_value \<Rightarrow> 'a multi_value" where
  "PreapareForMutation c = c\<lparr>mv_backup := mv_values c @ mv_backup c\<rparr>"

definition AcceptMutation :: "'a multi_value \<Rightarrow> 'a multi_value" where
  "AcceptMutation c = c\<lparr>mv_backup := []\<rparr>"

definition RejectMutation :: "'a multi_value \<Rightarrow> 'a multi_value" where
  "RejectMutation c = c\<lparr>mv_values := mv_backup c, mv_backup := []\<rparr>"

section \<open>Code buffers\<close>

text \<open>
  A buffer of \<open>cb_size\<close> bytes, seen as cells of \<open>k = sizeof( TYPE )\<close> bytes; a cell not yet
  written is \<open>None\<close>. The position counts bytes.
\<close>

record 'a code_buffer =
  cb_cells :: "'a option list"
  cb_size :: int
  cb_position :: int

definition GaCodeValuesBuffer_new :: "int \<Rightarrow> int \<Rightarrow> 'a code_buffer res" where
  "GaCodeValuesBuffer_new k n =
     (if n < 0 then Inl BadAlloc
      else Inr \<lparr>cb_cells = replicate (nat (n div k)) None, cb_size = n, cb_position = 0\<rparr>)"

definition buffer_Move :: "int \<Rightarrow> 'a code_buffer \<Rightarrow> 'a code_buffer res" where
  "buffer_Move delta b = rbind (chk (cb_position b + delta)) (\<lambda>p. Inr (b\<lparr>cb_position := p\<rparr>))"

text \<open>\<open>size * sizeof( TYPE )\<close> and \<open>GetPosition() / sizeof( TYPE )\<close> are unsigned, then \<open>int\<close>.\<close>

definition byte_count :: "int \<Rightarrow> int \<Rightarrow> int" where
  "byte_count k n = wrap32 (((n mod 2 ^ 64) * k) mod 2 ^ 64)"

definition cell_count :: "int \<Rightarrow> int \<Rightarrow> int" where
  "cell_count k p = wrap32 ((p mod 2 ^ 64) div k)"

definition mv_MakeBuffer :: "int \<Rightarrow> int \<Rightarrow> 'a code_buffer res" where
  "mv_MakeBuffer k n = GaCodeValuesBuffer_new k (byte_count k n)"

definition fill_step :: "'a list \<Rightarrow> int \<Rightarrow> int \<Rightarrow> int \<Rightarrow> 'a code_buffer \<Rightarrow> 'a code_buffer res" where
  "fill_step vs pos p i b =
     rbind (vget vs (pos + i)) (\<lambda>v.
     rbind (vset (cb_cells b) (p + i) (Some v)) (\<lambda>cs. Inr (b\<lparr>cb_cells := cs\<rparr>)))"

definition mv_FillBuffer ::
  "int \<Rightarrow> int \<Rightarrow> int \<Rightarrow> 'a list \<Rightarrow> 'a code_buffer \<Rightarrow> 'a code_buffer res" where
  "mv_FillBuffer k pos n vs b =
     (if n \<le> 0 \<or> pos < 0 \<or> int (length vs) \<le> pos then Inr b
      else
        rbind (chk (pos + n)) (\<lambda>e.
        let s = (if e < int (length vs) then n else int (length vs) - pos);
            p = cell_count k (cb_position b)
        in rbind (rfold (fill_step vs pos p) [0..s - 1] b) (\<lambda>b'. buffer_Move (byte_count k s) b')))"

definition read_cell :: "'a code_buffer \<Rightarrow> int \<Rightarrow> 'a res" where
  "read_cell b i =
     rbind (vget (cb_cells b) i) (\<lambda>c. case c of None \<Rightarrow> Inl Uninit | Some v \<Rightarrow> Inr v)"

definition mv_FromBuffer :: "int \<Rightarrow> 'a code_buffer \<Rightarrow> 'a list res" where
  "mv_FromBuffer k b =
     (let n = cell_count k (cb_position b)
      in if n < 0 then Inl BadAlloc else rmap (read_cell b) [0..n - 1])"

text \<open>\<open>GaChromosomeValue::FromBuffer\<close>: one value, kept when the position is outside.\<close>

definition GaChromosomeValue_FromBuffer :: "int \<Rightarrow> 'a code_buffer \<Rightarrow> int \<Rightarrow> 'a \<Rightarrow> 'a res" where
  "GaChromosomeValue_FromBuffer k b pos v =
     (if 0 \<le> pos \<and> pos < c_div (cb_position b) k then read_cell b pos else Inr v)"

section \<open>Class \<open>GaMVArithmeticChromosome\<close>\<close>

text \<open>The operators share one body: \<open>f\<close> is the operation on values (which may fault).\<close>

definition mv_arith ::
  "('op, 'a, 'g) domain_block \<Rightarrow> ('a \<Rightarrow> 'a \<Rightarrow> 'a res) \<Rightarrow> 'a multi_value \<Rightarrow> 'a multi_value \<Rightarrow> 'a multi_value res" where
  "mv_arith B f c rhs =
     (let s = min (length (mv_values c)) (length (mv_values rhs))
      in rbind (rmap (\<lambda>i. rbind (f (mv_values c ! nat i) (mv_values rhs ! nat i))
                   (\<lambda>v. GetClosestValue B v i)) [0..int s - 1])
         (\<lambda>vs. Inr ((mv_copy c True)\<lparr>mv_values := vs\<rparr>)))"

text \<open>Instances for \<open>int\<close> codes.\<close>

definition mv_plus :: "('op, int, 'g) domain_block \<Rightarrow> int multi_value \<Rightarrow> int multi_value \<Rightarrow> int multi_value res" where
  "mv_plus B = mv_arith B (\<lambda>x y. chk (x + y))"

definition mv_minus :: "('op, int, 'g) domain_block \<Rightarrow> int multi_value \<Rightarrow> int multi_value \<Rightarrow> int multi_value res" where
  "mv_minus B = mv_arith B (\<lambda>x y. chk (x - y))"

definition mv_times :: "('op, int, 'g) domain_block \<Rightarrow> int multi_value \<Rightarrow> int multi_value \<Rightarrow> int multi_value res" where
  "mv_times B = mv_arith B (\<lambda>x y. chk (x * y))"

definition mv_divide :: "('op, int, 'g) domain_block \<Rightarrow> int multi_value \<Rightarrow> int multi_value \<Rightarrow> int multi_value res" where
  "mv_divide B = mv_arith B int_div"

definition mv_Midpoint :: "('op, int, 'g) domain_block \<Rightarrow> int multi_value \<Rightarrow> int multi_value \<Rightarrow> int multi_value res" where
  "mv_Midpoint B = mv_arith B (\<lambda>x y. rbind (chk (x + y)) (\<lambda>s. int_div s 2))"

section \<open>Swapping parts of a code\<close>

lemma swap_parts_mset:
  assumes "vrange vs 0 a = Inr p0" and "vrange vs a am = Inr p3" and "vrange vs am b = Inr p2"
    and "vrange vs b bn = Inr p1" and "vrange vs bn (int (length vs)) = Inr p4"
  shows "mset (p0 @ p1 @ p2 @ p3 @ p4) = mset vs"
proof -
  have "vrange vs 0 (int (length vs)) = Inr ((((p0 @ p3) @ p2) @ p1) @ p4)"
    using vrange_join [OF vrange_join [OF vrange_join [OF vrange_join [OF assms(1,2)] assms(3)] assms(4)] assms(5)] .
  then have "vs = p0 @ p3 @ p2 @ p1 @ p4"
    by (simp add: vrange_all)
  then show ?thesis by (simp add: ac_simps)
qed

lemma mv_Swap_mset:
  assumes "mv_Swap start1 size1 start2 size2 vs = Inr ws"
  shows "mset ws = mset vs"
  using assms swap_parts_mset
  by (fastforce simp: mv_Swap_def Let_def rbind_eq_Inr split: if_splits prod.splits)

lemma vrange_ok: "0 \<le> a \<Longrightarrow> a \<le> b \<Longrightarrow> b \<le> int (length xs) \<Longrightarrow>
    vrange xs a b = Inr (take (nat (b - a)) (drop (nat a) xs))"
  by (simp add: vrange_def)

lemma mv_Swap_ok:
  assumes "int_range (int (length vs))"
    and "0 \<le> a" and "0 < m" and "a + m \<le> b" and "0 < n" and "b + n \<le> int (length vs)"
  shows "mv_Swap a m b n vs =
    Inr (take (nat a) vs @ take (nat n) (drop (nat b) vs) @ take (nat (b - (a + m))) (drop (nat (a + m)) vs)
         @ take (nat m) (drop (nat a) vs) @ drop (nat (b + n)) vs)"
proof -
  have len: "a < b" "b < int (length vs)" "vs \<noteq> []" using assms by auto
  have c: "int_range (a + m)" "int_range (b + n)"
    using assms by (auto simp: int_range_def)
  have t: "take (nat (int (length vs) - (b + n))) (drop (nat (b + n)) vs) = drop (nat (b + n)) vs"
    using assms by (intro take_all) (simp add: nat_le_iff)
  show ?thesis
  proof (cases "b = a + m")
    case True
    with assms len c t show ?thesis by (simp add: mv_Swap_def vrange_ok chk_ok)
  next
    case False
    with assms len c t show ?thesis by (simp add: mv_Swap_def vrange_ok chk_ok)
  qed
qed

lemma mv_Swap_symmetric: "mv_Swap s2 n2 s1 n1 vs = mv_Swap s1 n1 s2 n2 vs"
  by (auto simp: mv_Swap_def Let_def)

section \<open>Inserting\<close>

lemma mv_Insert_one_at_end:
  "db_domains B = [] \<Longrightarrow> mv_Insert B (int (length vs)) (Some [v]) 1 vs = Inr (vs @ [v])"
  by (simp add: mv_Insert_def)

lemma mv_Insert_null: "mv_Insert B start None n vs = Inr vs"
  by (simp add: mv_Insert_def)

text \<open>Every inserted value is adjusted to the domain of its offset in the inserted part.\<close>

lemma mv_Insert_in_domain:
  assumes "lawful_block B" and "mv_Insert B start (Some ds) n vs = Inr ws"
    and "0 < n" and "0 \<le> start" and "start \<le> int (length vs)"
  shows "length ws = length vs + nat n
    \<and> take (nat start) ws = take (nat start) vs \<and> drop (nat (start + n)) ws = drop (nat start) vs
    \<and> (\<forall>i. 0 \<le> i \<and> i < n \<longrightarrow> in_domain B i (ws ! nat (start + i)))"
proof -
  from assms(2-) obtain new where
    new: "rmap (\<lambda>i. rbind (vget ds i) (\<lambda>v. GetClosestValue B v i)) [0..n - 1] = Inr new"
    and ws: "ws = take (nat start) vs @ new @ drop (nat start) vs"
    by (auto simp: mv_Insert_def rbind_eq_Inr split: if_splits)
  have len: "length new = nat n" using rmap_length [OF new] assms(3) by simp
  have st: "length (take (nat start) vs) = nat start" using assms(4,5) by (simp add: nat_le_iff)
  have "in_domain B i (ws ! nat (start + i))" if i: "0 \<le> i" "i < n" for i
  proof -
    have "nat (start + i) = nat start + nat i" using assms(4) i by (simp add: nat_add_distrib)
    then have "ws ! nat (start + i) = new ! nat i"
      using st len i by (simp add: ws nth_append)
    moreover have "rbind (vget ds i) (\<lambda>v. GetClosestValue B v i) = Inr (new ! nat i)"
      using rmap_nth [OF new, of "nat i"] i by simp
    then obtain v where "GetClosestValue B v i = Inr (new ! nat i)" by (auto simp: rbind_eq_Inr)
    ultimately show ?thesis using GetClosestValue_in_domain [OF assms(1), of v i] by auto
  qed
  moreover have "nat (start + n) = nat start + nat n" using assms(3,4) by (simp add: nat_add_distrib)
  moreover have "nat start \<le> length vs" using assms(4,5) by (simp add: nat_le_iff)
  ultimately show ?thesis using st len by (simp add: ws)
qed

section \<open>Drawing a new code\<close>

lemma draw_code_in_domain:
  assumes "lawful_block B" and "draw_code B is g = Inr (vs, g')"
  shows "length vs = length is \<and> (\<forall>k < length is. in_domain B (is ! k) (vs ! k))"
  using assms(2)
proof (induction "is" arbitrary: g vs)
  case Nil
  then show ?case by simp
next
  case (Cons i "is")
  from Cons.prems obtain v g1 vs' where
    v: "random_at B i g = Inr (v, g1)" and vs': "draw_code B is g1 = Inr (vs', g')" "vs = v # vs'"
    by (auto simp: rbind_eq_Inr split: prod.splits)
  from Cons.IH [OF vs'(1)] random_at_in_domain [OF assms(1) v] vs'(2)
  show ?case by (auto simp: nth_Cons split: nat.splits)
qed

lemma mv_MakeNewFromPrototype_in_domain:
  assumes "lawful_block B" and "mv_MakeNewFromPrototype B c g = Inr (d, g')"
  shows "length (mv_values d) = length (mv_values c)
    \<and> (\<forall>k < length (mv_values d). in_domain B (int k) (mv_values d ! k))"
proof (cases "mv_values c = []")
  case True
  with assms(2) show ?thesis by (auto simp: mv_MakeNewFromPrototype_def mv_copy_def Let_def default_chromosome.defs)
next
  case False
  with assms(2) obtain vs where
    d: "draw_code B [0..int (length (mv_values c)) - 1] g = Inr (vs, g')" "mv_values d = vs"
    by (auto simp: mv_MakeNewFromPrototype_def Let_def rbind_eq_Inr)
  with draw_code_in_domain [OF assms(1) d(1)] show ?thesis by simp
qed

section \<open>Mutation with undo, comparison\<close>

lemma Reject_restores:
  "mv_backup c = [] \<Longrightarrow> mv_values (RejectMutation ((PreapareForMutation c)\<lparr>mv_values := ws\<rparr>)) = mv_values c
    \<and> mv_backup (RejectMutation ((PreapareForMutation c)\<lparr>mv_values := ws\<rparr>)) = []"
  by (simp add: RejectMutation_def PreapareForMutation_def)

lemma Accept_keeps:
  "mv_values (AcceptMutation c) = mv_values c \<and> mv_backup (AcceptMutation c) = []"
  by (simp add: AcceptMutation_def)

lemma equal_below_iff: "equal_below k xs ys \<longleftrightarrow> (\<forall>i < k. xs ! i = ys ! i)"
  by (induction k) (auto simp: less_Suc_eq)

lemma mv_equal_iff: "mv_equal c d \<longleftrightarrow> mv_values c = mv_values d"
  by (auto simp: mv_equal_def equal_below_iff list_eq_iff_nth_eq)

lemma mv_copy_values [simp]:
  "mv_values (mv_copy c True) = []" "mv_values (mv_copy c False) = mv_values c"
  "mv_backup (mv_copy c s) = []"
  by (simp_all add: mv_copy_def default_chromosome.defs)

section \<open>Arithmetic\<close>

lemma mv_arith_in_domain:
  assumes "lawful_block B" and "mv_arith B f c d = Inr e"
  shows "length (mv_values e) = min (length (mv_values c)) (length (mv_values d))
    \<and> (\<forall>k < length (mv_values e). in_domain B (int k) (mv_values e ! k))"
proof -
  let ?s = "min (length (mv_values c)) (length (mv_values d))"
  from assms(2) obtain vs where
    vs: "rmap (\<lambda>i. rbind (f (mv_values c ! nat i) (mv_values d ! nat i)) (\<lambda>v. GetClosestValue B v i))
        [0..int ?s - 1] = Inr vs" and e: "mv_values e = vs"
    by (auto simp: mv_arith_def Let_def rbind_eq_Inr)
  have len: "length vs = ?s" using rmap_length [OF vs] by simp
  have "in_domain B (int k) (vs ! k)" if "k < ?s" for k
  proof -
    have "rbind (f (mv_values c ! k) (mv_values d ! k)) (\<lambda>v. GetClosestValue B v (int k)) = Inr (vs ! k)"
      using rmap_nth [OF vs, of k] that by simp
    then obtain v where "GetClosestValue B v (int k) = Inr (vs ! k)" by (auto simp: rbind_eq_Inr)
    then show ?thesis using GetClosestValue_in_domain [OF assms(1), of v "int k"] by auto
  qed
  with len e show ?thesis by simp
qed

section \<open>Filling and reading a buffer\<close>

lemma upto_snoc: "[0..int s] = [0..int s - 1] @ [int s]"
  using upto_rec2 [of 0 "int s"] by simp

lemma fill_loop:
  "p + s \<le> length (cb_cells b) \<Longrightarrow> pos + s \<le> length vs \<Longrightarrow>
    rfold (fill_step vs (int pos) (int p)) [0..int s - 1] b =
    Inr (b\<lparr>cb_cells := take p (cb_cells b) @ map Some (take s (drop pos vs)) @ drop (p + s) (cb_cells b)\<rparr>)"
proof (induction s)
  case 0
  then show ?case by simp
next
  case (Suc s)
  let ?cs = "cb_cells b" and ?front = "take p (cb_cells b) @ map Some (take s (drop pos vs))"
  have v: "vget vs (int pos + int s) = Inr (vs ! (pos + s))"
    using Suc.prems(2) by (simp add: vget_def nat_add_distrib)
  have len: "length ?front = p + s" using Suc.prems by simp
  have d: "drop (p + s) ?cs = ?cs ! (p + s) # drop (p + Suc s) ?cs"
    using Suc.prems(1) by (simp add: Cons_nth_drop_Suc)
  have "(?front @ drop (p + s) ?cs)[p + s := Some (vs ! (pos + s))]
      = ?front @ Some (vs ! (pos + s)) # drop (p + Suc s) ?cs"
    using len by (simp only: d list_update_append) simp
  moreover have "map Some (take (Suc s) (drop pos vs)) = map Some (take s (drop pos vs)) @ [Some (vs ! (pos + s))]"
    using Suc.prems(2) by (simp add: take_Suc_conv_app_nth)
  moreover have "vset (?front @ drop (p + s) ?cs) (int p + int s) (Some (vs ! (pos + s)))
      = Inr ((?front @ drop (p + s) ?cs)[p + s := Some (vs ! (pos + s))])"
    using Suc.prems len by (simp add: vset_def nat_add_distrib)
  ultimately show ?case
    using Suc by (simp add: upto_snoc rfold_append fill_step_def [abs_def] v)
qed

lemma byte_count_small: "0 < k \<Longrightarrow> 0 \<le> n \<Longrightarrow> k * n < 2 ^ 31 \<Longrightarrow> byte_count k n = k * n"
proof -
  assume a: "0 < k" "0 \<le> n" "k * n < 2 ^ 31"
  then have "n \<le> k * n" by (simp add: mult_le_cancel_right1)
  with a have "n mod 2 ^ 64 = n" by (intro mod_pos_pos_trivial) auto
  moreover have "(k * n) mod 2 ^ 64 = k * n" using a by (intro mod_pos_pos_trivial) auto
  moreover have "int_range (k * n)" using a by (intro int_range_nonneg mult_nonneg_nonneg) auto
  ultimately show ?thesis by (simp add: byte_count_def mult.commute)
qed

lemma cell_count_small: "0 < k \<Longrightarrow> 0 \<le> n \<Longrightarrow> k * n < 2 ^ 31 \<Longrightarrow> cell_count k (k * n) = n"
proof -
  assume a: "0 < k" "0 \<le> n" "k * n < 2 ^ 31"
  then have "n \<le> k * n" by (simp add: mult_le_cancel_right1)
  then have "int_range n" using a by (simp add: int_range_def)
  moreover have "(k * n) mod 2 ^ 64 = k * n" using a by (intro mod_pos_pos_trivial) auto
  ultimately show ?thesis using a by (simp add: cell_count_def)
qed

text \<open>
  \<open>FillBuffer\<close> appends the requested part, cut at the end of the code, to what the buffer
  already holds.
\<close>

lemma mv_FillBuffer_appends:
  assumes k: "0 < k" and pos: "pos < length vs" and n: "0 < n"
    and b: "cb_position b = k * int p" "cb_cells b = map Some xs @ rest" "length xs = p"
    and room: "p + min n (length vs - pos) \<le> length (cb_cells b)"
    and small: "k * int (length (cb_cells b)) < 2 ^ 31" "int pos + int n < 2 ^ 31"
  shows "\<exists>b'. mv_FillBuffer k (int pos) (int n) vs b = Inr b'
    \<and> cb_position b' = k * int (p + min n (length vs - pos))
    \<and> cb_cells b' = map Some (xs @ take n (drop pos vs)) @ drop (min n (length vs - pos)) rest"
proof -
  let ?s = "min n (length vs - pos)"
  have s: "(if int pos + int n < int (length vs) then int n else int (length vs) - int pos) = int ?s"
    using pos by auto
  have le: "int p \<le> int (length (cb_cells b))" "int ?s \<le> int (length (cb_cells b))"
      "int p + int ?s \<le> int (length (cb_cells b))"
    using room by auto
  have km: "k * m < 2 ^ 31" if "m \<le> int (length (cb_cells b))" for m
    using mult_left_mono [OF that, of k] k small(1) by linarith
  have cc: "cell_count k (k * int p) = int p" and bc: "byte_count k (int ?s) = k * int ?s"
    using cell_count_small [OF k _ km [OF le(1)]] byte_count_small [OF k _ km [OF le(2)]] by auto
  have r: "int_range (k * int p + k * int ?s)"
    using km [OF le(3)] k
    by (intro int_range_nonneg add_nonneg_nonneg mult_nonneg_nonneg) (auto simp: algebra_simps)
  have rp: "int_range (int pos + int n)" using small(2) by (simp add: int_range_def)
  have "take ?s (drop pos vs) = take n (drop pos vs)" by (simp add: min_def)
  then have loop: "rfold (fill_step vs (int pos) (int p)) [0..int ?s - 1] b =
      Inr (b\<lparr>cb_cells := map Some xs @ map Some (take n (drop pos vs)) @ drop ?s rest\<rparr>)"
    using fill_loop [of p ?s b pos vs] room pos b(2,3) by simp
  show ?thesis
    using n pos s cc bc r rp loop b(1)
    by (simp add: mv_FillBuffer_def Let_def chk_ok buffer_Move_def algebra_simps)
qed

lemma rmap_read_cells:
  assumes "cb_cells b = map Some xs @ rest"
  shows "rmap (read_cell b) [0..int (length xs) - 1] = Inr xs"
proof -
  have "rmap (read_cell b) [0..int (length xs) - 1] = Inr (map (\<lambda>i. xs ! nat i) [0..int (length xs) - 1])"
  proof (rule rmap_Inr)
    fix i assume "i \<in> set [0..int (length xs) - 1]"
    then have i: "0 \<le> i" "i < int (length xs)" by auto
    then have "nat i < length xs" by (simp add: nat_less_iff)
    then have "cb_cells b ! nat i = Some (xs ! nat i)" by (simp add: assms nth_append)
    then show "read_cell b i = Inr (xs ! nat i)"
      using i by (simp add: read_cell_def vget_def assms)
  qed
  also have "map (\<lambda>i. xs ! nat i) [0..int (length xs) - 1] = xs"
    by (rule nth_equalityI) simp_all
  finally show ?thesis .
qed

lemma mv_FromBuffer_reads:
  assumes "0 < k" and "cb_position b = k * int (length xs)" and "cb_cells b = map Some xs @ rest"
    and "k * int (length xs) < 2 ^ 31"
  shows "mv_FromBuffer k b = Inr xs"
  using assms rmap_read_cells [OF assms(3)] cell_count_small [of k "int (length xs)"]
  by (simp add: mv_FromBuffer_def)

lemma mv_MakeBuffer_empty:
  assumes "0 < k" and "k * int n < 2 ^ 31"
  shows "mv_MakeBuffer k (int n) = Inr \<lparr>cb_cells = replicate n None, cb_size = k * int n, cb_position = 0\<rparr>"
  using assms byte_count_small [of k "int n"]
  by (auto simp: mult_less_0_iff mv_MakeBuffer_def GaCodeValuesBuffer_new_def)

section \<open>Properties\<close>

text \<open>
  C34. Swapping two disjoint parts of a code exchanges them and keeps everything else in place,
  in whichever order they are given; the result is a permutation of the code.
\<close>

theorem swap_exchanges_parts:
  assumes "int_range (int (length vs))" and "0 \<le> a" and "0 < m" and "a + m \<le> b" and "0 < n" and "b + n \<le> int (length vs)"
  shows "\<exists>ws. mv_Swap a m b n vs = Inr ws \<and> mv_Swap b n a m vs = Inr ws \<and> mset ws = mset vs
    \<and> ws = take (nat a) vs @ take (nat n) (drop (nat b) vs) @ take (nat (b - (a + m))) (drop (nat (a + m)) vs)
         @ take (nat m) (drop (nat a) vs) @ drop (nat (b + n)) vs"
  using mv_Swap_ok [OF assms] mv_Swap_symmetric [of b n a m vs] mv_Swap_mset [of a m b n vs] by auto

theorem swap_exchanges_parts_witness:
  "mv_Swap 4 1 1 2 [10, 11, 12, 13, 14, 15 :: int] = Inr [10, 14, 13, 11, 12, 15]"
  using swap_exchanges_parts [of "[10, 11, 12, 13, 14, 15 :: int]" 1 2 4 1] by (simp add: int_range_def)

text \<open>
  C33. Building a code through a buffer is one-point crossover: after the first \<open>i\<close> values of
  one parent and the rest of the other have been written into a buffer made for the size of
  the code, reading the buffer back gives exactly these values.
\<close>

theorem buffer_crossover:
  assumes "0 < k" and "0 < i" and "i < length vs" and "length ws = length vs" and "k * int (length vs) < 2 ^ 31"
  shows "\<exists>b b1 b2. mv_MakeBuffer k (int (length vs)) = Inr b \<and> mv_FillBuffer k 0 (int i) vs b = Inr b1
    \<and> mv_FillBuffer k (int i) (int (length vs - i)) ws b1 = Inr b2
    \<and> mv_FromBuffer k b2 = Inr (take i vs @ drop i ws)"
proof -
  let ?n = "length vs"
  let ?b = "\<lparr>cb_cells = replicate ?n None, cb_size = k * int ?n, cb_position = 0\<rparr>"
  have "1 * int ?n \<le> k * int ?n" using assms(1) by (intro mult_right_mono) auto
  then have n: "int ?n < 2 ^ 31" using assms(5) by simp
  have ne: "vs \<noteq> []" using assms(3) by auto
  have make: "mv_MakeBuffer k (int ?n) = Inr ?b" using mv_MakeBuffer_empty [OF assms(1,5)] .
  from mv_FillBuffer_appends [of k 0 vs i ?b 0 "[]" "replicate ?n None"] assms n ne
  obtain b1 where b1: "mv_FillBuffer k 0 (int i) vs ?b = Inr b1" "cb_position b1 = k * int i"
      "cb_cells b1 = map Some (take i vs) @ replicate (?n - i) None"
    by auto
  from mv_FillBuffer_appends [of k i ws "?n - i" b1 i "take i vs" "replicate (?n - i) None"] assms n b1
  obtain b2 where b2: "mv_FillBuffer k (int i) (int (?n - i)) ws b1 = Inr b2" "cb_position b2 = k * int ?n"
      "cb_cells b2 = map Some (take i vs @ drop i ws) @ []"
    by (auto simp: min_def of_nat_diff)
  have "mv_FromBuffer k b2 = Inr (take i vs @ drop i ws)"
    using assms b2 by (intro mv_FromBuffer_reads [where rest = "[]"]) auto
  with make b1 b2 show ?thesis by blast
qed

theorem buffer_crossover_witness:
  "\<exists>b b1 b2. mv_MakeBuffer 8 (int 3) = Inr b \<and> mv_FillBuffer 8 0 (int 1) ''abc'' b = Inr b1
    \<and> mv_FillBuffer 8 (int 1) (int 2) ''xyz'' b1 = Inr b2 \<and> mv_FromBuffer 8 b2 = Inr ''ayz''"
  using buffer_crossover [of 8 1 "''abc''" "''xyz''"] by (simp add: numeral_nat)

text \<open>
  A chromosome made from a prototype has a code of the same size whose every value is in
  the domain of its position, when the value sets of the domains are lawful.
\<close>

theorem new_code_in_domain:
  assumes "lawful_block B" and "mv_MakeNewFromPrototype B c g = Inr (d, g')"
  shows "mv_GetCodeSize d = mv_GetCodeSize c \<and> (\<forall>k < length (mv_values d). in_domain B (int k) (mv_values d ! k))"
  using mv_MakeNewFromPrototype_in_domain [OF assms] by (simp add: mv_GetCodeSize_def)

definition constant_set :: "int \<Rightarrow> (int, unit) value_set_ops" where
  "constant_set x = \<lparr>vs_random = (\<lambda>g. Inr (x, g)), vs_inverse = (\<lambda>v. Inr (if v = x then Some x else None)), vs_belongs = (\<lambda>v. v = x),
     vs_closest = (\<lambda>v. Inr x)\<rparr>"

definition two_domains :: "(unit, int, unit) domain_block" where
  "two_domains = \<lparr>pb_parameters = None, ob_fitness = None, ob_comparator = None, ob_mutation = None,
     ob_crossover = None, db_domains = [Some (constant_set 7), Some (constant_set 9)]\<rparr>"

lemma two_domains_lawful: "lawful_block two_domains"
  by (auto simp: lawful_block_def two_domains_def lawful_set_def constant_set_def)

theorem new_code_in_domain_witness:
  "\<exists>d. mv_MakeNewFromPrototype two_domains ((mv_new 0)\<lparr>mv_values := [1, 2]\<rparr>) () = Inr (d, ()) \<and> mv_GetCodeSize d = 2"
proof -
  obtain d where d: "mv_MakeNewFromPrototype two_domains ((mv_new 0)\<lparr>mv_values := [1, 2]\<rparr>) () = Inr (d, ())"
    by (simp add: mv_MakeNewFromPrototype_def random_at_def GetValueSet_def two_domains_def domain_index_def
        constant_set_def upto_rec1 rbind_def)
  with new_code_in_domain [OF two_domains_lawful d] show ?thesis by (simp add: mv_GetCodeSize_def)
qed



text \<open>
  \<open>Flip\<close> draws the value for position \<open>start + i\<close> from the domain of position \<open>i\<close>: with one
  domain per position the new value can be outside the domain of its position.
\<close>

theorem flip_uses_wrong_domain:
  "\<exists>ws. mv_Flip two_domains 1 1 [7, 9] () = Inr (ws, ()) \<and> \<not> in_domain two_domains 1 (ws ! 1)"
  by (simp add: mv_Flip_def flip_step_def random_at_def GetValueSet_def two_domains_def domain_index_def
      constant_set_def in_domain_def vset_def)

text \<open>
  A rejected mutation restores the code: whatever the mutation wrote, the chromosome has
  its old code and an empty backup again, when the backup was empty before.
\<close>

theorem rejected_mutation_restores:
  assumes "mv_backup c = []"
  shows "RejectMutation ((PreapareForMutation c)\<lparr>mv_values := ws\<rparr>) = c"
  using assms by (simp add: RejectMutation_def PreapareForMutation_def)

theorem rejected_mutation_restores_witness:
  "RejectMutation ((PreapareForMutation ((mv_new 0)\<lparr>mv_values := [1, 2 :: int]\<rparr>))\<lparr>mv_values := [2, 1]\<rparr>)
    = (mv_new 0)\<lparr>mv_values := [1, 2]\<rparr>"
  by (rule rejected_mutation_restores) (simp add: mv_new_def default_chromosome.defs)

end
