(* ===== verification/Tour.thy ===== *)
theory Tour
  imports Cities MultiValue RandomGen
begin

text \<open>
  \<open>TSP/TspAlgorithm.h\<close> and \<open>TSP/TspAlgorithm.cpp\<close>: tours as chromosomes, their random
  construction, the crossover of two tours, the length of a tour, and the settings of the
  genetic algorithm. A tour is the vector of city pointers \<open>_values\<close>. The global integer
  generator is the argument \<open>gen\<close> (in the program \<open>GaRandomInteger_Generate_max\<close>), the distance
  of two cities the argument \<open>dst\<close> (in the program \<open>ptr_distance\<close>).
\<close>

type_synonym 'g generator = "int \<Rightarrow> 'g \<Rightarrow> (int \<times> 'g) res"
type_synonym distance = "ptr \<Rightarrow> ptr \<Rightarrow> cnum res"
type_synonym TspChromosome = "ptr multi_value"

section \<open>\<open>TspChromosome\<close>\<close>

definition TspChromosome_new :: "nat \<Rightarrow> TspChromosome" where
  "TspChromosome_new block = mv_new block"

definition TspChromosome_MakeCopy :: "TspChromosome \<Rightarrow> bool \<Rightarrow> TspChromosome" where
  "TspChromosome_MakeCopy c setupOnly = mv_copy c setupOnly"

definition shuffle_step :: "'g generator \<Rightarrow> int \<Rightarrow> int \<Rightarrow> ptr list \<times> 'g \<Rightarrow> (ptr list \<times> 'g) res" where
  "shuffle_step gen n i s =
     (let (vs, g) = s in
      rbind (gen (n - 1) g) (\<lambda>(p, g').
      rbind (vget vs i) (\<lambda>t.
      rbind (vget vs p) (\<lambda>u.
      rbind (vset vs i u) (\<lambda>vs1.
      rbind (vset vs1 p t) (\<lambda>vs2. Inr (vs2, g')))))))"

definition shuffle :: "'g generator \<Rightarrow> ptr list \<Rightarrow> 'g \<Rightarrow> (ptr list \<times> 'g) res" where
  "shuffle gen vs g =
     (let n = int (length vs) in rfold (shuffle_step gen n) (rev [0..n - 1]) (vs, g))"

definition TspChromosome_MakeNewFromPrototype ::
  "'g generator \<Rightarrow> city_order \<Rightarrow> world \<Rightarrow> TspChromosome \<Rightarrow> 'g \<Rightarrow> (TspChromosome \<times> 'g) res" where
  "TspChromosome_MakeNewFromPrototype gen ord w c g =
     (let new = TspChromosome_new (dc_configBlock c)
      in rbind (shuffle gen (GetCities ord w) g)
           (\<lambda>(vs, g'). Inr (new\<lparr>mv_values := vs\<rparr>, g')))"

text \<open>The scan runs from the last index to the first.\<close>

fun position_below :: "nat \<Rightarrow> ptr list \<Rightarrow> ptr \<Rightarrow> int" where
  "position_below 0 vs city = - 1"
| "position_below (Suc i) vs city = (if vs ! i = city then int i else position_below i vs city)"

definition GetCityPosition :: "ptr list \<Rightarrow> ptr \<Rightarrow> int" where
  "GetCityPosition vs city = position_below (length vs) vs city"

section \<open>\<open>TspCrossover\<close>\<close>

definition SelectNextCity :: "distance \<Rightarrow> ptr \<Rightarrow> ptr \<Rightarrow> ptr \<Rightarrow> ptr res" where
  "SelectNextCity dst previous best next =
     (if best = None then Inr next
      else rbind (dst previous best) (\<lambda>a.
           rbind (dst previous next) (\<lambda>b. Inr (if flt b a then next else best))))"

text \<open>\<open>if( !taken[ i ] ) SelectNextCity( currentCity, &nextCity, c->GetAt( i ) );\<close>\<close>

definition try_neighbour :: "distance \<Rightarrow> ptr \<Rightarrow> bool list \<Rightarrow> ptr list \<Rightarrow> int \<Rightarrow> ptr \<Rightarrow> ptr res" where
  "try_neighbour dst current taken c i next =
     rbind (vget taken i) (\<lambda>t.
       if t then Inr next
       else rbind (vget c i) (SelectNextCity dst current next))"

text \<open>One round of the loop over the two parents.\<close>

definition consider_parent ::
  "distance \<Rightarrow> int \<Rightarrow> ptr \<Rightarrow> int \<Rightarrow> bool list \<Rightarrow> ptr list \<Rightarrow> ptr \<Rightarrow> ptr res" where
  "consider_parent dst n current pos taken c next =
     (if pos \<noteq> 0 then
        rbind (try_neighbour dst current taken c (pos - 1) next)
          (\<lambda>next'. if pos < n - 1 then try_neighbour dst current taken c (pos + 1) next'
                   else try_neighbour dst current taken c 0 next')
      else
        rbind (try_neighbour dst current taken c (n - 1) next)
          (try_neighbour dst current taken c (pos + 1)))"

text \<open>The random fallback: the first city of the first parent not yet taken.\<close>

fun fallback_scan :: "int \<Rightarrow> bool list \<Rightarrow> ptr list \<Rightarrow> int \<Rightarrow> int list \<Rightarrow> ptr res" where
  "fallback_scan n taken c startRandom [] = Inr None"
| "fallback_scan n taken c startRandom (j # js) =
     rbind (chk (startRandom + j)) (\<lambda>k.
     rbind (int_mod k n) (\<lambda>p.
     rbind (vget taken p) (\<lambda>t.
       if \<not> t then vget c p else fallback_scan n taken c startRandom js)))"

record 'g crossover_state =
  x_child :: "ptr list"
  x_first :: "bool list"
  x_second :: "bool list"
  x_current :: ptr
  x_gen :: 'g

text \<open>
  The body of \<open>while( 1 )\<close>; the result says whether the loop goes on. \<open>B\<close> is the block of the
  child, \<open>n\<close> the number of cities.
\<close>

definition crossover_step ::
  "distance \<Rightarrow> 'g generator \<Rightarrow> ('op, ptr, 'd) domain_block \<Rightarrow> int \<Rightarrow> ptr list \<Rightarrow> ptr list \<Rightarrow>
   'g crossover_state \<Rightarrow> ('g crossover_state \<times> bool) res" where
  "crossover_step dst gen B n p1 p2 s =
     (let current = x_current s;
          first = GetCityPosition p1 current;
          second = GetCityPosition p2 current
      in rbind (mv_Insert B (int (length (x_child s))) (Some [current]) 1 (x_child s)) (\<lambda>child.
         rbind (vset (x_first s) first True) (\<lambda>tf.
         rbind (vset (x_second s) second True) (\<lambda>ts.
         rbind (consider_parent dst n current second ts p2 None) (\<lambda>next1.
         rbind (consider_parent dst n current first tf p1 next1) (\<lambda>next2.
         rbind (if next2 = None
                then rbind (gen (n - 1) (x_gen s)) (\<lambda>(r, g').
                     rbind (fallback_scan n tf p1 r (rev [0..n - 1])) (\<lambda>c. Inr (c, g')))
                else Inr (next2, x_gen s)) (\<lambda>(next, g).
           let s' = s\<lparr>x_child := child, x_first := tf, x_second := ts, x_gen := g\<rparr>
           in if next = None then Inr (s', False) else Inr (s'\<lparr>x_current := next\<rparr>, True))))))))"

partial_function (option) crossover_loop ::
  "distance \<Rightarrow> 'g generator \<Rightarrow> ('op, ptr, 'd) domain_block \<Rightarrow> int \<Rightarrow> ptr list \<Rightarrow> ptr list \<Rightarrow>
   'g crossover_state \<Rightarrow> 'g crossover_state res option" where
  "crossover_loop dst gen B n p1 p2 s =
     (case crossover_step dst gen B n p1 p2 s of
        Inl e \<Rightarrow> Some (Inl e)
      | Inr (s', again) \<Rightarrow> if again then crossover_loop dst gen B n p1 p2 s' else Some (Inr s'))"

definition TspCrossover ::
  "distance \<Rightarrow> 'g generator \<Rightarrow> ('op, ptr, 'd) domain_block \<Rightarrow> int \<Rightarrow> TspChromosome \<Rightarrow> TspChromosome \<Rightarrow>
   'g \<Rightarrow> (TspChromosome \<times> 'g) res option" where
  "TspCrossover dst gen B n parent1 parent2 g =
     (let p1 = mv_values parent1; p2 = mv_values parent2; child = TspChromosome_MakeCopy parent1 True
      in if n < 0 then Some (Inl BadAlloc)
         else case rbind (gen (n - 1) g) (\<lambda>(k, g'). rbind (vget p1 k) (\<lambda>c. Inr (c, g'))) of
           Inl e \<Rightarrow> Some (Inl e)
         | Inr (current, g') \<Rightarrow>
             map_option (\<lambda>r. rbind r (\<lambda>s. Inr (child\<lparr>mv_values := x_child s\<rparr>, x_gen s)))
               (crossover_loop dst gen B n p1 p2
                 \<lparr>x_child = mv_values child, x_first = replicate (nat n) False,
                  x_second = replicate (nat n) False, x_current = current, x_gen = g'\<rparr>))"

section \<open>\<open>TspFitness\<close>\<close>

definition fitness_step :: "distance \<Rightarrow> ptr list \<Rightarrow> int \<Rightarrow> cnum \<Rightarrow> cnum res" where
  "fitness_step dst v i fitness =
     rbind (vget v i) (\<lambda>a.
     rbind (vget v (if i \<noteq> 0 then i - 1 else int (length v) - 1)) (\<lambda>b.
     rbind (dst a b) (\<lambda>d. Inr (fadd round32 fitness d))))"

definition TspFitness :: "distance \<Rightarrow> TspChromosome \<Rightarrow> cnum res" where
  "TspFitness dst c =
     (let v = mv_values c
      in rfold (fitness_step dst v) (rev [0..int (length v) - 1]) (Num 0))"

section \<open>Shuffling\<close>

lemma shuffle_step_mset:
  assumes "shuffle_step gen n i (vs, g) = Inr (ws, g')"
  shows "mset ws = mset vs \<and> length ws = length vs"
  using assms
  by (auto simp: shuffle_step_def rbind_eq_Inr vget_Inr_iff vset_Inr_iff mset_swap_nth nat_less_iff
      split: prod.splits)

definition in_range_gen :: "'g generator \<Rightarrow> int \<Rightarrow> bool" where
  "in_range_gen gen mx \<longleftrightarrow> (\<forall>g. \<exists>v g'. gen mx g = Inr (v, g') \<and> 0 \<le> v \<and> v \<le> mx)"

lemma in_range_genE:
  assumes "in_range_gen gen mx"
  obtains v g' where "gen mx g = Inr (v, g')" "0 \<le> v" "v \<le> mx"
  using assms unfolding in_range_gen_def by blast

lemma Generate_max_in_range_gen:
  assumes "unit_doubles R" and "0 \<le> mx" and "mx < 2 ^ 31 - 1"
  shows "in_range_gen (GaRandomInteger_Generate_max R) mx"
  unfolding in_range_gen_def
proof
  fix g
  obtain q where "fst (raw_double R g) = Num q" "0 < q" "q < 1"
    using assms(1) unfolding unit_doubles_def by blast
  then show "\<exists>v g'. GaRandomInteger_Generate_max R mx g = Inr (v, g') \<and> 0 \<le> v \<and> v \<le> mx"
    using Generate_max_in_range [of R g q mx] assms(2,3) by auto
qed

lemma shuffle_loop:
  assumes "in_range_gen gen (int n - 1)" and "\<forall>i \<in> set is. 0 \<le> i \<and> i < int n" and "length vs = n"
  shows "\<exists>ws g'. rfold (shuffle_step gen (int n)) is (vs, g) = Inr (ws, g') \<and> mset ws = mset vs"
  using assms(2,3)
proof (induction "is" arbitrary: vs g)
  case Nil
  then show ?case by simp
next
  case (Cons i "is")
  obtain p g1 where p: "gen (int n - 1) g = Inr (p, g1)" "0 \<le> p" "p \<le> int n - 1"
    using in_range_genE [OF assms(1)] by metis
  have "\<exists>ws. shuffle_step gen (int n) i (vs, g) = Inr (ws, g1)"
    using p Cons.prems by (simp add: shuffle_step_def)
  then obtain ws where ws: "shuffle_step gen (int n) i (vs, g) = Inr (ws, g1)" ..
  with shuffle_step_mset [OF ws] Cons.IH [of ws g1] Cons.prems show ?case by auto
qed

lemma shuffle_permutes:
  assumes "vs \<noteq> [] \<Longrightarrow> in_range_gen gen (int (length vs) - 1)"
  shows "\<exists>ws g'. shuffle gen vs g = Inr (ws, g') \<and> mset ws = mset vs"
proof (cases "vs = []")
  case True
  then show ?thesis by (simp add: shuffle_def)
next
  case False
  then show ?thesis
    using shuffle_loop [OF assms, of "rev [0..int (length vs) - 1]" vs g] by (simp add: shuffle_def Let_def)
qed

section \<open>Positions\<close>

lemma position_below_absent: "(\<forall>i < k. vs ! i \<noteq> city) \<Longrightarrow> position_below k vs city = - 1"
  by (induction k) auto

lemma position_below_found:
  "i < k \<Longrightarrow> vs ! i = city \<Longrightarrow> (\<forall>j < k. vs ! j = city \<longrightarrow> j \<le> i) \<Longrightarrow> position_below k vs city = int i"
  by (induction k) (auto simp: less_Suc_eq)

lemma GetCityPosition_absent: "city \<notin> set vs \<Longrightarrow> GetCityPosition vs city = - 1"
  unfolding GetCityPosition_def by (rule position_below_absent) (metis nth_mem)

lemma GetCityPosition_nth:
  "distinct vs \<Longrightarrow> i < length vs \<Longrightarrow> GetCityPosition vs (vs ! i) = int i"
  unfolding GetCityPosition_def
  by (rule position_below_found) (auto dest: distinct_index_unique)

lemma GetCityPosition_member:
  assumes "city \<in> set vs"
  obtains i where "i < length vs" "vs ! i = city" "distinct vs \<Longrightarrow> GetCityPosition vs city = int i"
  using assms GetCityPosition_nth by (metis in_set_conv_nth)

section \<open>The choice of the next city\<close>

text \<open>
  \<open>nearest dst cur C next\<close>: \<open>next\<close> is \<open>NULL\<close> when there is no candidate in \<open>C\<close>, otherwise a
  candidate such that no candidate is closer to \<open>cur\<close>.
\<close>

definition nearest :: "distance \<Rightarrow> ptr \<Rightarrow> ptr set \<Rightarrow> ptr \<Rightarrow> bool" where
  "nearest dst cur C next \<longleftrightarrow>
     (if C = {} then next = None
      else next \<in> C \<and> (\<forall>y \<in> C. \<forall>a b. dst cur y = Inr a \<longrightarrow> dst cur next = Inr b \<longrightarrow> \<not> flt a b))"

definition distances_defined :: "distance \<Rightarrow> ptr set \<Rightarrow> bool" where
  "distances_defined dst S \<longleftrightarrow> (\<forall>x \<in> S. \<forall>y \<in> S. \<exists>d. dst x y = Inr d)"

lemma distances_definedE:
  assumes "distances_defined dst S" and "x \<in> S" and "y \<in> S"
  obtains d where "dst x y = Inr d"
  using assms unfolding distances_defined_def by blast

lemma nearest_empty [simp]: "nearest dst cur {} next \<longleftrightarrow> next = None"
  by (simp add: nearest_def)

lemma nearest_member: "nearest dst cur C next \<Longrightarrow> C \<noteq> {} \<Longrightarrow> next \<in> C"
  by (simp add: nearest_def)

lemma SelectNextCity_nearest:
  assumes "nearest dst cur C best" and "distances_defined dst S"
    and "cur \<in> S" and "x \<in> S" and "C \<subseteq> S" and "None \<notin> S"
  shows "\<exists>y. SelectNextCity dst cur best x = Inr y \<and> nearest dst cur (insert x C) y"
proof (cases "C = {}")
  case True
  with assms(1) have "best = None" by simp
  then show ?thesis by (auto simp: SelectNextCity_def nearest_def True)
next
  case False
  then have best: "best \<in> C" and none_closer: "\<And>y a b. y \<in> C \<Longrightarrow> dst cur y = Inr a \<Longrightarrow> dst cur best = Inr b \<Longrightarrow> \<not> flt a b"
    using assms(1) by (auto simp: nearest_def)
  have nn: "best \<noteq> None" using best assms(5,6) by (metis subsetD)
  obtain a where a: "dst cur best = Inr a"
    using distances_definedE assms(2,3,5) best by blast
  obtain b where b: "dst cur x = Inr b"
    using distances_definedE assms(2,3,4) by blast
  have sel: "SelectNextCity dst cur best x = Inr (if flt b a then x else best)"
    using nn by (auto simp: SelectNextCity_def a b)
  have "nearest dst cur (insert x C) (if flt b a then x else best)"
    using best a b none_closer flt_trans [of _ b a] by (fastforce simp: nearest_def)
  with sel show ?thesis by blast
qed

text \<open>\<open>marks t xs X\<close>: the flags \<open>t\<close> mark the positions of \<open>xs\<close> whose city is in \<open>X\<close>.\<close>

definition marks :: "bool list \<Rightarrow> ptr list \<Rightarrow> ptr set \<Rightarrow> bool" where
  "marks t xs X \<longleftrightarrow> length t = length xs \<and> (\<forall>i < length xs. t ! i \<longleftrightarrow> xs ! i \<in> X)"

lemma try_neighbour_nearest:
  assumes "nearest dst cur C best" and "distances_defined dst S" and "cur \<in> S"
    and "marks t c X" and "set c \<subseteq> S" and "C \<subseteq> S" and "None \<notin> S" and "0 \<le> i" and "i < int (length c)"
  shows "\<exists>y. try_neighbour dst cur t c i best = Inr y \<and> nearest dst cur (C \<union> ({c ! nat i} - X)) y"
proof (cases "c ! nat i \<in> X")
  case True
  then show ?thesis
    using assms by (auto simp: try_neighbour_def marks_def nat_less_iff intro!: exI [of _ best])
next
  case False
  have "c ! nat i \<in> S" using assms(5,8,9) by (meson nat_less_iff nth_mem subsetD)
  then obtain y where "SelectNextCity dst cur best (c ! nat i) = Inr y" "nearest dst cur (insert (c ! nat i) C) y"
    using SelectNextCity_nearest [OF assms(1,2,3)] assms(6,7) by blast
  moreover have "C \<union> ({c ! nat i} - X) = insert (c ! nat i) C" using False by blast
  ultimately show ?thesis
    using False assms(4,8,9) by (auto simp: try_neighbour_def marks_def nat_less_iff)
qed

text \<open>The two cyclic neighbours of a position.\<close>

definition previous_pos :: "int \<Rightarrow> int \<Rightarrow> int" where
  "previous_pos n pos = (pos - 1) mod n"

definition next_pos :: "int \<Rightarrow> int \<Rightarrow> int" where
  "next_pos n pos = (pos + 1) mod n"

definition neighbours :: "ptr list \<Rightarrow> int \<Rightarrow> ptr set" where
  "neighbours c pos =
     {c ! nat (previous_pos (int (length c)) pos), c ! nat (next_pos (int (length c)) pos)}"

lemma consider_parent_eq:
  assumes "2 \<le> n" and "0 \<le> pos" and "pos < n"
  shows "consider_parent dst n cur pos t c next =
    rbind (try_neighbour dst cur t c (previous_pos n pos) next)
      (try_neighbour dst cur t c (next_pos n pos))"
proof -
  have "(pos - 1) mod n = (if pos = 0 then n - 1 else pos - 1)"
    using assms by (auto simp: zmod_minus1 mod_pos_pos_trivial)
  moreover have "(pos + 1) mod n = (if pos < n - 1 then pos + 1 else 0)"
    using assms by (cases "pos = n - 1") auto
  ultimately show ?thesis
    using assms by (auto simp: consider_parent_def previous_pos_def next_pos_def)
qed

lemma consider_parent_nearest:
  assumes "nearest dst cur C best" and "distances_defined dst S" and "cur \<in> S"
    and "marks t c X" and "set c \<subseteq> S" and "C \<subseteq> S" and "None \<notin> S"
    and "2 \<le> length c" and "0 \<le> pos" and "pos < int (length c)"
  shows "\<exists>y. consider_parent dst (int (length c)) cur pos t c best = Inr y
    \<and> nearest dst cur (C \<union> (neighbours c pos - X)) y"
proof -
  let ?n = "int (length c)"
  have r: "0 \<le> previous_pos ?n pos" "previous_pos ?n pos < ?n" "0 \<le> next_pos ?n pos" "next_pos ?n pos < ?n"
    unfolding previous_pos_def next_pos_def using assms(8) by (intro pos_mod_sign pos_mod_bound; linarith)+
  obtain y where y: "try_neighbour dst cur t c (previous_pos ?n pos) best = Inr y"
      "nearest dst cur (C \<union> ({c ! nat (previous_pos ?n pos)} - X)) y"
    using try_neighbour_nearest [OF assms(1-7) r(1,2)] by blast
  have "c ! nat (previous_pos ?n pos) \<in> S" using assms(5) r by (meson nat_less_iff nth_mem subsetD)
  then have sub: "C \<union> ({c ! nat (previous_pos ?n pos)} - X) \<subseteq> S" using assms(6) by blast
  obtain z where z: "try_neighbour dst cur t c (next_pos ?n pos) y = Inr z"
      "nearest dst cur (C \<union> ({c ! nat (previous_pos ?n pos)} - X) \<union> ({c ! nat (next_pos ?n pos)} - X)) z"
    using try_neighbour_nearest [OF y(2) assms(2-5) sub assms(7) r(3,4)] by blast
  have "C \<union> ({c ! nat (previous_pos ?n pos)} - X) \<union> ({c ! nat (next_pos ?n pos)} - X)
      = C \<union> (neighbours c pos - X)"
    by (auto simp: neighbours_def)
  with y(1) z assms(8-10) show ?thesis by (simp add: consider_parent_eq)
qed

section \<open>The random fallback\<close>

lemma fallback_scan_finds:
  assumes "marks t c X" and "length c = n" and "0 < n" and "0 \<le> r" and "r < int n" and "n < 2 ^ 30"
    and "\<forall>j \<in> set js. 0 \<le> j \<and> j < int n"
  shows "\<exists>y. fallback_scan (int n) t c r js = Inr y \<and>
    (if (\<exists>j \<in> set js. c ! nat ((r + j) mod int n) \<notin> X) then y \<in> set c - X else y = None)"
  using assms(7)
proof (induction js)
  case Nil
  then show ?case by simp
next
  case (Cons j js)
  have "int_range (r + j)" using assms(4-6) Cons.prems by (simp add: int_range_def)
  moreover have "c_mod (r + j) (int n) = (r + j) mod int n"
    using assms(3,4) Cons.prems by (intro c_mod_nonneg) auto
  moreover have m: "0 \<le> (r + j) mod int n" "(r + j) mod int n < int n" using assms(3) by auto
  moreover from m have "nat ((r + j) mod int n) < n" by (simp add: nat_less_iff)
  ultimately show ?case
    using assms(1-3) Cons by (auto simp: chk_ok int_mod_def marks_def)
qed

lemma fallback_covers:
  assumes "0 < n" and "i < n" and "0 \<le> r"
  shows "\<exists>j \<in> set (rev [0..int n - 1]). nat ((r + j) mod int n) = i"
proof
  let ?j = "(int i - r) mod int n"
  show "?j \<in> set (rev [0..int n - 1])" using assms by simp
  have "(r + ?j) mod int n = int i mod int n" by (simp add: mod_add_right_eq)
  also have "\<dots> = int i" using assms by simp
  finally show "nat ((r + ?j) mod int n) = i" by simp
qed

lemma fallback_complete:
  assumes "marks t c X" and "length c = n" and "0 < n" and "0 \<le> r" and "r < int n" and "n < 2 ^ 30"
  shows "\<exists>y. fallback_scan (int n) t c r (rev [0..int n - 1]) = Inr y \<and>
    (if set c \<subseteq> X then y = None else y \<in> set c - X)"
proof -
  let ?free = "\<exists>j \<in> set (rev [0..int n - 1]). c ! nat ((r + j) mod int n) \<notin> X"
  have e: "set c \<subseteq> X \<longleftrightarrow> \<not> ?free" (is "?l \<longleftrightarrow> ?r")
  proof
    assume ?l
    have "nat ((r + j) mod int n) < length c" for j using assms(2,3) by (simp add: nat_less_iff)
    with \<open>?l\<close> show ?r by (meson nth_mem subsetD)
  next
    assume r: ?r
    show ?l
    proof
      fix x assume "x \<in> set c"
      then obtain i where i: "i < n" "x = c ! i" using assms(2) by (auto simp: in_set_conv_nth)
      with fallback_covers [OF assms(3) i(1) assms(4)] r show "x \<in> X" by blast
    qed
  qed
  have "\<forall>j \<in> set (rev [0..int n - 1]). 0 \<le> j \<and> j < int n" by simp
  then obtain y where y: "fallback_scan (int n) t c r (rev [0..int n - 1]) = Inr y"
      "if ?free then y \<in> set c - X else y = None"
    using fallback_scan_finds [OF assms] by blast
  show ?thesis
    by (rule exI [of _ y]) (metis e y)
qed

section \<open>The crossover terminates and permutes\<close>

text \<open>Two tours of the same at least two cities, and a working generator and distance.\<close>

definition parents_ok ::
  "distance \<Rightarrow> 'g generator \<Rightarrow> ('op, ptr, 'd) domain_block \<Rightarrow> ptr list \<Rightarrow> ptr list \<Rightarrow> bool" where
  "parents_ok dst gen B p1 p2 \<longleftrightarrow> db_domains B = [] \<and> length p2 = length p1
     \<and> 2 \<le> length p1 \<and> length p1 < 2 ^ 30 \<and> distinct p1 \<and> distinct p2 \<and> set p2 = set p1
     \<and> None \<notin> set p1 \<and> distances_defined dst (set p1) \<and> in_range_gen gen (int (length p1) - 1)"

definition crossover_inv :: "ptr list \<Rightarrow> ptr list \<Rightarrow> 'g crossover_state \<Rightarrow> bool" where
  "crossover_inv p1 p2 s \<longleftrightarrow> marks (x_first s) p1 (set (x_child s)) \<and> marks (x_second s) p2 (set (x_child s))
     \<and> distinct (x_child s) \<and> set (x_child s) \<subseteq> set p1
     \<and> x_current s \<in> set p1 \<and> x_current s \<notin> set (x_child s)"

text \<open>The untaken cities next to \<open>city\<close> in either parent.\<close>

definition candidates :: "ptr list \<Rightarrow> ptr list \<Rightarrow> ptr \<Rightarrow> ptr set \<Rightarrow> ptr set" where
  "candidates p1 p2 city X =
     (neighbours p2 (GetCityPosition p2 city) \<union> neighbours p1 (GetCityPosition p1 city)) - X"

lemma marks_update:
  assumes "marks t c X" and "distinct c" and "i < length c"
  shows "marks (t[i := True]) c (insert (c ! i) X)"
  using assms by (auto simp: marks_def nth_list_update nth_eq_iff_index_eq)

lemma neighbours_subset: "2 \<le> length c \<Longrightarrow> neighbours c pos \<subseteq> set c"
proof -
  assume "2 \<le> length c"
  then have n: "0 < int (length c)" by linarith
  then have "nat (previous_pos (int (length c)) pos) < length c" "nat (next_pos (int (length c)) pos) < length c"
    using pos_mod_bound [OF n] pos_mod_sign [OF n] by (simp_all add: previous_pos_def next_pos_def nat_less_iff)
  then show ?thesis by (auto simp: neighbours_def)
qed

lemma crossover_step_correct:
  assumes ok: "parents_ok dst gen B p1 p2" and inv: "crossover_inv p1 p2 s"
  shows "\<exists>s' again. crossover_step dst gen B (int (length p1)) p1 p2 s = Inr (s', again)
    \<and> x_child s' = x_child s @ [x_current s]
    \<and> (again \<longrightarrow> crossover_inv p1 p2 s'
         \<and> (candidates p1 p2 (x_current s) (set (x_child s')) \<noteq> {} \<longrightarrow>
              nearest dst (x_current s) (candidates p1 p2 (x_current s) (set (x_child s'))) (x_current s')))
    \<and> (\<not> again \<longrightarrow> set p1 \<subseteq> set (x_child s'))"
proof -
  let ?n = "length p1" and ?cur = "x_current s" and ?X = "insert (x_current s) (set (x_child s))"
  from ok have B: "db_domains B = []" and len: "length p2 = ?n" "2 \<le> ?n" "?n < 2 ^ 30"
    and dis: "distinct p1" "distinct p2" and same: "set p2 = set p1" and nn: "None \<notin> set p1"
    and dd: "distances_defined dst (set p1)" and gr: "in_range_gen gen (int ?n - 1)"
    by (simp_all add: parents_ok_def)
  from inv have m: "marks (x_first s) p1 (set (x_child s))" "marks (x_second s) p2 (set (x_child s))"
    and cur: "?cur \<in> set p1" "?cur \<notin> set (x_child s)"
    and ch: "distinct (x_child s)" "set (x_child s) \<subseteq> set p1"
    by (simp_all add: crossover_inv_def)
  obtain i where i: "i < ?n" "p1 ! i = ?cur" "GetCityPosition p1 ?cur = int i"
    using GetCityPosition_member [OF cur(1)] dis(1) by blast
  have "?cur \<in> set p2" using cur(1) same by simp
  then obtain j where j: "j < length p2" "p2 ! j = ?cur" "GetCityPosition p2 ?cur = int j"
    using GetCityPosition_member dis(2) by metis
  let ?tf = "(x_first s)[i := True]" and ?ts = "(x_second s)[j := True]" and ?child = "x_child s @ [?cur]"
  have tf: "marks ?tf p1 ?X" using marks_update [OF m(1) dis(1) i(1)] i(2) by simp
  have ts: "marks ?ts p2 ?X" using marks_update [OF m(2) dis(2) j(1)] j(2) by simp
  have ins: "mv_Insert B (int (length (x_child s))) (Some [?cur]) 1 (x_child s) = Inr ?child"
    by (rule mv_Insert_one_at_end [OF B])
  have vf: "vset (x_first s) (int i) True = Inr ?tf" and vs: "vset (x_second s) (int j) True = Inr ?ts"
    using m i(1) j(1) by (simp_all add: marks_def)
  let ?N2 = "neighbours p2 (int j) - ?X" and ?N = "candidates p1 p2 ?cur ?X"
  have N: "?N = ?N2 \<union> (neighbours p1 (int i) - ?X)" by (auto simp: candidates_def i(3) j(3))
  obtain y where y: "consider_parent dst (int ?n) ?cur (int j) ?ts p2 None = Inr y" "nearest dst ?cur ({} \<union> ?N2) y"
    using consider_parent_nearest [of dst ?cur "{}" None "set p1" ?ts p2 ?X "int j"] dd cur(1) ts same nn len j(1)
    by auto
  have "?N2 \<subseteq> set p1" using neighbours_subset [of p2 "int j"] len same by auto
  then obtain z where z: "consider_parent dst (int ?n) ?cur (int i) ?tf p1 y = Inr z" "nearest dst ?cur ?N z"
    using consider_parent_nearest [of dst ?cur ?N2 y "set p1" ?tf p1 ?X "int i"] y(2) dd cur(1) tf nn len(2) i(1)
    unfolding N by auto
  have Nsub: "?N \<subseteq> set p1 - ?X"
    unfolding N using neighbours_subset [of p2 "int j"] neighbours_subset [of p1 "int i"] len same by auto
  let ?next = "if z = None
      then rbind (gen (int ?n - 1) (x_gen s)) (\<lambda>(r, g').
           rbind (fallback_scan (int ?n) ?tf p1 r (rev [0..int ?n - 1])) (\<lambda>c. Inr (c, g')))
      else Inr (z, x_gen s)"
  have "\<exists>c g'. ?next = Inr (c, g') \<and> (c = None \<longrightarrow> set p1 \<subseteq> ?X) \<and> (c \<noteq> None \<longrightarrow> c \<in> set p1 - ?X) \<and> (?N \<noteq> {} \<longrightarrow> c = z)"
  proof (cases "z = None")
    case True
    then have "?N = {}" using nearest_member [OF z(2)] Nsub nn by blast
    have n: "0 < ?n" using len(2) by linarith
    obtain r g' where r: "gen (int ?n - 1) (x_gen s) = Inr (r, g')" "0 \<le> r" "r < int ?n"
      using in_range_genE [OF gr, of "x_gen s"] by (metis zle_diff1_eq)
    obtain c where c: "fallback_scan (int ?n) ?tf p1 r (rev [0..int ?n - 1]) = Inr c"
        "if set p1 \<subseteq> ?X then c = None else c \<in> set p1 - ?X"
      using fallback_complete [OF tf refl n r(2,3) len(3)] by blast
    have "(c = None \<longrightarrow> set p1 \<subseteq> ?X) \<and> (c \<noteq> None \<longrightarrow> c \<in> set p1 - ?X)"
      using c(2) nn by (metis Diff_iff)
    with True r(1) c(1) \<open>?N = {}\<close> show ?thesis by simp
  next
    case False
    then have "?N \<noteq> {}" using z(2) by auto
    with False nearest_member [OF z(2)] Nsub show ?thesis by auto
  qed
  then obtain c g' where c: "?next = Inr (c, g')" "c = None \<longrightarrow> set p1 \<subseteq> ?X" "c \<noteq> None \<longrightarrow> c \<in> set p1 - ?X"
      "?N \<noteq> {} \<longrightarrow> c = z" by blast
  let ?s = "s\<lparr>x_child := ?child, x_first := ?tf, x_second := ?ts, x_gen := g'\<rparr>"
  have step: "crossover_step dst gen B (int ?n) p1 p2 s =
      (if c = None then Inr (?s, False) else Inr (?s\<lparr>x_current := c\<rparr>, True))"
    using c(1) by (simp add: crossover_step_def i(3) j(3) ins vf vs y(1) z(1) Let_def)
  have X: "set ?child = ?X" by auto
  show ?thesis
  proof (cases "c = None")
    case True
    with step c(2) X show ?thesis by (intro exI [of _ ?s] exI [of _ False]) simp
  next
    case False
    have "crossover_inv p1 p2 (?s\<lparr>x_current := c\<rparr>)"
      using tf ts ch cur c(3) False by (simp add: crossover_inv_def)
    moreover have "?N \<noteq> {} \<longrightarrow> nearest dst ?cur ?N c" using z(2) c(4) by simp
    ultimately show ?thesis
      using step False by (intro exI [of _ "?s\<lparr>x_current := c\<rparr>"] exI [of _ True]) simp
  qed
qed

lemma crossover_loop_correct:
  assumes ok: "parents_ok dst gen B p1 p2"
  shows "crossover_inv p1 p2 s \<Longrightarrow>
    \<exists>s'. crossover_loop dst gen B (int (length p1)) p1 p2 s = Some (Inr s')
      \<and> distinct (x_child s') \<and> set (x_child s') = set p1"
proof (induction "length p1 - length (x_child s)" arbitrary: s rule: less_induct)
  case less
  obtain s' again where st: "crossover_step dst gen B (int (length p1)) p1 p2 s = Inr (s', again)"
      "x_child s' = x_child s @ [x_current s]" "again \<longrightarrow> crossover_inv p1 p2 s'"
      "\<not> again \<longrightarrow> set p1 \<subseteq> set (x_child s')"
    using crossover_step_correct [OF ok less.prems] by blast
  have ch: "distinct (x_child s')" "set (x_child s') \<subseteq> set p1"
    using less.prems st(2) by (auto simp: crossover_inv_def)
  have "length (x_child s') \<le> length p1"
    using ch by (metis List.finite_set card_mono distinct_card card_length order_trans)
  then have dec: "length p1 - length (x_child s') < length p1 - length (x_child s)"
    using st(2) by simp
  show ?case
  proof (cases again)
    case True
    with less.hyps [OF dec] st show ?thesis
      by (simp add: crossover_loop.simps [of _ _ _ _ _ _ s])
  next
    case False
    with st ch show ?thesis by (auto simp: crossover_loop.simps [of _ _ _ _ _ _ s])
  qed
qed

lemma crossover_correct:
  assumes ok: "parents_ok dst gen B (mv_values c1) (mv_values c2)"
  shows "\<exists>child g'. TspCrossover dst gen B (int (length (mv_values c1))) c1 c2 g = Some (Inr (child, g'))
    \<and> mset (mv_values child) = mset (mv_values c1) \<and> dc_configBlock child = dc_configBlock c1"
proof -
  let ?p1 = "mv_values c1" and ?p2 = "mv_values c2"
  let ?n = "length ?p1"
  from ok have len: "2 \<le> ?n" "length ?p2 = ?n" and dis: "distinct ?p1" and gr: "in_range_gen gen (int ?n - 1)"
    by (simp_all add: parents_ok_def)
  obtain k g1 where k: "gen (int ?n - 1) g = Inr (k, g1)" "0 \<le> k" "k < int ?n"
    using in_range_genE [OF gr, of g] by (metis zle_diff1_eq)
  let ?cur = "?p1 ! nat k"
  let ?s = "\<lparr>x_child = [], x_first = replicate ?n False, x_second = replicate ?n False, x_current = ?cur, x_gen = g1\<rparr>"
  have "crossover_inv ?p1 ?p2 ?s"
    using k len by (simp add: crossover_inv_def marks_def nat_less_iff)
  then obtain s' where s': "crossover_loop dst gen B (int ?n) ?p1 ?p2 ?s = Some (Inr s')"
      "distinct (x_child s')" "set (x_child s') = set ?p1"
    using crossover_loop_correct [OF ok] by blast
  have "mset (x_child s') = mset ?p1" using s'(2,3) dis by (simp add: set_eq_iff_mset_eq_distinct)
  moreover have "TspCrossover dst gen B (int ?n) c1 c2 g
      = Some (Inr ((mv_copy c1 True)\<lparr>mv_values := x_child s'\<rparr>, x_gen s'))"
    using k s'(1) by (simp add: TspCrossover_def TspChromosome_MakeCopy_def)
  ultimately show ?thesis
    by (simp add: mv_copy_def default_copy_def default_chromosome.defs)
qed

section \<open>The length of a tour\<close>

text \<open>The sum of the whole-number distances \<open>f\<close> from each city to the one before it, cyclically.\<close>

definition tour_length :: "(ptr \<Rightarrow> ptr \<Rightarrow> int) \<Rightarrow> ptr list \<Rightarrow> int" where
  "tour_length f v = (\<Sum>i<length v. f (v ! i) (v ! (if i \<noteq> 0 then i - 1 else length v - 1)))"

lemma rev_upto_Suc: "rev [0..int k] = int k # rev [0..int k - 1]"
  using upto_rec2 [of 0 "int k"] by simp

lemma fitness_loop:
  assumes d: "\<And>i. i < length v \<Longrightarrow>
      dst (v ! i) (v ! (if i \<noteq> 0 then i - 1 else length v - 1)) = Inr (Num (of_int (L i)))"
    and L: "\<And>i. 0 \<le> L i"
  shows "k \<le> length v \<Longrightarrow> 0 \<le> acc \<Longrightarrow> acc + (\<Sum>i<k. L i) < 2 ^ 24 \<Longrightarrow>
    rfold (fitness_step dst v) (rev [0..int k - 1]) (Num (of_int acc)) = Inr (Num (of_int (acc + (\<Sum>i<k. L i))))"
proof (induction k arbitrary: acc)
  case 0
  then show ?case by simp
next
  case (Suc k)
  have nonneg: "0 \<le> (\<Sum>i<k. L i)" using L by (simp add: sum_nonneg)
  have s: "acc + L k + (\<Sum>i<k. L i) < 2 ^ 24" using Suc.prems(3) by simp
  have k: "k < length v" using Suc.prems(1) by simp
  have idx: "vget v (if int k \<noteq> 0 then int k - 1 else int (length v) - 1)
      = Inr (v ! (if k \<noteq> 0 then k - 1 else length v - 1))"
    using k by (auto simp: vget_def nat_diff_distrib)
  have "fadd round32 (Num (of_int acc)) (Num (of_int (L k))) = Num (of_int (acc + L k))"
    using s nonneg L [of k] Suc.prems(2) by (intro fadd32_exact) auto
  then have "fitness_step dst v (int k) (Num (of_int acc)) = Inr (Num (of_int (acc + L k)))"
    unfolding fitness_step_def idx using k d [OF k] by simp
  moreover have "rfold (fitness_step dst v) (rev [0..int k - 1]) (Num (of_int (acc + L k)))
      = Inr (Num (of_int (acc + L k + (\<Sum>i<k. L i))))"
    using Suc.IH [of "acc + L k"] Suc.prems(1,2) L [of k] s by simp
  ultimately show ?case by (simp add: rev_upto_Suc ac_simps)
qed

lemma TspFitness_exact:
  assumes d: "\<And>a b. a \<in> set (mv_values c) \<Longrightarrow> b \<in> set (mv_values c) \<Longrightarrow> dst a b = Inr (Num (of_int (f a b)))"
    and pos: "\<And>a b. 0 \<le> f a b" and small: "tour_length f (mv_values c) < 2 ^ 24"
  shows "TspFitness dst c = Inr (Num (of_int (tour_length f (mv_values c))))"
proof -
  let ?v = "mv_values c"
  let ?L = "\<lambda>i. f (?v ! i) (?v ! (if i \<noteq> 0 then i - 1 else length ?v - 1))"
  have "dst (?v ! i) (?v ! (if i \<noteq> 0 then i - 1 else length ?v - 1)) = Inr (Num (of_int (?L i)))"
    if "i < length ?v" for i
    using that by (intro d nth_mem) auto
  from fitness_loop [of ?v dst ?L, OF this pos, of "length ?v" 0] small
  show ?thesis by (simp add: TspFitness_def tour_length_def Let_def)
qed

section \<open>Too few cities\<close>

lemma crossover_step_single:
  assumes "p1 = [c]" and "p2 = [c]" and "db_domains B = []"
  shows "crossover_step dst gen B 1 p1 p2
    \<lparr>x_child = [], x_first = [False], x_second = [False], x_current = c, x_gen = g\<rparr> = Inl OutOfBounds"
proof -
  have "GetCityPosition [c] c = 0" by (simp add: GetCityPosition_def)
  then show ?thesis
    using mv_Insert_one_at_end [OF assms(3), of "[]" c] assms(1,2)
    by (simp add: crossover_step_def consider_parent_def try_neighbour_def vget_def vset_def)
qed

section \<open>Cities of the singleton\<close>

text \<open>The distance table has an entry for every two cities in use.\<close>

definition matrix_index :: "TspCity \<Rightarrow> TspCity \<Rightarrow> int \<times> int" where
  "matrix_index a b =
     (if 0 < city_originId a then (city_originId a - 1, city_originId b - 1)
      else (city_id a - 1, city_id b - 1))"

definition matrix_covers :: "VectorMutualData list list \<Rightarrow> world \<Rightarrow> bool" where
  "matrix_covers m w \<longleftrightarrow>
     (\<forall>p \<in> snd ` set (w_cities w). \<forall>q \<in> snd ` set (w_cities w). \<forall>a b.
        deref w p = Inr a \<longrightarrow> deref w q = Inr b \<longrightarrow>
        (case matrix_index a b of (i, j) \<Rightarrow>
           0 \<le> i \<and> i < int (length m) \<and> 0 \<le> j \<and> j < int (length (m ! nat i))))"

lemma cities_deref:
  assumes "cities_ok w" and "no_null w" and "p \<in> snd ` set (w_cities w)"
  shows "\<exists>a. p = Some a \<and> (\<exists>c. deref w p = Inr c \<and> (city_id c, p) \<in> set (w_cities w))"
proof -
  from assms(3) obtain k where k: "(k, p) \<in> set (w_cities w)" by auto
  with assms(2) obtain a where a: "p = Some a" unfolding no_null_def by (cases p) force+
  with cities_okD(3) [OF assms(1)] k obtain c where "w_heap w a = Some c" "city_id c = k" by blast
  with a k show ?thesis by (auto simp: deref_def)
qed

lemma cities_distances_defined:
  assumes "cities_ok w" and "no_null w" and "matrix_covers m w"
  shows "distances_defined (ptr_distance m w) (snd ` set (w_cities w))"
  unfolding distances_defined_def
proof (intro ballI)
  fix p q assume pq: "p \<in> snd ` set (w_cities w)" "q \<in> snd ` set (w_cities w)"
  obtain a b where ab: "deref w p = Inr a" "deref w q = Inr b"
    using cities_deref [OF assms(1,2)] pq by blast
  have "case matrix_index a b of (i, j) \<Rightarrow>
      0 \<le> i \<and> i < int (length m) \<and> 0 \<le> j \<and> j < int (length (m ! nat i))"
    using assms(3) [unfolded matrix_covers_def, rule_format, OF pq ab] .
  then show "\<exists>d. ptr_distance m w p q = Inr d"
    by (auto simp: ptr_distance_def ab TspCity_GetDistance_def matrix_index_def split: if_splits)
qed

lemma cities_distinct:
  assumes "cities_ok w" and "no_null w"
  shows "distinct (map snd (w_cities w))"
proof -
  have d: "distinct (map fst (w_cities w))" using cities_okD(1) [OF assms(1)] by (simp add: hm_inv_def)
  have "inj_on snd (set (w_cities w))"
  proof (rule inj_onI)
    fix x y assume xy: "x \<in> set (w_cities w)" "y \<in> set (w_cities w)" "snd x = snd y"
    obtain a where "snd x = Some a" using cities_deref [OF assms, of "snd x"] xy(1) by auto
    with xy cities_okD(3) [OF assms(1), of "fst x" a] cities_okD(3) [OF assms(1), of "fst y" a]
    show "x = y" by (metis option.inject prod.collapse)
  qed
  with d show ?thesis by (simp add: distinct_map)
qed

end
