(* ===== verification/Evolution.thy ===== *)
theory Evolution
  imports Tour
begin

text \<open>
  The chromosomes the genetic algorithm can ever hold, as an inductive set over the operations
  of \<open>TspAlgorithm.cpp\<close> and \<open>MultiValueChromosome.h\<close> that make or change one, and the
  properties of tours.
\<close>

section \<open>Chromosomes of a run\<close>

text \<open>
  \<open>Swap\<close> is what \<open>GaSwapMutation\<close> calls, with positions and sizes of its choice; a rejected
  mutation restores the backup.
\<close>

inductive evolved ::
  "distance \<Rightarrow> 'g generator \<Rightarrow> ('op, ptr, 'd) domain_block \<Rightarrow> city_order \<Rightarrow> world \<Rightarrow> TspChromosome \<Rightarrow> bool"
  for dst :: distance and gen :: "'g generator" and B :: "('op, ptr, 'd) domain_block"
    and ord :: city_order and w :: world where
  evolved_new: "evolved dst gen B ord w c"
    if "TspChromosome_MakeNewFromPrototype gen ord w proto g = Inr (c, g')"
| evolved_copy: "evolved dst gen B ord w (TspChromosome_MakeCopy c False)"
    if "evolved dst gen B ord w c"
| evolved_crossover: "evolved dst gen B ord w c"
    if "evolved dst gen B ord w c1" "evolved dst gen B ord w c2"
      "TspCrossover dst gen B (GetCount w) c1 c2 g = Some (Inr (c, g'))"
| evolved_swap: "evolved dst gen B ord w (c\<lparr>mv_values := vs\<rparr>)"
    if "evolved dst gen B ord w c" "mv_Swap start1 size1 start2 size2 (mv_values c) = Inr vs"
| evolved_reject: "evolved dst gen B ord w (RejectMutation ((PreapareForMutation c)\<lparr>mv_values := vs\<rparr>))"
    if "evolved dst gen B ord w c" "mv_backup c = []"
| evolved_accept: "evolved dst gen B ord w (AcceptMutation c)"
    if "evolved dst gen B ord w c"
| evolved_assign: "evolved dst gen B ord w (mv_assign c d)"
    if "evolved dst gen B ord w c" "evolved dst gen B ord w d"
| evolved_fitness: "evolved dst gen B ord w d"
    if "evolved dst gen B ord w c" "default_RefreshFitness (TspFitness dst) c = Inr d"

inductive_cases evolved_elim: "evolved dst gen B ord w c"

section \<open>Tours of all cities\<close>

definition is_tour :: "city_order \<Rightarrow> world \<Rightarrow> TspChromosome \<Rightarrow> bool" where
  "is_tour ord w c \<longleftrightarrow> mset (mv_values c) = mset (GetCities ord w)"

lemma GetCities_mset:
  "iteration_order ord \<Longrightarrow> mset (GetCities ord w) = mset (map snd (w_cities w))"
  by (simp add: GetCities_def iteration_order_def)

lemma is_tour_list:
  assumes "iteration_order ord" and "is_tour ord w c"
  shows "length (mv_values c) = length (w_cities w)" and "set (mv_values c) = snd ` set (w_cities w)"
    and "cities_ok w \<Longrightarrow> no_null w \<Longrightarrow> distinct (mv_values c)"
proof -
  have m: "mset (mv_values c) = mset (map snd (w_cities w))"
    using assms by (simp add: is_tour_def GetCities_mset del: mset_map)
  from mset_eq_length [OF m] show "length (mv_values c) = length (w_cities w)" by simp
  from mset_eq_setD [OF m] show "set (mv_values c) = snd ` set (w_cities w)" by simp
  show "cities_ok w \<Longrightarrow> no_null w \<Longrightarrow> distinct (mv_values c)"
    using cities_distinct mset_eq_imp_distinct_iff [OF m] by blast
qed

lemma tours_parents_ok:
  assumes w: "cities_ok w" "no_null w" "matrix_covers m w" and ord: "iteration_order ord"
    and R: "unit_doubles R" and n: "2 \<le> GetCount w" "GetCount w < 2 ^ 30"
    and t: "is_tour ord w c1" "is_tour ord w c2" and B: "db_domains B = []"
  shows "parents_ok (ptr_distance m w) (GaRandomInteger_Generate_max R) B (mv_values c1) (mv_values c2)
    \<and> int (length (mv_values c1)) = GetCount w"
proof -
  have "None \<notin> snd ` set (w_cities w)" using w(2) by (simp add: no_null_def)
  moreover have "in_range_gen (GaRandomInteger_Generate_max R) (int (length (w_cities w)) - 1)"
    using n by (intro Generate_max_in_range_gen [OF R]) (auto simp: GetCount_def)
  ultimately show ?thesis
    using is_tour_list [OF ord t(1)] is_tour_list [OF ord t(2)] cities_distances_defined [OF w] w n B
    by (simp add: parents_ok_def GetCount_def)
qed

lemma crossover_of_tours:
  assumes "cities_ok w" "no_null w" "matrix_covers m w" and "iteration_order ord"
    and "unit_doubles R" and "2 \<le> GetCount w" "GetCount w < 2 ^ 30"
    and "is_tour ord w c1" "is_tour ord w c2" and "db_domains B = []"
  shows "\<exists>child g'. TspCrossover (ptr_distance m w) (GaRandomInteger_Generate_max R) B (GetCount w) c1 c2 g
      = Some (Inr (child, g')) \<and> is_tour ord w child"
proof -
  have ok: "parents_ok (ptr_distance m w) (GaRandomInteger_Generate_max R) B (mv_values c1) (mv_values c2)"
    and n: "GetCount w = int (length (mv_values c1))"
    using tours_parents_ok [OF assms] by auto
  from crossover_correct [OF ok, of g] assms(8) show ?thesis
    unfolding n is_tour_def by auto
qed

lemma new_tour:
  assumes "GetCities ord w \<noteq> [] \<Longrightarrow> in_range_gen gen (int (length (GetCities ord w)) - 1)"
  shows "\<exists>c g'. TspChromosome_MakeNewFromPrototype gen ord w proto g = Inr (c, g') \<and> is_tour ord w c"
  using shuffle_permutes [OF assms, of g]
  by (auto simp: TspChromosome_MakeNewFromPrototype_def is_tour_def Let_def)

lemma swap_keeps_tour:
  "is_tour ord w c \<Longrightarrow> mv_Swap a m b n (mv_values c) = Inr vs \<Longrightarrow> is_tour ord w (c\<lparr>mv_values := vs\<rparr>)"
  by (simp add: is_tour_def mv_Swap_mset)

section \<open>A small concrete world\<close>

definition sample_fields :: city_fields where
  "sample_fields = \<lparr>f_name = [], f_x = Num 0, f_y = Num 0, f_guestId = [], f_isShop = [],
     f_jusoSubId = [], f_accno = [], f_accnoDuple = [], f_guestName = [], f_guestTel = [],
     f_guestJuso = [], f_pay = [], f_guestLat = [], f_guestLon = []\<rparr>"

definition empty_world :: world where
  "empty_world = \<lparr>w_nextId = 0, w_heap = Map.empty, w_fresh = 0, w_cities = [], w_fTmp = []\<rparr>"

definition sample_world :: world where
  "sample_world = added sample_fields 0 (added sample_fields 0 (added sample_fields 0 empty_world))"

definition sample_entry :: "string \<Rightarrow> VectorMutualData" where
  "sample_entry d = \<lparr>vd_seq = [], vd_guestId = [], vd_guestJusoSubId = [], vd_deguestId = [],
     vd_deguestJusoSubId = [], vd_guestLat = [], vd_guestLon = [], vd_deguestLat = [], vd_deguestLon = [],
     vd_distanceValue = d, vd_guestDate = [], vd_deguestDate = [], vd_createDate = [], vd_updateDate = [],
     vd_guestIsShop = [], vd_deguestIsShop = []\<rparr>"

definition sample_matrix :: "VectorMutualData list list" where
  "sample_matrix = replicate 3 (replicate 3 (sample_entry ''7''))"

definition sample_raw :: "nat raw_gen" where
  "sample_raw = \<lparr>raw_uint = (\<lambda>g. (0, g)), raw_float = (\<lambda>g. (Num (1 / 2), g)), raw_double = (\<lambda>g. (Num (1 / 2), g))\<rparr>"

definition sample_block :: "(unit, ptr, unit) domain_block" where
  "sample_block = \<lparr>pb_parameters = None, ob_fitness = None, ob_comparator = None, ob_mutation = None,
     ob_crossover = None, db_domains = []\<rparr>"

definition sample_tour :: TspChromosome where
  "sample_tour = \<lparr>dc_fitness = None, dc_configBlock = 0, mv_values = [Some 1, Some 0, Some 2], mv_backup = []\<rparr>"

lemma empty_world_ok: "cities_ok empty_world \<and> no_null empty_world"
  by (simp add: cities_ok_def no_null_def empty_world_def hm_inv_def)

lemma sample_world_ok: "cities_ok sample_world" "no_null sample_world"
  using empty_world_ok by (simp_all add: sample_world_def added_ok added_no_null)

lemma sample_world_cities: "w_cities sample_world = [(1, Some 0), (2, Some 1), (3, Some 2)]"
  by (simp add: sample_world_def added_def empty_world_def hm_insert_def hm_find_def)

lemma sample_world_deref:
  "deref sample_world (Some k) =
     (if k < 3 then Inr \<lparr>city_id = int k + 1, city_originId = 0, city_data = sample_fields\<rparr> else Inl Dangling)"
  by (auto simp: deref_def sample_world_def added_def empty_world_def Let_def)

lemma sample_matrix_covers: "matrix_covers sample_matrix sample_world"
  by (auto simp: matrix_covers_def sample_world_cities sample_world_deref matrix_index_def sample_matrix_def)

lemma sample_unit_doubles: "unit_doubles sample_raw"
  unfolding unit_doubles_def by (intro allI exI [of _ "1 / 2"]) (simp add: sample_raw_def)

lemma sample_is_tour: "is_tour (\<lambda>m. m) sample_world sample_tour"
  by (simp add: is_tour_def GetCities_def sample_world_cities sample_tour_def)

lemmas sample_facts = sample_world_ok sample_matrix_covers iteration_order_id sample_unit_doubles sample_is_tour

definition sample_distance :: distance where
  "sample_distance a b = Inr (Num (case b of None \<Rightarrow> 0 | Some k \<Rightarrow> of_nat k))"

definition sample_path :: "ptr list" where
  "sample_path = [Some 0, Some 1, Some 2, Some 3]"

definition sample_state :: "unit crossover_state" where
  "sample_state = \<lparr>x_child = [], x_first = replicate 4 False, x_second = replicate 4 False,
     x_current = Some 0, x_gen = ()\<rparr>"

lemma sample_parents_ok: "parents_ok sample_distance (\<lambda>mx g. Inr (0, g)) sample_block sample_path sample_path"
  by (simp add: parents_ok_def sample_block_def sample_path_def distances_defined_def sample_distance_def in_range_gen_def)

lemma sample_state_inv: "crossover_inv sample_path sample_path sample_state"
  by (simp add: crossover_inv_def marks_def sample_path_def sample_state_def)

lemma sample_candidates:
  "candidates sample_path sample_path (Some 0) {Some 0} = {Some 3, Some 1}"
  by (auto simp: candidates_def neighbours_def GetCityPosition_def sample_path_def previous_pos_def next_pos_def)

lemma sample_step: "\<exists>s'. crossover_step sample_distance (\<lambda>mx g. Inr (0, g)) sample_block
    (int (length sample_path)) sample_path sample_path sample_state = Inr (s', True)"
proof -
  obtain t again where t: "crossover_step sample_distance (\<lambda>mx g. Inr (0, g)) sample_block
      (int (length sample_path)) sample_path sample_path sample_state = Inr (t, again)"
      "x_child t = x_child sample_state @ [x_current sample_state]"
      "\<not> again \<longrightarrow> set sample_path \<subseteq> set (x_child t)"
    using crossover_step_correct [OF sample_parents_ok sample_state_inv] by blast
  then have again by (auto simp: sample_state_def sample_path_def)
  with t(1) show ?thesis by auto
qed

text \<open>The invariant of a run: every chromosome is a tour of the stored cities.\<close>

lemma evolved_tour:
  assumes "evolved (ptr_distance m w) (GaRandomInteger_Generate_max R) B ord w c"
    and "cities_ok w" and "no_null w" and "matrix_covers m w" and "iteration_order ord"
    and "unit_doubles R" and "2 \<le> GetCount w" and "GetCount w < 2 ^ 30" and "db_domains B = []"
  shows "is_tour ord w c"
  using assms(1)
proof (induction rule: evolved.induct)
  case (evolved_new proto g c g')
  have "length (GetCities ord w) = length (w_cities w)"
    using mset_eq_length [OF GetCities_mset [OF assms(5)]] by simp
  then have "in_range_gen (GaRandomInteger_Generate_max R) (int (length (GetCities ord w)) - 1)"
    using assms(7,8) by (intro Generate_max_in_range_gen [OF assms(6)]) (auto simp: GetCount_def)
  with new_tour [of ord w "GaRandomInteger_Generate_max R" proto g] evolved_new show ?case
    by (auto simp: is_tour_def)
next
  case (evolved_copy c)
  then show ?case by (simp add: is_tour_def TspChromosome_MakeCopy_def)
next
  case (evolved_crossover c1 c2 g c g')
  with crossover_of_tours [OF assms(2-8), of c1 c2 B g] assms(9) show ?case
    by (auto simp: is_tour_def)
next
  case (evolved_swap c start1 size1 start2 size2 vs)
  then show ?case by (simp add: swap_keeps_tour)
next
  case (evolved_reject c vs)
  with Reject_restores [OF evolved_reject(2), of vs] show ?case by (simp add: is_tour_def)
next
  case (evolved_accept c)
  then show ?case by (simp add: is_tour_def AcceptMutation_def)
next
  case (evolved_assign c d)
  then show ?case by (simp add: is_tour_def mv_assign_def default_assign_def)
next
  case (evolved_fitness c d)
  then show ?case by (auto simp: is_tour_def default_RefreshFitness_def rbind_eq_Inr)
qed

section \<open>Properties\<close>

text \<open>
  C2. Crossing over two tours of the stored cities returns, without a fault and after finitely
  many rounds, a tour that visits every stored city exactly once. It needs at least two cities
  (and fewer than \<open>2 ^ 30\<close>, so that \<open>startRandom + j\<close> fits an \<open>int\<close>), a distance table that covers
  them, and a generator that draws doubles in (0, 1) as documented.
\<close>

theorem crossover_child_is_tour:
  assumes "cities_ok w" and "no_null w" and "matrix_covers m w" and "iteration_order ord"
    and "unit_doubles R" and "2 \<le> GetCount w" and "GetCount w < 2 ^ 30"
    and "mset (mv_values c1) = mset (GetCities ord w)" and "mset (mv_values c2) = mset (GetCities ord w)"
    and "db_domains B = []"
  shows "\<exists>child g'. TspCrossover (ptr_distance m w) (GaRandomInteger_Generate_max R) B (GetCount w) c1 c2 g
      = Some (Inr (child, g')) \<and> mset (mv_values child) = mset (GetCities ord w)"
  using crossover_of_tours [of w m ord R c1 c2 B g] assms by (simp add: is_tour_def)

theorem crossover_child_is_tour_witness:
  "\<exists>child g'. TspCrossover (ptr_distance sample_matrix sample_world) (GaRandomInteger_Generate_max sample_raw)
      sample_block (GetCount sample_world) sample_tour sample_tour 0 = Some (Inr (child, g'))
    \<and> mset (mv_values child) = mset (GetCities (\<lambda>m. m) sample_world)"
  by (rule crossover_child_is_tour [OF sample_world_ok sample_matrix_covers iteration_order_id sample_unit_doubles])
    (simp_all add: GetCount_def GetCities_def sample_world_cities sample_tour_def sample_block_def)

text \<open>
  C8. Every chromosome a run can hold is a tour: built from the prototype, copied, crossed
  over, mutated by swapping parts of its code, restored from its backup, assigned or
  re-evaluated, it visits every stored city exactly once.
\<close>

theorem evolved_is_tour:
  assumes "evolved (ptr_distance m w) (GaRandomInteger_Generate_max R) B ord w c"
    and "cities_ok w" and "no_null w" and "matrix_covers m w" and "iteration_order ord"
    and "unit_doubles R" and "2 \<le> GetCount w" and "GetCount w < 2 ^ 30" and "db_domains B = []"
  shows "mset (mv_values c) = mset (GetCities ord w)"
  using evolved_tour [OF assms] by (simp add: is_tour_def)

theorem evolved_is_tour_witness:
  "\<exists>c. evolved (ptr_distance sample_matrix sample_world) (GaRandomInteger_Generate_max sample_raw)
      sample_block (\<lambda>m. m) sample_world c \<and> mset (mv_values c) = mset (GetCities (\<lambda>m. m) sample_world)"
proof -
  have "GetCities (\<lambda>m. m) sample_world \<noteq> [] \<Longrightarrow>
      in_range_gen (GaRandomInteger_Generate_max sample_raw) (int (length (GetCities (\<lambda>m. m) sample_world)) - 1)"
    by (rule Generate_max_in_range_gen [OF sample_unit_doubles]) (simp_all add: GetCities_def sample_world_cities)
  then obtain c g' where "TspChromosome_MakeNewFromPrototype (GaRandomInteger_Generate_max sample_raw)
      (\<lambda>m. m) sample_world sample_tour 0 = Inr (c, g')"
    using new_tour [of "\<lambda>m. m" sample_world "GaRandomInteger_Generate_max sample_raw" sample_tour 0] by blast
  then have e: "evolved (ptr_distance sample_matrix sample_world) (GaRandomInteger_Generate_max sample_raw)
      sample_block (\<lambda>m. m) sample_world c" by (rule evolved_new)
  have "mset (mv_values c) = mset (GetCities (\<lambda>m. m) sample_world)"
    by (rule evolved_is_tour [OF e sample_world_ok sample_matrix_covers iteration_order_id sample_unit_doubles])
      (simp_all add: GetCount_def sample_world_cities sample_block_def)
  with e show ?thesis by blast
qed

text \<open>
  C13. Each round of the crossover continues greedily: when one of the cities next to the current
  one in either parent is not yet visited, the next city is one of those, and no other of them
  is closer to the current city.
\<close>

theorem crossover_step_greedy:
  assumes "parents_ok dst gen B p1 p2" and "crossover_inv p1 p2 s"
    and "candidates p1 p2 (x_current s) (insert (x_current s) (set (x_child s))) \<noteq> {}"
    and "crossover_step dst gen B (int (length p1)) p1 p2 s = Inr (s', True)"
  shows "x_current s' \<in> candidates p1 p2 (x_current s) (insert (x_current s) (set (x_child s)))
    \<and> (\<forall>y \<in> candidates p1 p2 (x_current s) (insert (x_current s) (set (x_child s))).
         \<forall>a b. dst (x_current s) y = Inr a \<longrightarrow> dst (x_current s) (x_current s') = Inr b \<longrightarrow> \<not> flt a b)"
proof -
  obtain t again where t: "crossover_step dst gen B (int (length p1)) p1 p2 s = Inr (t, again)"
      "x_child t = x_child s @ [x_current s]"
      "again \<longrightarrow> candidates p1 p2 (x_current s) (set (x_child t)) \<noteq> {} \<longrightarrow>
         nearest dst (x_current s) (candidates p1 p2 (x_current s) (set (x_child t))) (x_current t)"
    using crossover_step_correct [OF assms(1,2)] by blast
  moreover have "set (x_child t) = insert (x_current s) (set (x_child s))" using t(2) by simp
  ultimately show ?thesis using assms(3,4) by (simp add: nearest_def)
qed

theorem crossover_step_greedy_witness:
  "\<exists>s'. crossover_step sample_distance (\<lambda>mx g. Inr (0, g)) sample_block
      (int (length sample_path)) sample_path sample_path sample_state = Inr (s', True)
    \<and> x_current s' \<in> {Some 3, Some 1}
    \<and> (\<forall>y \<in> {Some 3, Some 1}. \<forall>a b. sample_distance (Some 0) y = Inr a \<longrightarrow>
         sample_distance (Some 0) (x_current s') = Inr b \<longrightarrow> \<not> flt a b)"
proof -
  obtain s' where s': "crossover_step sample_distance (\<lambda>mx g. Inr (0, g)) sample_block
      (int (length sample_path)) sample_path sample_path sample_state = Inr (s', True)"
    using sample_step by blast
  have c: "candidates sample_path sample_path (x_current sample_state)
      (insert (x_current sample_state) (set (x_child sample_state))) = {Some 3, Some 1}"
    using sample_candidates by (simp add: sample_state_def)
  have "candidates sample_path sample_path (x_current sample_state)
      (insert (x_current sample_state) (set (x_child sample_state))) \<noteq> {}" unfolding c by simp
  from crossover_step_greedy [OF sample_parents_ok sample_state_inv this s'] s'
  show ?thesis unfolding c by (auto simp: sample_state_def)
qed

text \<open>
  C10. While the distances are whole numbers and the tour is shorter than \<open>2 ^ 24\<close>, the fitness
  computed in single precision is exactly the length of the closed tour.
\<close>

theorem fitness_is_tour_length:
  assumes "\<And>a b. a \<in> set (mv_values c) \<Longrightarrow> b \<in> set (mv_values c) \<Longrightarrow> dst a b = Inr (Num (of_int (f a b)))"
    and "\<And>a b. 0 \<le> f a b" and "tour_length f (mv_values c) < 2 ^ 24"
  shows "TspFitness dst c = Inr (Num (of_int (tour_length f (mv_values c))))"
  by (rule TspFitness_exact [OF assms])

theorem fitness_is_tour_length_witness:
  "TspFitness (\<lambda>a b. Inr (Num 5)) sample_tour = Inr (Num 15)"
  using fitness_is_tour_length [of sample_tour "\<lambda>a b. Inr (Num 5)" "\<lambda>a b. 5"]
  by (simp add: tour_length_def sample_tour_def)

text \<open>
  With a single city the crossover reads the flag array past its end: at position 0 it looks
  at \<open>taken[ pos + 1 ]\<close> without comparing it with the number of cities.
\<close>

theorem crossover_single_city_faults:
  assumes "mv_values c1 = [city]" and "mv_values c2 = [city]" and "db_domains B = []"
    and "gen 0 g = Inr (0, g')"
  shows "TspCrossover dst gen B 1 c1 c2 g = Some (Inl OutOfBounds)"
  using assms crossover_step_single [of "[city]" city "[city]" B dst gen g']
  by (simp add: TspCrossover_def TspChromosome_MakeCopy_def vget_def crossover_loop.simps)

theorem crossover_single_city_faults_witness:
  "TspCrossover (\<lambda>a b. Inr (Num 0)) (\<lambda>mx g. Inr (0, g)) sample_block 1
     (sample_tour\<lparr>mv_values := [Some 0]\<rparr>) (sample_tour\<lparr>mv_values := [Some 0]\<rparr>) () = Some (Inl OutOfBounds)"
  by (rule crossover_single_city_faults [of _ "Some 0"]) (simp_all add: sample_block_def)

text \<open>
  A new chromosome is a random permutation of the stored cities: the shuffle never faults
  and neither loses nor repeats a city, whatever the generator draws in its range.
\<close>

theorem new_chromosome_is_tour:
  assumes "GetCities ord w \<noteq> [] \<Longrightarrow> in_range_gen gen (int (length (GetCities ord w)) - 1)"
  shows "\<exists>c g'. TspChromosome_MakeNewFromPrototype gen ord w proto g = Inr (c, g')
    \<and> mset (mv_values c) = mset (GetCities ord w) \<and> dc_configBlock c = dc_configBlock proto"
  using shuffle_permutes [OF assms, of g]
  by (auto simp: TspChromosome_MakeNewFromPrototype_def TspChromosome_new_def mv_new_def default_new_def
      default_chromosome.defs Let_def)

theorem new_chromosome_is_tour_witness:
  "\<exists>c g'. TspChromosome_MakeNewFromPrototype (\<lambda>mx g. Inr (0, g)) (\<lambda>m. m) sample_world sample_tour ()
      = Inr (c, g') \<and> mset (mv_values c) = mset (GetCities (\<lambda>m. m) sample_world)
      \<and> dc_configBlock c = dc_configBlock sample_tour"
  by (rule new_chromosome_is_tour) (simp add: in_range_gen_def GetCities_def sample_world_cities)

end
