(* ===== verification/Sql.thy ===== *)
theory Sql
  imports CStrings
begin

text \<open>
  The SQL texts of \<open>TSP/TspView.cpp\<close>, as the format strings its \<open>sprintf\<close> calls use (the tabs of
  the continued source lines are part of them), and when a formatted text fits its buffer.
\<close>

definition tabs :: "nat \<Rightarrow> string" where
  "tabs n = replicate n (CHR 0x09)"

section \<open>SQL texts\<close>

definition sql_set_names :: "piece list" where
  "sql_set_names = [Txt (''set names euckr'')]"

definition sql_order_count :: "piece list" where
  "sql_order_count = [
     Txt (''SELECT COUNT(*) FROM ( SELECT * FROM ( SELECT * FROM vehicleAllocateResult WHERE 1=1 AND vr_deliveryDate=''),
     Quoted, Txt ('' AND vr_meridiemType=''), Quoted, Txt ('' AND vr_meridiemFlag=''), Quoted,
     Txt ('' AND vr_vehicleNo=''), Quoted, Txt ('' AND vr_locationId=''), Quoted,
     Txt ('' AND vr_errorJusoFlag != '' @ [quote_char] @ ''Y'' @ [quote_char] @ '' GROUP BY vr_deguestAccno ) AS A GROUP BY A.vr_deguestLat, A.vr_deguestLon ORDER BY A.vr_deguestAccno ) AS B'')]"

definition sql_orders :: "piece list" where
  "sql_orders = [
     Txt (''SELECT *        FROM ( SELECT * FROM ( SELECT * FROM vehicleAllocateResult WHERE 1=1 AND vr_deliveryDate=''),
     Quoted, Txt ('' AND vr_meridiemType=''), Quoted, Txt ('' AND vr_meridiemFlag=''), Quoted,
     Txt ('' AND vr_vehicleNo=''), Quoted, Txt ('' AND vr_locationId=''), Quoted,
     Txt ('' AND vr_errorJusoFlag != '' @ [quote_char] @ ''Y'' @ [quote_char] @ '' GROUP BY vr_deguestAccno ) AS A GROUP BY A.vr_deguestLat, A.vr_deguestLon ORDER BY A.vr_deguestAccno ) AS B'')]"

definition sql_order_detail :: "piece list" where
  "sql_order_detail = [Txt (''select * from vehicleGuestOrderData where 1=1 and ve_accno=''),
     Quoted, Txt ('' and ve_locationId=''), Quoted, Txt ('' and ve_deliveryDate=''), Quoted,
     Txt ('' and ve_meridiemType=''), Quoted, Txt ('' and ve_meridiemFlag=''), Quoted,
     Txt ('' and ve_guestId=''), Quoted, Txt ('' and ve_isShop=''), Quoted]"

definition sql_order_pay :: "piece list" where
  "sql_order_pay = [
     Txt (''SELECT SUM(ve_pay) FROM vehicleGuestOrderData WHERE 1=1 AND ve_deliveryDate = ''),
     Quoted, Txt ('' AND ve_meridiemType = ''), Quoted, Txt ('' AND ve_meridiemFlag = ''), Quoted,
     Txt ('' AND ve_locationId = ''), Quoted, Txt ('' AND ve_accnoDupleJuso=''), Quoted,
     Txt ('' AND ve_errorJusoFlag !='' @ [quote_char] @ ''Y'' @ [quote_char])]"

definition sql_mutual :: "piece list" where
  "sql_mutual = [
     Txt (''SELECT'' @ tabs 1 @ '' vd_seq '' @ tabs 9 @ '',vd_guestId '' @ tabs 9 @ '',vd_guestJusoSubId '' @ tabs 9 @ '',vd_deguestId '' @ tabs 9 @ '',vd_deguestJusoSubId '' @ tabs 9 @ '',vd_guestLat '' @ tabs 9 @ '',vd_guestLon '' @ tabs 9 @ '',vd_deguestLat '' @ tabs 9 @ '',vd_deguestLon '' @ tabs 9 @ '',vd_distanceValue '' @ tabs 9 @ '',vd_guestDate '' @ tabs 9 @ '',vd_deguestDate '' @ tabs 9 @ '',vd_guestIsShop '' @ tabs 9 @ '',vd_deguestIsShop '' @ tabs 9 @ '',vd_createDate '' @ tabs 9 @ '',vd_updateDate '' @ tabs 10 @ ''FROM vehicleGuestMutualDistance WHERE 1 = 1 '' @ tabs 12 @ ''AND vd_guestId = ''),
     Quoted, Txt ('' '' @ tabs 12 @ ''AND vd_guestJusoSubId = ''), Quoted,
     Txt ('' '' @ tabs 12 @ ''AND vd_guestIsShop=''), Quoted,
     Txt ('' '' @ tabs 12 @ ''AND vd_deguestId = ''), Quoted,
     Txt ('' '' @ tabs 12 @ ''AND vd_deguestJusoSubId = ''), Quoted,
     Txt ('' '' @ tabs 12 @ ''AND vd_deguestIsShop=''), Quoted]"

definition sql_pay_total :: "piece list" where
  "sql_pay_total = [
     Txt (''SELECT SUM(ve_pay) FROM vehicleGuestOrderData WHERE 1=1 AND ve_deliveryDate=''),
     Quoted, Txt ('' AND ve_meridiemType=''), Quoted, Txt ('' AND ve_meridiemFlag=''), Quoted,
     Txt ('' AND ve_locationId=''), Quoted,
     Txt ('' AND ve_isJuso = '' @ [quote_char] @ ''Y'' @ [quote_char])]"

definition sql_pay_accno :: "piece list" where
  "sql_pay_accno = [
     Txt (''SELECT SUM(ve_pay) AS paySum FROM vehicleGuestOrderData WHERE 1=1 AND ve_deliveryDate=''),
     Quoted, Txt ('' AND ve_meridiemType=''), Quoted, Txt ('' AND ve_meridiemFlag=''), Quoted,
     Txt ('' AND ve_locationId=''), Quoted, Txt ('' AND ve_accno=''), Quoted,
     Txt ('' AND ve_isShop=''), Quoted,
     Txt ('' AND ve_isJuso = '' @ [quote_char] @ ''Y'' @ [quote_char])]"

definition sql_pay_accnoDuple :: "piece list" where
  "sql_pay_accnoDuple = [
     Txt (''SELECT SUM(ve_pay) AS paySum FROM vehicleGuestOrderData WHERE 1=1 AND ve_deliveryDate=''),
     Quoted, Txt ('' AND ve_meridiemType=''), Quoted, Txt ('' AND ve_meridiemFlag=''), Quoted,
     Txt ('' AND ve_locationId=''), Quoted, Txt ('' AND ve_accnoDupleJuso=''), Quoted,
     Txt ('' AND ve_isJuso = '' @ [quote_char] @ ''Y'' @ [quote_char])]"

definition sql_delete :: "piece list" where
  "sql_delete = [Txt (''DELETE FROM vehicleAllocateResult WHERE 1=1 AND vr_deliveryDate=''),
     Quoted, Txt ('' AND vr_meridiemType=''), Quoted, Txt ('' AND vr_meridiemFlag=''), Quoted,
     Txt ('' AND vr_vehicleNo=''), Quoted,
     Txt ('' and vr_errorJusoFlag != '' @ [quote_char] @ ''Y'' @ [quote_char])]"

definition sql_distance :: "piece list" where
  "sql_distance = [
     Txt (''SELECT vd_seq, vd_guestId, vd_guestJusoSubId, vd_deguestId, vd_deguestJusoSubId, vd_guestLat, vd_guestLon, vd_deguestLat, vd_deguestLon, vd_distanceValue, vd_guestDate, vd_deguestDate, vd_jsonData, vd_guestIsShop, vd_deguestIsShop, vd_createDate, vd_updateDate '' @ tabs 11 @ ''FROM vehicleGuestMutualDistance WHERE 1 = 1 '' @ tabs 13 @ ''AND vd_guestId = ''),
     Quoted, Txt ('' '' @ tabs 13 @ ''AND vd_guestJusoSubId = ''), Quoted,
     Txt ('' '' @ tabs 13 @ ''AND vd_guestIsShop=''), Quoted,
     Txt ('' '' @ tabs 13 @ ''AND vd_deguestId = ''), Quoted,
     Txt ('' '' @ tabs 13 @ ''AND vd_deguestJusoSubId = ''), Quoted,
     Txt ('' '' @ tabs 13 @ ''AND vd_deguestIsShop=''), Quoted]"

definition sql_insert :: "piece list" where
  "sql_insert = [Txt (''insert into vehicleAllocateResult set vr_deguestAccno=''), Quoted,
     Txt ('', vr_deguestName=''), Quoted, Txt ('', vr_deguestTel=''), Quoted,
     Txt ('', vr_deguestPay=''), Quoted, Txt ('', vr_guestId=''), Quoted,
     Txt ('', vr_deguestId=''), Quoted, Txt ('', vr_guestJusoSubId=''), Quoted,
     Txt ('', vr_deguestJusoSubId=''), Quoted, Txt ('', vr_vehicleNo=''), Quoted,
     Txt ('', vr_vehicleNoIndex=''), QuotedInt, Txt ('', vr_guestLat=''), Quoted,
     Txt ('', vr_guestLon=''), Quoted, Txt ('', vr_deguestLat=''), Quoted,
     Txt ('', vr_deguestLon=''), Quoted, Txt ('', vr_Juso=''), Quoted,
     Txt ('', vr_distanceValue=''), QuotedInt, Txt ('', vr_locationId=''), Quoted,
     Txt ('', vr_deliveryDate=''), Quoted, Txt ('', vr_meridiemType=''), Quoted,
     Txt ('', vr_delivererId=''), Quoted, Txt ('',vr_deliveryEndId=''), Quoted,
     Txt ('', vr_deliveryStatus=''), Quoted, Txt ('', vr_jsonData=''), Quoted,
     Txt ('', vr_createDate=''), Str, Txt ('', vr_guestIsShop=''), Quoted,
     Txt ('', vr_deguestIsShop=''), Quoted, Txt ('', vr_accnoDupleJuso=''), Quoted,
     Txt ('', vr_meridiemFlag=''), Quoted, Txt ('' '')]"

definition sql_guest_info :: "piece list" where
  "sql_guest_info = [
     Txt ('' SELECT ve_guestName, ve_guestJuso FROM vehicleGuestOrderData WHERE 1=1 AND ve_deliveryDate=''),
     Quoted, Txt ('' AND ve_meridiemType=''), Quoted, Txt ('' AND ve_meridiemFlag=''), Quoted,
     Txt ('' AND ve_locationId=''), Quoted, Txt ('' AND ve_accno=''), Quoted,
     Txt ('' AND ve_guestId=''), Quoted, Txt ('' AND ve_guestJusoSubId=''), Quoted,
     Txt ('' AND ve_guestLat=''), Quoted, Txt ('' AND ve_guestLon=''), Quoted,
     Txt ('' AND ve_IsShop=''), Quoted]"

definition sql_duplicates :: "piece list" where
  "sql_duplicates = [Txt ('' SELECT * FROM vehicleGuestOrderData WHERE 1=1 AND ve_deliveryDate=''),
     Quoted, Txt ('' AND ve_meridiemType=''), Quoted, Txt ('' AND ve_meridiemFlag=''), Quoted,
     Txt ('' AND ve_locationId=''), Quoted, Txt ('' AND ve_accnoDupleJuso=''), Quoted, Txt ('' '')]"

definition sql_error_rows :: "piece list" where
  "sql_error_rows = [Txt (''select * from vehicleAllocateResult where 1=1 and vr_deliveryDate=''),
     Quoted, Txt ('' AND vr_meridiemType=''), Quoted, Txt ('' AND vr_meridiemFlag=''), Quoted,
     Txt ('' AND vr_vehicleNo=''), Quoted,
     Txt ('' and vr_errorJusoFlag = '' @ [quote_char] @ ''Y'' @ [quote_char])]"

definition sql_error_update :: "piece list" where
  "sql_error_update = [Txt (''update vehicleAllocateResult set vr_vehicleNoIndex=''), QuotedInt,
     Txt ('' where vr_seq=''), Quoted]"

section \<open>Formats that fit\<close>

text \<open>The arguments a format consumes, and the length of the text it prints.\<close>

fun arity_ok :: "piece list \<Rightarrow> arg list \<Rightarrow> bool" where
  "arity_ok [] xs = True"
| "arity_ok (Txt t # ps) xs = arity_ok ps xs"
| "arity_ok (Str # ps) (AStr s # xs) = arity_ok ps xs"
| "arity_ok (Quoted # ps) (AStr s # xs) = arity_ok ps xs"
| "arity_ok (QuotedInt # ps) (AInt n # xs) = arity_ok ps xs"
| "arity_ok ps xs = False"

fun arg_size :: "arg \<Rightarrow> nat" where
  "arg_size (AStr s) = length s"
| "arg_size (AInt n) = length (show_int n)"

fun text_size :: "piece list \<Rightarrow> nat" where
  "text_size [] = 0"
| "text_size (Txt t # ps) = length t + text_size ps"
| "text_size (Str # ps) = text_size ps"
| "text_size (p # ps) = 2 + text_size ps"

lemma format_ok:
  "arity_ok ps xs \<Longrightarrow> \<exists>r. format ps xs = Inr r \<and> length r \<le> text_size ps + sum_list (map arg_size xs)"
  by (induction ps xs rule: arity_ok.induct) auto

lemma sprintf_ok:
  assumes "arity_ok ps xs" and "text_size ps + sum_list (map arg_size xs) < cap"
  shows "\<exists>r. sprintf cap ps xs = Inr r"
  using format_ok [OF assms(1)] assms(2) by (auto simp: sprintf_def strcpy_def)

text \<open>The sizes of the texts of the program, and the arguments they take.\<close>

lemma format_sizes:
  "text_size sql_set_names = 15" "text_size sql_order_count = 330" "text_size sql_orders = 330"
  "text_size sql_order_detail = 186" "text_size sql_mutual = 653" "text_size sql_delete = 160"
  "text_size sql_distance = 537" "text_size sql_guest_info = 275" "text_size sql_insert = 563"
  "text_size sql_error_rows = 161" "text_size sql_order_pay = 205" "text_size sql_duplicates = 162"
  "text_size sql_error_update = 69"
  by code_simp+

lemma format_arities:
  "arity_ok sql_set_names []"
  "arity_ok sql_order_count [AStr a, AStr b, AStr c, AStr d, AStr e]"
  "arity_ok sql_orders [AStr a, AStr b, AStr c, AStr d, AStr e]"
  "arity_ok sql_order_detail [AStr a, AStr b, AStr c, AStr d, AStr e, AStr f, AStr g]"
  "arity_ok sql_mutual [AStr a, AStr b, AStr c, AStr d, AStr e, AStr f]"
  "arity_ok sql_delete [AStr a, AStr b, AStr c, AStr d]"
  "arity_ok sql_distance [AStr a, AStr b, AStr c, AStr d, AStr e, AStr f]"
  "arity_ok sql_guest_info [AStr a, AStr b, AStr c, AStr d, AStr e, AStr f, AStr g, AStr h, AStr i, AStr j]"
  "arity_ok sql_error_rows [AStr a, AStr b, AStr c, AStr d]"
  "arity_ok sql_order_pay [AStr a, AStr b, AStr c, AStr d, AStr e]"
  "arity_ok sql_duplicates [AStr a, AStr b, AStr c, AStr d, AStr e]"
  "arity_ok sql_error_update [AInt n, AStr a]"
  by (simp_all add: sql_set_names_def sql_order_count_def sql_orders_def sql_order_detail_def sql_mutual_def
      sql_delete_def sql_distance_def sql_guest_info_def sql_error_rows_def sql_order_pay_def sql_duplicates_def
      sql_error_update_def)

lemma insert_arity: "arity_ok sql_insert [AStr a0, AStr a1, AStr a2, AStr a3, AStr a4, AStr a5, AStr a6, AStr a7, AStr a8, AInt a9, AStr a10, AStr a11, AStr a12, AStr a13, AStr a14, AInt a15, AStr a16, AStr a17, AStr a18, AStr a19, AStr a20, AStr a21, AStr a22, AStr a23, AStr a24, AStr a25, AStr a26, AStr a27]"
  by (simp add: sql_insert_def)

end
