(* ===== verification/Session.thy ===== *)
theory Session
  imports Tour Sql
begin

text \<open>
  The state of \<open>TSPView\<close> (\<open>TSP/TspView.h\<close>), the world it runs in (the MySQL server and the
  running genetic algorithm, parameters of the model), and
  the way its methods are composed: an action reads and changes the program state, stops with a
  fault, or returns early with a result code.
\<close>

section \<open>The program state\<close>

text \<open>Row of \<open>_vectorOrderData\<close>: the contents of its \<open>char\<close> arrays.\<close>

record VectorOrderData =
  ve_seq :: string
  ve_accno :: string
  ve_locationId :: string
  ve_deliveryDate :: string
  ve_meridiemType :: string
  ve_guestId :: string
  ve_guestName :: string
  ve_guestTel :: string
  ve_guestJusoSubId :: string
  ve_guestJuso :: string
  ve_pay :: string
  ve_guestLat :: string
  ve_guestLon :: string
  ve_isNew :: string
  ve_isShop :: string
  ve_isRoad :: string
  ve_createDate :: string
  ve_accnoDupleJuso :: string

text \<open>\<open>_originId\<close> of a \<open>ChromosomeCopy\<close> is never assigned.\<close>

record ChromosomeCopy =
  cc_id :: int
  cc_originId :: "int option"
  cc_data :: city_fields

record RouteEachResult =
  re_id :: int
  re_data :: city_fields

datatype GaAlgorithmState =
  GAS_UNINITIALIZED | GAS_USER_STOPED | GAS_CRITERIA_STOPPED | GAS_PAUSED | GAS_RUNNING

text \<open>
  Members the constructor leaves indeterminate are \<open>None\<close> (\<open>nCountOrderData\<close>, the pointer
  \<open>nVehiclePayIndex\<close>). \<open>p_subscribed\<close> counts the subscriptions of this observer; \<open>p_env\<close> is the
  state of the world outside.
\<close>

record 'e program =
  v_generation :: int
  v_fitness :: cnum
  v_best :: "ptr list"
  v_relocation :: "ptr list"
  v_copy :: "ChromosomeCopy list"
  v_orders :: "VectorOrderData list"
  v_mutual :: "VectorMutualData list list"
  v_routes :: "RouteEachResult list list"
  v_routesRelocated :: "RouteEachResult list list"
  v_deliveryDate :: string
  v_meridiemType :: string
  v_meridiemFlag :: string
  v_locationId :: string
  v_vehicleNo :: string
  v_vehicleNumber :: int
  v_completeLoad :: "bool option"
  v_count :: "int option"
  v_searchStart :: int
  v_vehicleFlg :: "int list"
  v_vehiclePay :: "int list"
  v_vehiclePayIndex :: "int list option"
  p_world :: world
  p_generationLimit :: int
  p_subscribed :: nat
  p_env :: 'e

section \<open>The world outside\<close>

text \<open>
  A result row is the list of its columns, \<open>None\<close> for SQL \<open>NULL\<close>. \<open>api_query c sql\<close> sends \<open>sql\<close>
  over connection \<open>c\<close> (1 for \<open>DbConn\<close>, 2 for \<open>DbConn2nd\<close>): \<open>None\<close> when \<open>mysql_query\<close> reports an error,
  else the rows that \<open>mysql_fetch_row\<close> delivers. \<open>api_events\<close> are the notifications the running
  algorithm has sent to the observer up to a poll of its state.
\<close>

type_synonym row = "string option list"

datatype event = StatisticEvent int | BestEvent "ptr list" cnum

record 'e env_api =
  api_connect :: "nat \<Rightarrow> 'e \<Rightarrow> bool \<times> 'e"
  api_query :: "nat \<Rightarrow> string \<Rightarrow> 'e \<Rightarrow> row list option \<times> 'e"
  api_set_criteria :: "int \<Rightarrow> 'e \<Rightarrow> 'e"
  api_start :: "bool \<Rightarrow> world \<Rightarrow> 'e \<Rightarrow> 'e"
  api_state :: "'e \<Rightarrow> GaAlgorithmState \<times> 'e"
  api_events :: "world \<Rightarrow> 'e \<Rightarrow> event list \<times> 'e"

section \<open>Actions\<close>

text \<open>\<open>Inl c\<close> is an early \<open>return c\<close>, \<open>Inr a\<close> goes on with \<open>a\<close>.\<close>

type_synonym ('e, 'a) act = "'e program \<Rightarrow> ((int + 'a) \<times> 'e program) res"

definition abind :: "('e, 'a) act \<Rightarrow> ('a \<Rightarrow> ('e, 'b) act) \<Rightarrow> ('e, 'b) act" where
  "abind m f s =
     rbind (m s) (\<lambda>(r, s'). case r of Inl c \<Rightarrow> Inr (Inl c, s') | Inr a \<Rightarrow> f a s')"

definition aret :: "'a \<Rightarrow> ('e, 'a) act" where
  "aret a s = Inr (Inr a, s)"

definition aexit :: "int \<Rightarrow> ('e, 'a) act" where
  "aexit c s = Inr (Inl c, s)"

definition ares :: "'a res \<Rightarrow> ('e, 'a) act" where
  "ares r s = rbind r (\<lambda>a. Inr (Inr a, s))"

definition aget :: "('e program \<Rightarrow> 'a) \<Rightarrow> ('e, 'a) act" where
  "aget f s = Inr (Inr (f s), s)"

definition amodify :: "('e program \<Rightarrow> 'e program) \<Rightarrow> ('e, unit) act" where
  "amodify f s = Inr (Inr (), f s)"

fun afor :: "('x \<Rightarrow> ('e, unit) act) \<Rightarrow> 'x list \<Rightarrow> ('e, unit) act" where
  "afor f [] = aret ()"
| "afor f (x # xs) = abind (f x) (\<lambda>_. afor f xs)"

text \<open>The \<open>int\<close> a method returns: the code of an early return, or the 0 at its end.\<close>

definition returned :: "('e, unit) act \<Rightarrow> 'e program \<Rightarrow> (int \<times> 'e program) res" where
  "returned m s = rbind (m s) (\<lambda>(r, s'). Inr (case r of Inl c \<Rightarrow> c | Inr _ \<Rightarrow> 0, s'))"

lemma act_simps [simp]:
  "abind (aret a) f = f a"
  "abind (aexit c) f = aexit c"
  "aret a s = Inr (Inr a, s)"
  "aexit c s = Inr (Inl c, s)"
  "ares r s = rbind r (\<lambda>a. Inr (Inr a, s))"
  "aget f' s = Inr (Inr (f' s), s)"
  "amodify h s = Inr (Inr (), h s)"
  by (auto simp: abind_def aret_def aexit_def ares_def aget_def amodify_def)

lemma abind_Inr: "m s = Inr (Inr a, s') \<Longrightarrow> abind m f s = f a s'"
  by (simp add: abind_def)

lemma abind_Inl: "m s = Inl e \<Longrightarrow> abind m f s = Inl e"
  by (simp add: abind_def)

lemma abind_exit: "m s = Inr (Inl c, s') \<Longrightarrow> abind m f s = Inr (Inl c, s')"
  by (simp add: abind_def)

lemma abind_eq_Inr:
  "abind m f s = Inr (r, t) \<longleftrightarrow>
     (\<exists>c. m s = Inr (Inl c, t) \<and> r = Inl c) \<or> (\<exists>a s'. m s = Inr (Inr a, s') \<and> f a s' = Inr (r, t))"
proof (cases "m s")
  case (Inl e)
  then show ?thesis by (simp add: abind_def)
next
  case (Inr p)
  then show ?thesis by (cases p; cases "fst p") (auto simp: abind_def)
qed

lemma abind_aget: "abind (aget f') g s = g (f' s) s"
  by (simp add: abind_def)

lemma abind_amodify: "abind (amodify h) g s = g () (h s)"
  by (simp add: abind_def)

lemma abind_ares: "abind (ares r) g s = rbind r (\<lambda>a. g a s)"
  by (cases r) (simp_all add: abind_def)

lemmas abind_run = abind_aget abind_amodify abind_ares

lemma abind_assoc: "abind (abind m f) g = abind m (\<lambda>a. abind (f a) g)"
  by (rule ext) (auto simp: abind_def rbind_def split: sum.splits prod.splits)

lemma afor_append: "afor f (xs @ ys) = abind (afor f xs) (\<lambda>_. afor f ys)"
proof (induction xs)
  case Nil
  show ?case by (rule ext) (simp add: abind_def)
next
  case (Cons x xs)
  then show ?case by (simp add: abind_assoc)
qed

text \<open>A loop whose body goes on and updates the state runs through; so does an invariant.\<close>

lemma afor_fold: "(\<And>x s. x \<in> set xs \<Longrightarrow> f x s = Inr (Inr (), h x s)) \<Longrightarrow> afor f xs s = Inr (Inr (), fold h xs s)"
  by (induction xs arbitrary: s) (auto simp: abind_Inr)

lemma afor_invariant:
  assumes "afor f xs s = Inr (r, t)" and "P s"
    and "\<And>x s r t. x \<in> set xs \<Longrightarrow> P s \<Longrightarrow> f x s = Inr (r, t) \<Longrightarrow> P t"
  shows "P t"
  using assms
proof (induction xs arbitrary: s)
  case Nil
  then show ?case by simp
next
  case (Cons x xs)
  from Cons.prems(1) consider c where "f x s = Inr (Inl c, t)" | s' where "f x s = Inr (Inr (), s')" "afor f xs s' = Inr (r, t)"
    by (auto simp: abind_eq_Inr)
  then show ?case
  proof cases
    case 1
    then show ?thesis using Cons.prems(2,3) by (meson list.set_intros(1))
  next
    case 2
    then have "P s'" using Cons.prems(2,3) by (meson list.set_intros(1))
    with 2(2) show ?thesis using Cons.IH Cons.prems(3) by (meson list.set_intros(2))
  qed
qed

section \<open>Database calls\<close>

text \<open>\<open>mysql_real_connect\<close>: on failure return \<open>code\<close>.\<close>

definition db_connect :: "'e env_api \<Rightarrow> nat \<Rightarrow> int \<Rightarrow> ('e, unit) act" where
  "db_connect A c code s =
     (let (ok, e) = api_connect A c (p_env s); s' = s\<lparr>p_env := e\<rparr>
      in if ok then Inr (Inr (), s') else Inr (Inl code, s'))"

text \<open>\<open>sprintf\<close> into a buffer of \<open>cap\<close> bytes, then \<open>mysql_query\<close>: on an error return \<open>code\<close>.\<close>

definition db_query ::
  "'e env_api \<Rightarrow> nat \<Rightarrow> int \<Rightarrow> nat \<Rightarrow> piece list \<Rightarrow> arg list \<Rightarrow> ('e, row list) act" where
  "db_query A c code cap ps xs s =
     rbind (sprintf cap ps xs) (\<lambda>sql.
       let (r, e) = api_query A c sql (p_env s); s' = s\<lparr>p_env := e\<rparr>
       in case r of None \<Rightarrow> Inr (Inl code, s') | Some rows \<Rightarrow> Inr (Inr rows, s'))"

text \<open>The first row (a null pointer when there is none), and a column of a row as a string.\<close>

definition first_row :: "row list \<Rightarrow> row res" where
  "first_row rows = (case rows of [] \<Rightarrow> Inl NullDeref | r # _ \<Rightarrow> Inr r)"

definition column :: "row \<Rightarrow> int \<Rightarrow> string res" where
  "column r k = rbind (vget r k) (\<lambda>v. case v of None \<Rightarrow> Inl NullDeref | Some t \<Rightarrow> Inr t)"

text \<open>\<open>strcpy( field, row[ k ] )\<close> into a field of \<open>cap\<close> bytes.\<close>

definition copy_column :: "nat \<Rightarrow> row \<Rightarrow> int \<Rightarrow> string res" where
  "copy_column cap r k = rbind (column r k) (strcpy cap)"

text \<open>A database that always answers.\<close>

definition always_answers :: "'e env_api \<Rightarrow> bool" where
  "always_answers A \<longleftrightarrow> (\<forall>c e. fst (api_connect A c e)) \<and> (\<forall>c q e. fst (api_query A c q e) \<noteq> None)"

section \<open>What an action keeps\<close>

text \<open>
  \<open>keeps f m\<close>: whenever the action \<open>m\<close> ends without a fault, with an early return or not, the
  part \<open>f\<close> of the state is what it was.
\<close>

definition keeps :: "('e program \<Rightarrow> 'b) \<Rightarrow> ('e, 'a) act \<Rightarrow> bool" where
  "keeps f m \<longleftrightarrow> (\<forall>s r t. m s = Inr (r, t) \<longrightarrow> f t = f s)"

named_theorems keeps_intros

lemma keepsD: "keeps f m \<Longrightarrow> m s = Inr (r, t) \<Longrightarrow> f t = f s"
  unfolding keeps_def by blast

lemma keeps_abind [keeps_intros]: "keeps f m \<Longrightarrow> (\<And>a. keeps f (g a)) \<Longrightarrow> keeps f (abind m g)"
  unfolding keeps_def abind_eq_Inr by metis

lemma keeps_aret [keeps_intros]: "keeps f (aret a)"
  by (simp add: keeps_def)

lemma keeps_aget [keeps_intros]: "keeps f (aget h)"
  by (simp add: keeps_def)

lemma keeps_ares [keeps_intros]: "keeps f (ares r)"
  by (auto simp: keeps_def rbind_eq_Inr)

lemma keeps_amodify [keeps_intros]: "(\<And>s. f (h s) = f s) \<Longrightarrow> keeps f (amodify h)"
  by (simp add: keeps_def)

lemma keeps_afor [keeps_intros]: "(\<And>x. keeps f (h x)) \<Longrightarrow> keeps f (afor h xs)"
  by (induction xs) (auto intro!: keeps_intros)

lemma keeps_if [keeps_intros]: "keeps f m \<Longrightarrow> keeps f m' \<Longrightarrow> keeps f (if b then m else m')"
  by simp

lemma keeps_db_query [keeps_intros]:
  "(\<And>s e. f (s\<lparr>p_env := e\<rparr>) = f s) \<Longrightarrow> keeps f (db_query A c code cap ps xs)"
  by (auto simp: keeps_def db_query_def rbind_eq_Inr Let_def split_beta split: option.splits)

lemma keeps_db_connect [keeps_intros]:
  "(\<And>s e. f (s\<lparr>p_env := e\<rparr>) = f s) \<Longrightarrow> keeps f (db_connect A c code)"
  by (auto simp: keeps_def db_connect_def Let_def split_beta split: if_splits)

section \<open>The codes of early returns\<close>

definition exit_codes :: "int set \<Rightarrow> ('e, 'a) act \<Rightarrow> bool" where
  "exit_codes C m \<longleftrightarrow> (\<forall>s c t. m s = Inr (Inl c, t) \<longrightarrow> c \<in> C)"

named_theorems exit_intros

lemma exit_codesD: "exit_codes C m \<Longrightarrow> m s = Inr (Inl c, t) \<Longrightarrow> c \<in> C"
  unfolding exit_codes_def by blast

lemma exit_abind [exit_intros]: "exit_codes C m \<Longrightarrow> (\<And>a. exit_codes C (g a)) \<Longrightarrow> exit_codes C (abind m g)"
  unfolding exit_codes_def abind_eq_Inr by (metis Inl_inject)

lemma exit_plain [exit_intros]:
  "exit_codes C (aret a)" "exit_codes C (aget f)" "exit_codes C (ares r)" "exit_codes C (amodify h)"
  by (auto simp: exit_codes_def rbind_eq_Inr)

lemma exit_afor [exit_intros]: "(\<And>x. exit_codes C (h x)) \<Longrightarrow> exit_codes C (afor h xs)"
  by (induction xs) (auto intro!: exit_intros)

lemma exit_if [exit_intros]: "exit_codes C m \<Longrightarrow> exit_codes C m' \<Longrightarrow> exit_codes C (if b then m else m')"
  by simp

lemma exit_db_query [exit_intros]: "code \<in> C \<Longrightarrow> exit_codes C (db_query A c code cap ps xs)"
  by (auto simp: exit_codes_def db_query_def rbind_eq_Inr Let_def split_beta split: option.splits)

lemma exit_db_connect [exit_intros]: "code \<in> C \<Longrightarrow> exit_codes C (db_connect A c code)"
  by (auto simp: exit_codes_def db_connect_def Let_def split_beta split: if_splits)

lemma returned_codes:
  assumes "exit_codes C m" and "returned m s = Inr (c, t)"
  shows "c = 0 \<or> c \<in> C"
proof -
  from assms(2) obtain a where a: "m s = Inr (a, t)" "c = (case a of Inl c \<Rightarrow> c | Inr _ \<Rightarrow> 0)"
    by (auto simp: returned_def rbind_eq_Inr)
  with assms(1) show ?thesis by (cases a) (auto simp: exit_codes_def)
qed

section \<open>A log of the queries\<close>

text \<open>The same world outside, with a log of the queries sent, the last one first.\<close>

definition logged :: "'e env_api \<Rightarrow> ('e \<times> (nat \<times> string) list) env_api" where
  "logged A =
     \<lparr>api_connect = (\<lambda>c (e, l). let (ok, e') = api_connect A c e in (ok, (e', l))),
      api_query = (\<lambda>c q (e, l). let (r, e') = api_query A c q e in (r, (e', (c, q) # l))),
      api_set_criteria = (\<lambda>n (e, l). (api_set_criteria A n e, l)),
      api_start = (\<lambda>b w (e, l). (api_start A b w e, l)),
      api_state = (\<lambda>(e, l). let (st, e') = api_state A e in (st, (e', l))),
      api_events = (\<lambda>w (e, l). let (evs, e') = api_events A w e in (evs, (e', l)))\<rparr>"

definition query_log :: "('e \<times> 'l) program \<Rightarrow> 'l" where
  "query_log s = snd (p_env s)"

text \<open>\<open>sends m\<close>: the log only grows while \<open>m\<close> runs.\<close>

definition log_grows :: "('e \<times> 'q list, 'a) act \<Rightarrow> bool" where
  "log_grows m \<longleftrightarrow> (\<forall>s r t. m s = Inr (r, t) \<longrightarrow> (\<exists>l. query_log t = l @ query_log s))"

named_theorems log_intros

lemma log_growsD: "log_grows m \<Longrightarrow> m s = Inr (r, t) \<Longrightarrow> set (query_log s) \<subseteq> set (query_log t)"
  unfolding log_grows_def by (metis set_append sup_ge2)

lemma log_abind [log_intros]: "log_grows m \<Longrightarrow> (\<And>a. log_grows (g a)) \<Longrightarrow> log_grows (abind m g)"
  unfolding log_grows_def abind_eq_Inr by (metis append.assoc)

lemma log_plain [log_intros]:
  "log_grows (aret a)" "log_grows (aget f)" "log_grows (ares r)"
  by (auto simp: log_grows_def rbind_eq_Inr)

lemma log_amodify [log_intros]: "(\<And>s. p_env (h s) = p_env s) \<Longrightarrow> log_grows (amodify h)"
  by (auto simp: log_grows_def query_log_def)

lemma log_afor [log_intros]: "(\<And>x. log_grows (h x)) \<Longrightarrow> log_grows (afor h xs)"
  by (induction xs) (auto intro!: log_intros)

lemma log_if [log_intros]: "log_grows m \<Longrightarrow> log_grows m' \<Longrightarrow> log_grows (if b then m else m')"
  by simp

lemma db_query_logged:
  assumes "db_query (logged A) c code cap ps xs s = Inr (r, t)"
  shows "\<exists>sql. sprintf cap ps xs = Inr sql \<and> query_log t = (c, sql) # query_log s"
  using assms
  by (auto simp: db_query_def rbind_eq_Inr Let_def logged_def query_log_def split_beta split: option.splits)

lemma log_db_query [log_intros]: "log_grows (db_query (logged A) c code cap ps xs)"
  unfolding log_grows_def using db_query_logged by (metis append_Cons append_Nil)

lemma log_db_connect [log_intros]: "log_grows (db_connect (logged A) c code)"
  by (auto simp: log_grows_def db_connect_def Let_def logged_def query_log_def split_beta split: if_splits)

end
