(* ===== verification/Load.thy ===== *)
theory Load
  imports Session
begin

text \<open>
  Steps 00 to 02 of \<open>TSP/TspView.cpp\<close>: the construction of the view, the observer callbacks, the
  loading of the orders and of their mutual distances from the database, and their conversion
  to cities. Console output and the release of result sets have no effect on the modelled
  state; the two locks of the view guard single steps of one thread.
\<close>

section \<open>Construction and callbacks\<close>

text \<open>
  \<open>new TSPView()\<close> leaves the members without an initialiser indeterminate. The strings are set
  by \<open>main\<close> before they are read.
\<close>

definition TSPView_new :: "world \<Rightarrow> int \<Rightarrow> int \<Rightarrow> 'e \<Rightarrow> 'e program" where
  "TSPView_new w limit searchStart e =
     \<lparr>v_generation = 0, v_fitness = Num 0, v_best = [], v_relocation = [], v_copy = [],
      v_orders = [], v_mutual = [], v_routes = [], v_routesRelocated = [],
      v_deliveryDate = [], v_meridiemType = [], v_meridiemFlag = [], v_locationId = [], v_vehicleNo = [],
      v_vehicleNumber = 0, v_completeLoad = None, v_count = None, v_searchStart = searchStart,
      v_vehicleFlg = replicate 512 0, v_vehiclePay = replicate 512 0, v_vehiclePayIndex = None,
      p_world = w, p_generationLimit = limit, p_subscribed = 1, p_env = e\<rparr>"

definition view_init :: "'e program \<Rightarrow> 'e program" where
  "view_init s = s\<lparr>v_generation := 0, v_fitness := Num 0, p_subscribed := Suc (p_subscribed s)\<rparr>"

definition StatisticUpdate :: "int \<Rightarrow> 'e program \<Rightarrow> 'e program" where
  "StatisticUpdate currentGeneration s = s\<lparr>v_generation := currentGeneration\<rparr>"

definition NewBestChromosome :: "ptr list \<Rightarrow> cnum \<Rightarrow> 'e program \<Rightarrow> 'e program" where
  "NewBestChromosome code fitness s = s\<lparr>v_best := code, v_fitness := fitness\<rparr>"

definition OnInit :: "('e, unit) act" where
  "OnInit = amodify (\<lambda>s. s\<lparr>v_generation := 0, v_fitness := Num 0, v_vehicleFlg := replicate 512 0,
     v_vehiclePay := replicate 512 0, p_subscribed := Suc (p_subscribed s)\<rparr>)"

section \<open>Step 01: the orders\<close>

text \<open>\<open>resize\<close> keeps what is there and fills with zeroed elements.\<close>

definition resize :: "'a \<Rightarrow> int \<Rightarrow> 'a list \<Rightarrow> 'a list res" where
  "resize d n xs =
     (if n < 0 then Inl BadAlloc else Inr (take (nat n) xs @ replicate (nat n - length xs) d))"

definition blank_order :: VectorOrderData where
  "blank_order = \<lparr>ve_seq = [], ve_accno = [], ve_locationId = [], ve_deliveryDate = [], ve_meridiemType = [],
     ve_guestId = [], ve_guestName = [], ve_guestTel = [], ve_guestJusoSubId = [], ve_guestJuso = [],
     ve_pay = [], ve_guestLat = [], ve_guestLon = [], ve_isNew = [], ve_isShop = [], ve_isRoad = [],
     ve_createDate = [], ve_accnoDupleJuso = []\<rparr>"

definition order_args :: "'e program \<Rightarrow> arg list" where
  "order_args s = [AStr (v_deliveryDate s), AStr (v_meridiemType s), AStr (v_meridiemFlag s),
     AStr (v_vehicleNo s), AStr (v_locationId s)]"

text \<open>The number of orders, from the first column of the first row.\<close>

definition load_count :: "'e env_api \<Rightarrow> ('e, unit) act" where
  "load_count A =
     abind (db_connect A 1 100) (\<lambda>_.
     abind (db_query A 1 100 512 sql_set_names []) (\<lambda>_.
     abind (aget order_args) (\<lambda>xs.
     abind (ares (sprintf 2048 sql_orders xs)) (\<lambda>_.
     abind (db_query A 1 100 2048 sql_order_count xs) (\<lambda>rows.
     abind (ares (first_row rows)) (\<lambda>r.
     abind (ares (rbind (column r 0) atoi)) (\<lambda>n.
     abind (ares (require (0 \<le> n) BadAlloc)) (\<lambda>_.
     abind (aget v_orders) (\<lambda>os.
     abind (ares (resize blank_order n os)) (\<lambda>os'.
       amodify (\<lambda>s. s\<lparr>v_count := Some n, v_vehiclePayIndex := Some (replicate (nat n) 0),
         v_orders := os'\<rparr>)))))))))))"

text \<open>The eighteen \<open>strcpy\<close> calls of one order, with the sizes of the arrays.\<close>

definition read_order :: "row \<Rightarrow> VectorOrderData res" where
  "read_order r =
     rbind (copy_column 32 r 0) (\<lambda>c0. rbind (copy_column 32 r 1) (\<lambda>c1. rbind (copy_column 4 r 2) (\<lambda>c2.
     rbind (copy_column 10 r 3) (\<lambda>c3. rbind (copy_column 4 r 4) (\<lambda>c4. rbind (copy_column 64 r 5) (\<lambda>c5.
     rbind (copy_column 100 r 6) (\<lambda>c6. rbind (copy_column 100 r 7) (\<lambda>c7. rbind (copy_column 2 r 8) (\<lambda>c8.
     rbind (copy_column 256 r 9) (\<lambda>c9. rbind (copy_column 32 r 10) (\<lambda>c10. rbind (copy_column 64 r 11) (\<lambda>c11.
     rbind (copy_column 64 r 12) (\<lambda>c12. rbind (copy_column 2 r 13) (\<lambda>c13. rbind (copy_column 2 r 14) (\<lambda>c14.
     rbind (copy_column 2 r 15) (\<lambda>c15. rbind (copy_column 32 r 16) (\<lambda>c16. rbind (copy_column 100 r 17) (\<lambda>c17.
       Inr \<lparr>ve_seq = c0, ve_accno = c1, ve_locationId = c2, ve_deliveryDate = c3, ve_meridiemType = c4,
            ve_guestId = c5, ve_guestName = c6, ve_guestTel = c7, ve_guestJusoSubId = c8, ve_guestJuso = c9,
            ve_pay = c10, ve_guestLat = c11, ve_guestLon = c12, ve_isNew = c13, ve_isShop = c14,
            ve_isRoad = c15, ve_createDate = c16, ve_accnoDupleJuso = c17\<rparr>))))))))))))))))))"

definition set_order :: "int \<Rightarrow> VectorOrderData \<Rightarrow> ('e, unit) act" where
  "set_order i d =
     abind (aget v_orders) (\<lambda>os.
     abind (ares (vset os i d)) (\<lambda>os'. amodify (\<lambda>s. s\<lparr>v_orders := os'\<rparr>)))"

text \<open>One row of the loop over the orders; a failed query for it returns 0.\<close>

definition load_order :: "'e env_api \<Rightarrow> int \<times> row \<Rightarrow> ('e, unit) act" where
  "load_order A ir =
     (let (i, r) = ir in
      abind (ares (column r 1)) (\<lambda>accno.
      abind (ares (column r 6)) (\<lambda>guestId.
      abind (ares (column r 28)) (\<lambda>isShop.
      abind (aget (\<lambda>s. [AStr accno, AStr (v_locationId s), AStr (v_deliveryDate s), AStr (v_meridiemType s),
               AStr (v_meridiemFlag s), AStr guestId, AStr isShop])) (\<lambda>xs.
      abind (db_query A 2 0 2048 sql_order_detail xs) (\<lambda>rows.
      abind (ares (first_row rows)) (\<lambda>d.
      abind (ares (read_order d)) (\<lambda>order. set_order i order))))))))"

definition load_orders :: "'e env_api \<Rightarrow> ('e, unit) act" where
  "load_orders A =
     abind (aget order_args) (\<lambda>xs.
     abind (db_query A 1 100 2048 sql_orders xs) (\<lambda>rows.
     abind (db_connect A 2 100) (\<lambda>_.
     abind (db_query A 2 100 512 sql_set_names []) (\<lambda>_.
       afor (load_order A) (zip [0..int (length rows) - 1] rows)))))"

text \<open>Orders with a duplicate address get the sum of the payments.\<close>

definition load_pay :: "'e env_api \<Rightarrow> int \<Rightarrow> ('e, unit) act" where
  "load_pay A i =
     abind (aget v_orders) (\<lambda>os.
     abind (ares (vget os i)) (\<lambda>ord.
       if ve_accnoDupleJuso ord \<noteq> [] then
         abind (aget (\<lambda>s. [AStr (v_deliveryDate s), AStr (v_meridiemType s), AStr (v_meridiemFlag s),
                  AStr (v_locationId s), AStr (ve_accnoDupleJuso ord)])) (\<lambda>xs.
         abind (db_query A 1 100 2048 sql_order_pay xs) (\<lambda>rows.
         abind (ares (first_row rows)) (\<lambda>r.
         abind (ares (copy_column 32 r 0)) (\<lambda>pay. set_order i (ord\<lparr>ve_pay := pay\<rparr>)))))
       else aret ()))"

section \<open>Step 01: the distances\<close>

definition blank_mutual :: VectorMutualData where
  "blank_mutual = \<lparr>vd_seq = [], vd_guestId = [], vd_guestJusoSubId = [], vd_deguestId = [],
     vd_deguestJusoSubId = [], vd_guestLat = [], vd_guestLon = [], vd_deguestLat = [], vd_deguestLon = [],
     vd_distanceValue = [], vd_guestDate = [], vd_deguestDate = [], vd_createDate = [], vd_updateDate = [],
     vd_guestIsShop = [], vd_deguestIsShop = []\<rparr>"

definition read_mutual :: "row \<Rightarrow> VectorMutualData res" where
  "read_mutual r =
     rbind (copy_column 32 r 0) (\<lambda>c0. rbind (copy_column 64 r 1) (\<lambda>c1. rbind (copy_column 2 r 2) (\<lambda>c2.
     rbind (copy_column 64 r 3) (\<lambda>c3. rbind (copy_column 2 r 4) (\<lambda>c4. rbind (copy_column 64 r 5) (\<lambda>c5.
     rbind (copy_column 64 r 6) (\<lambda>c6. rbind (copy_column 64 r 7) (\<lambda>c7. rbind (copy_column 64 r 8) (\<lambda>c8.
     rbind (copy_column 64 r 9) (\<lambda>c9. rbind (copy_column 64 r 10) (\<lambda>c10. rbind (copy_column 64 r 11) (\<lambda>c11.
     rbind (copy_column 2 r 12) (\<lambda>c12. rbind (copy_column 2 r 13) (\<lambda>c13.
     rbind (copy_column 64 r 14) (\<lambda>c14. rbind (copy_column 64 r 15) (\<lambda>c15.
       Inr \<lparr>vd_seq = c0, vd_guestId = c1, vd_guestJusoSubId = c2, vd_deguestId = c3,
            vd_deguestJusoSubId = c4, vd_guestLat = c5, vd_guestLon = c6, vd_deguestLat = c7,
            vd_deguestLon = c8, vd_distanceValue = c9, vd_guestDate = c10, vd_deguestDate = c11,
            vd_createDate = c14, vd_updateDate = c15, vd_guestIsShop = c12, vd_deguestIsShop = c13\<rparr>))))))))))))))))"

definition set_cell :: "int \<Rightarrow> int \<Rightarrow> 'a \<Rightarrow> 'a list list \<Rightarrow> 'a list list res" where
  "set_cell i j v m =
     rbind (vget m i) (\<lambda>r. rbind (vset r j v) (\<lambda>r'. vset m i r'))"

definition mutual_args :: "VectorOrderData \<Rightarrow> VectorOrderData \<Rightarrow> arg list" where
  "mutual_args a b = [AStr (ve_guestId a), AStr (ve_guestJusoSubId a), AStr (ve_isShop a),
     AStr (ve_guestId b), AStr (ve_guestJusoSubId b), AStr (ve_isShop b)]"

text \<open>One pair of orders; without a row for it all its texts are empty.\<close>

definition load_cell :: "'e env_api \<Rightarrow> int \<Rightarrow> int \<Rightarrow> ('e, unit) act" where
  "load_cell A i j =
     abind (aget v_orders) (\<lambda>os.
     abind (ares (vget os i)) (\<lambda>a.
     abind (ares (vget os j)) (\<lambda>b.
     abind (db_query A 1 100 2048 sql_mutual (mutual_args a b)) (\<lambda>rows.
     abind (ares (case rows of [] \<Rightarrow> Inr blank_mutual | r # _ \<Rightarrow> read_mutual r)) (\<lambda>d.
     abind (aget v_mutual) (\<lambda>m.
     abind (ares (set_cell i j d m)) (\<lambda>m'. amodify (\<lambda>s. s\<lparr>v_mutual := m'\<rparr>))))))))"

definition load_row :: "'e env_api \<Rightarrow> int \<Rightarrow> int \<Rightarrow> ('e, unit) act" where
  "load_row A n i =
     abind (amodify (\<lambda>s. s\<lparr>v_mutual := v_mutual s @ [[]]\<rparr>)) (\<lambda>_.
     abind (aget v_mutual) (\<lambda>m.
     abind (ares (rbind (vget m i) (\<lambda>r. rbind (resize blank_mutual n r) (\<lambda>r'. vset m i r')))) (\<lambda>m'.
     abind (amodify (\<lambda>s. s\<lparr>v_mutual := m'\<rparr>)) (\<lambda>_.
       afor (load_cell A i) [0..n - 1]))))"

definition get_count :: "('e, int) act" where
  "get_count = abind (aget v_count) (\<lambda>c. ares (case c of None \<Rightarrow> Inl Uninit | Some n \<Rightarrow> Inr n))"

definition load_mutual :: "'e env_api \<Rightarrow> ('e, unit) act" where
  "load_mutual A = abind get_count (\<lambda>n. afor (load_row A n) [0..n - 1])"

definition OnLoadDeliveryData :: "'e env_api \<Rightarrow> ('e, unit) act" where
  "OnLoadDeliveryData A =
     abind (amodify (\<lambda>s. s\<lparr>v_completeLoad := Some False\<rparr>)) (\<lambda>_.
     abind (load_count A) (\<lambda>_.
     abind (load_orders A) (\<lambda>_.
     abind (aget v_orders) (\<lambda>os.
     abind (afor (load_pay A) [0..int (length os) - 1]) (\<lambda>_.
       load_mutual A)))))"

section \<open>Step 02: the cities\<close>

definition city_of_order :: "VectorOrderData \<Rightarrow> city_fields" where
  "city_of_order d =
     \<lparr>f_name = widen ''point'', f_x = atof (ve_guestLat d), f_y = atof (ve_guestLon d),
      f_guestId = widen (ve_guestId d), f_isShop = widen (ve_isShop d),
      f_jusoSubId = widen (ve_guestJusoSubId d), f_accno = widen (ve_accno d),
      f_accnoDuple = widen (ve_accnoDupleJuso d), f_guestName = widen ''guestName'',
      f_guestTel = widen (ve_guestTel d), f_guestJuso = widen ''guestJuso'', f_pay = widen (ve_pay d),
      f_guestLat = widen (ve_guestLat d), f_guestLon = widen (ve_guestLon d)\<rparr>"

definition set_city :: "int \<Rightarrow> ('e, unit) act" where
  "set_city i =
     abind (aget v_orders) (\<lambda>os.
     abind (ares (vget os i)) (\<lambda>d.
     abind (aget p_world) (\<lambda>w.
     abind (ares (AddCity (city_of_order d) w)) (\<lambda>w'.
       amodify (\<lambda>s. s\<lparr>p_world := w', v_best := []\<rparr>)))))"

definition OnSetDeliveryData :: "('e, unit) act" where
  "OnSetDeliveryData = abind get_count (\<lambda>n. afor set_city [0..n - 1])"

section \<open>Loops over an index\<close>

lemma afor_upto:
  assumes "afor f [0..int k - 1] s = Inr (Inr (), t)" and "P 0 s"
    and "\<And>i s t. i < k \<Longrightarrow> P i s \<Longrightarrow> f (int i) s = Inr (Inr (), t) \<Longrightarrow> P (Suc i) t"
  shows "P k t"
  using assms
proof (induction k arbitrary: t)
  case 0
  then show ?case by simp
next
  case (Suc k)
  have "afor f ([0..int k - 1] @ [int k]) s = Inr (Inr (), t)"
    using Suc.prems(1) by (simp add: upto_snoc)
  then obtain u where u: "afor f [0..int k - 1] s = Inr (Inr (), u)" "f (int k) u = Inr (Inr (), t)"
    unfolding afor_append by (auto simp: abind_eq_Inr)
  from Suc.IH [OF u(1)] Suc.prems(2,3) have "P k u" by simp
  with u(2) Suc.prems(3) show ?case by blast
qed

section \<open>What the loading leaves behind\<close>

lemma db_query_Inr:
  "db_query A c code cap ps xs s = Inr (Inr rows, t) \<longleftrightarrow>
     (\<exists>sql e. sprintf cap ps xs = Inr sql \<and> api_query A c sql (p_env s) = (Some rows, e) \<and> t = s\<lparr>p_env := e\<rparr>)"
proof (cases "sprintf cap ps xs")
  case (Inl f)
  then show ?thesis by (simp add: db_query_def)
next
  case (Inr sql)
  then show ?thesis
    by (cases "api_query A c sql (p_env s)"; cases "fst (api_query A c sql (p_env s))")
      (auto simp: db_query_def)
qed

lemma db_connect_Inr:
  "db_connect A c code s = Inr (Inr (), t) \<longleftrightarrow> (\<exists>e. api_connect A c (p_env s) = (True, e) \<and> t = s\<lparr>p_env := e\<rparr>)"
  by (cases "api_connect A c (p_env s)"; cases "fst (api_connect A c (p_env s))") (auto simp: db_connect_def)

lemmas act_Inr = abind_eq_Inr abind_run rbind_eq_Inr db_query_Inr db_connect_Inr

text \<open>The entry for two orders is what the database answered to the query for them.\<close>

definition answered :: "'e env_api \<Rightarrow> VectorOrderData \<Rightarrow> VectorOrderData \<Rightarrow> VectorMutualData \<Rightarrow> bool" where
  "answered A a b d \<longleftrightarrow> (\<exists>sql e e' rows. sprintf 2048 sql_mutual (mutual_args a b) = Inr sql
     \<and> api_query A 1 sql e = (Some rows, e')
     \<and> (case rows of [] \<Rightarrow> d = blank_mutual | r # _ \<Rightarrow> read_mutual r = Inr d))"

lemma load_cell_Inr:
  assumes "load_cell A i j s = Inr (Inr (), t)"
  shows "\<exists>d m e. 0 \<le> i \<and> i < int (length (v_orders s)) \<and> 0 \<le> j \<and> j < int (length (v_orders s))
    \<and> answered A (v_orders s ! nat i) (v_orders s ! nat j) d \<and> set_cell i j d (v_mutual s) = Inr m
    \<and> t = s\<lparr>p_env := e, v_mutual := m\<rparr>"
proof -
  from assms obtain sql e rows d m where
    o: "0 \<le> i" "i < int (length (v_orders s))" "0 \<le> j" "j < int (length (v_orders s))"
    and q: "sprintf 2048 sql_mutual (mutual_args (v_orders s ! nat i) (v_orders s ! nat j)) = Inr sql"
      "api_query A 1 sql (p_env s) = (Some rows, e)"
    and d: "(case rows of [] \<Rightarrow> Inr blank_mutual | r # _ \<Rightarrow> read_mutual r) = Inr d"
    and m: "set_cell i j d (v_mutual s) = Inr m" and t: "t = s\<lparr>p_env := e, v_mutual := m\<rparr>"
    by (auto simp: load_cell_def act_Inr vget_Inr_iff)
  have "answered A (v_orders s ! nat i) (v_orders s ! nat j) d"
    unfolding answered_def using q d by (intro exI conjI) (auto split: list.splits)
  with o m t show ?thesis by auto
qed

lemma set_cell_Inr:
  "set_cell i j v m = Inr m' \<longleftrightarrow> 0 \<le> i \<and> i < int (length m) \<and> 0 \<le> j \<and> j < int (length (m ! nat i))
     \<and> m' = m[nat i := (m ! nat i)[nat j := v]]"
  by (auto simp: set_cell_def rbind_eq_Inr vget_Inr_iff vset_Inr_iff)

text \<open>One row of the table: the first \<open>k\<close> rows are complete, row \<open>k\<close> up to column \<open>j\<close>.\<close>

definition rows_done :: "'e env_api \<Rightarrow> VectorOrderData list \<Rightarrow> nat \<Rightarrow> nat \<Rightarrow> 'e program \<Rightarrow> bool" where
  "rows_done A os n k s \<longleftrightarrow> v_orders s = os \<and> length (v_mutual s) = k
     \<and> (\<forall>i < k. length (v_mutual s ! i) = n \<and> (\<forall>j < n. answered A (os ! i) (os ! j) (v_mutual s ! i ! j)))"

definition cells_done :: "'e env_api \<Rightarrow> VectorOrderData list \<Rightarrow> nat \<Rightarrow> nat \<Rightarrow> nat \<Rightarrow> 'e program \<Rightarrow> bool" where
  "cells_done A os n k c s \<longleftrightarrow> v_orders s = os \<and> length (v_mutual s) = Suc k
     \<and> (\<forall>i < k. length (v_mutual s ! i) = n \<and> (\<forall>j < n. answered A (os ! i) (os ! j) (v_mutual s ! i ! j)))
     \<and> length (v_mutual s ! k) = n \<and> (\<forall>j < c. answered A (os ! k) (os ! j) (v_mutual s ! k ! j))"

lemma load_cell_done:
  assumes "c < n" and "cells_done A os n k c s" and "load_cell A (int k) (int c) s = Inr (Inr (), t)"
  shows "cells_done A os n k (Suc c) t"
proof -
  obtain d m e where d: "answered A (v_orders s ! k) (v_orders s ! c) d"
      "set_cell (int k) (int c) d (v_mutual s) = Inr m" "t = s\<lparr>p_env := e, v_mutual := m\<rparr>"
    using load_cell_Inr [OF assms(3)] by auto
  from d(2) have m: "m = (v_mutual s)[k := (v_mutual s ! k)[c := d]]" by (simp add: set_cell_Inr)
  from assms(1,2) d(1,3) m show ?thesis
    by (auto simp: cells_done_def nth_list_update less_Suc_eq)
qed

lemma load_row_done:
  assumes "rows_done A os n k s" and "load_row A (int n) (int k) s = Inr (Inr (), t)"
  shows "rows_done A os n (Suc k) t"
proof -
  let ?m = "(v_mutual s @ [[]])[k := replicate n blank_mutual]"
  have len: "length (v_mutual s) = k" using assms(1) by (simp add: rows_done_def)
  have r: "rbind (vget (v_mutual s @ [[]]) (int k)) (\<lambda>r. rbind (resize blank_mutual (int n) r)
      (\<lambda>r'. vset (v_mutual s @ [[]]) (int k) r')) = Inr ?m"
    using len by (simp add: vget_def vset_def resize_def nth_append)
  from assms(2) have "afor (load_cell A (int k)) [0..int n - 1] (s\<lparr>v_mutual := ?m\<rparr>) = Inr (Inr (), t)"
    using r by (simp add: load_row_def abind_run)
  moreover have "cells_done A os n k 0 (s\<lparr>v_mutual := ?m\<rparr>)"
    using assms(1) len by (auto simp: rows_done_def cells_done_def nth_list_update nth_append)
  ultimately have "cells_done A os n k n t"
    by (rule afor_upto [where P = "cells_done A os n k"]) (rule load_cell_done)
  then show ?thesis by (auto simp: rows_done_def cells_done_def less_Suc_eq)
qed

lemma load_mutual_done:
  assumes "load_mutual A s = Inr (Inr (), t)" and "v_count s = Some (int n)" and "v_mutual s = []"
  shows "rows_done A (v_orders s) n n t"
proof -
  have "afor (load_row A (int n)) [0..int n - 1] s = Inr (Inr (), t)"
    using assms(1,2) by (simp add: load_mutual_def get_count_def abind_run abind_def)
  moreover have "rows_done A (v_orders s) n 0 s" using assms(3) by (simp add: rows_done_def)
  ultimately show ?thesis
    by (rule afor_upto [where P = "rows_done A (v_orders s) n"]) (rule load_row_done)
qed

text \<open>Up to the distances, the later parts of step 01 keep the number of orders.\<close>

definition load_shape :: "'e program \<Rightarrow> int option \<times> nat \<times> VectorMutualData list list" where
  "load_shape s = (v_count s, length (v_orders s), v_mutual s)"

lemma keeps_set_order [keeps_intros]: "keeps load_shape (set_order i d)"
  by (auto simp: keeps_def set_order_def load_shape_def act_Inr vset_Inr_iff)

lemma keeps_load_orders: "keeps load_shape (load_orders A)"
  unfolding load_orders_def load_order_def Let_def split_beta
  by (intro keeps_intros) (simp_all add: load_shape_def)

lemma keeps_load_pay: "keeps load_shape (load_pay A i)"
  unfolding load_pay_def by (intro keeps_intros) (simp_all add: load_shape_def)

lemma load_count_Inr:
  assumes "load_count A s = Inr (Inr (), t)"
  shows "\<exists>n. v_count t = Some (int n) \<and> length (v_orders t) = n \<and> v_mutual t = v_mutual s
    \<and> v_vehiclePayIndex t = Some (replicate n 0) \<and> int_range (int n)"
proof -
  from assms obtain n os e1 r where "0 \<le> n" "atoi r = Inr n" "resize blank_order n (v_orders s) = Inr os"
      "t = s\<lparr>p_env := e1, v_count := Some n, v_vehiclePayIndex := Some (replicate (nat n) 0), v_orders := os\<rparr>"
    by (auto simp: load_count_def act_Inr)
  moreover from this(2) have "int_range n" by (auto simp: atoi_def Let_def split_beta)
  ultimately show ?thesis
    by (intro exI [of _ "nat n"]) (auto simp: resize_def split: if_splits)
qed

lemma OnLoad_Inr:
  assumes "OnLoadDeliveryData A s = Inr (Inr (), t)" and "v_mutual s = []"
  shows "\<exists>n. v_count t = Some (int n) \<and> length (v_orders t) = n \<and> rows_done A (v_orders t) n n t \<and> int_range (int n)"
proof -
  let ?s = "s\<lparr>v_completeLoad := Some False\<rparr>"
  from assms(1) obtain s1 s2 s3 where st: "load_count A ?s = Inr (Inr (), s1)"
      "load_orders A s1 = Inr (Inr (), s2)"
      "afor (load_pay A) [0..int (length (v_orders s2)) - 1] s2 = Inr (Inr (), s3)"
      "load_mutual A s3 = Inr (Inr (), t)"
    by (auto simp: OnLoadDeliveryData_def act_Inr)
  obtain n where n: "v_count s1 = Some (int n)" "length (v_orders s1) = n" "v_mutual s1 = []" and r: "int_range (int n)"
    using load_count_Inr [OF st(1)] assms(2) by auto
  have "load_shape s3 = load_shape s1"
    using keepsD [OF keeps_load_orders st(2)] keepsD [OF keeps_afor [OF keeps_load_pay] st(3)] by simp
  with n have s3: "v_count s3 = Some (int n)" "length (v_orders s3) = n" "v_mutual s3 = []"
    by (auto simp: load_shape_def)
  have "rows_done A (v_orders s3) n n t" by (rule load_mutual_done [OF st(4) s3(1,3)])
  moreover have "v_orders t = v_orders s3" using calculation by (simp add: rows_done_def)
  moreover have "keeps v_count (load_mutual A)"
    unfolding load_mutual_def load_row_def load_cell_def get_count_def by (intro keeps_intros) simp_all
  then have "v_count t = v_count s3" using st(4) by (rule keepsD)
  ultimately show ?thesis using s3 r by auto
qed

section \<open>The cities of step 02\<close>

definition add_orders :: "VectorOrderData list \<Rightarrow> world \<Rightarrow> world" where
  "add_orders ds w = add_all (map (\<lambda>d. (city_of_order d, 0)) ds) w"

lemma add_orders_snoc: "add_orders (ds @ [d]) w = added (city_of_order d) 0 (add_orders ds w)"
  by (simp add: add_orders_def add_all_append)

lemma add_orders_counters:
  "w_nextId (add_orders ds w) = w_nextId w + int (length ds) \<and> w_fresh (add_orders ds w) = w_fresh w + length ds"
  by (simp add: add_orders_def add_all_counters)

lemma add_orders_ok:
  assumes "cities_ok w" and "no_null w"
  shows "cities_ok (add_orders ds w) \<and> no_null (add_orders ds w)
    \<and> w_cities (add_orders ds w) = w_cities w
        @ map (\<lambda>i. (w_nextId w + int i + 1, Some (w_fresh w + i))) [0..<length ds]
    \<and> (\<forall>i < length ds. w_heap (add_orders ds w) (w_fresh w + i)
         = Some \<lparr>city_id = w_nextId w + int i + 1, city_originId = 0, city_data = city_of_order (ds ! i)\<rparr>)"
  using add_all_ok [OF assms, of "map (\<lambda>d. (city_of_order d, 0)) ds"] by (auto simp: add_orders_def)

lemma set_city_eq:
  assumes "i < length (v_orders s)" and "int_range (w_nextId (p_world s) + 1)"
  shows "set_city (int i) s = Inr (Inr (), s\<lparr>p_world := added (city_of_order (v_orders s ! i)) 0 (p_world s), v_best := []\<rparr>)"
  using assms by (simp add: set_city_def abind_run AddCity_eq)

lemma OnSet_loop:
  assumes "k \<le> length (v_orders s)" and "int_range (w_nextId (p_world s) + int k)" and "0 \<le> w_nextId (p_world s)"
  shows "afor set_city [0..int k - 1] s = Inr (Inr (), s\<lparr>p_world := add_orders (take k (v_orders s)) (p_world s),
    v_best := (if k = 0 then v_best s else [])\<rparr>)"
  using assms
proof (induction k)
  case 0
  then show ?case by (simp add: add_orders_def)
next
  case (Suc k)
  let ?w = "add_orders (take k (v_orders s)) (p_world s)"
  let ?s = "s\<lparr>p_world := ?w, v_best := (if k = 0 then v_best s else [])\<rparr>"
  have r: "int_range (w_nextId (p_world s) + int k)" using Suc.prems by (auto simp: int_range_def)
  have IH: "afor set_city [0..int k - 1] s = Inr (Inr (), ?s)"
    using Suc.IH Suc.prems(1,3) r by simp
  have k: "k < length (v_orders s)" using Suc.prems(1) by simp
  have "int_range (w_nextId (p_world ?s) + 1)"
    using Suc.prems(2) add_orders_counters [of "take k (v_orders s)" "p_world s"] k by (simp add: ac_simps)
  then have sc: "set_city (int k) ?s
      = Inr (Inr (), ?s\<lparr>p_world := added (city_of_order (v_orders s ! k)) 0 ?w, v_best := []\<rparr>)"
    using set_city_eq [of k ?s] k by simp
  have "afor set_city ([0..int k - 1] @ [int k]) s
      = Inr (Inr (), ?s\<lparr>p_world := added (city_of_order (v_orders s ! k)) 0 ?w, v_best := []\<rparr>)"
    unfolding afor_append by (simp add: abind_def IH sc del: program.update_convs)
  moreover have "take (Suc k) (v_orders s) = take k (v_orders s) @ [v_orders s ! k]"
    using k by (rule take_Suc_conv_app_nth)
  ultimately show ?case by (simp add: upto_snoc add_orders_snoc)
qed

lemma OnSet_eq:
  assumes "v_count s = Some (int n)" and "n \<le> length (v_orders s)" and "int_range (w_nextId (p_world s) + int n)"
    and "0 \<le> w_nextId (p_world s)"
  shows "OnSetDeliveryData s = Inr (Inr (), s\<lparr>p_world := add_orders (take n (v_orders s)) (p_world s),
    v_best := (if n = 0 then v_best s else [])\<rparr>)"
proof -
  have "OnSetDeliveryData s = afor set_city [0..int n - 1] s"
    using assms(1) by (simp add: OnSetDeliveryData_def get_count_def abind_run abind_def)
  with OnSet_loop [OF assms(2-4)] show ?thesis by simp
qed

end
