(* ===== verification/Route.thy ===== *)
theory Route
  imports Load
begin

text \<open>
  Steps 03, 04, 06 and 07 of \<open>TSP/TspView.cpp\<close>: running the genetic algorithm until it stops,
  rotating the best tour to start at the depot (the city with id 1), searching again for each
  vehicle, and rotating the routes of the vehicles. The library runs concurrently: before a
  poll of its state the notifications it has sent are delivered to the observer. Sleeping
  between two polls has no effect on the state.
\<close>

section \<open>Polling the algorithm\<close>

fun deliver :: "event \<Rightarrow> 'e program \<Rightarrow> 'e program" where
  "deliver (StatisticEvent g) s = StatisticUpdate g s"
| "deliver (BestEvent code fitness) s = NewBestChromosome code fitness s"

definition poll :: "'e env_api \<Rightarrow> 'e program \<Rightarrow> GaAlgorithmState \<times> 'e program" where
  "poll A s =
     (let (evs, e1) = api_events A (p_world s) (p_env s);
          s1 = fold deliver evs (s\<lparr>p_env := e1\<rparr>);
          (st, e2) = api_state A (p_env s1)
      in (st, s1\<lparr>p_env := e2\<rparr>))"

text \<open>\<open>TSP::smartInit\<close>: a stop criteria with the current generation limit.\<close>

definition smartInit :: "'e env_api \<Rightarrow> 'e program \<Rightarrow> 'e program" where
  "smartInit A s = s\<lparr>p_env := api_set_criteria A (p_generationLimit s) (p_env s)\<rparr>"

definition start_solving :: "'e env_api \<Rightarrow> 'e program \<Rightarrow> 'e program" where
  "start_solving A s =
     (let (st, s1) = poll A s; resume = (st = GAS_PAUSED)
      in s1\<lparr>p_env := api_start A resume (p_world s1) (p_env s1)\<rparr>)"

text \<open>\<open>while( 1 )\<close> until the state is \<open>GAS_CRITERIA_STOPPED\<close>; \<open>None\<close> when that never happens.\<close>

partial_function (option) wait_loop :: "'e env_api \<Rightarrow> 'e program \<Rightarrow> 'e program option" where
  "wait_loop A s =
     (case poll A s of (st, s') \<Rightarrow> if st = GAS_CRITERIA_STOPPED then Some s' else wait_loop A s')"

section \<open>Step 03\<close>

definition OnSearchDeliveryData :: "'e env_api \<Rightarrow> 'e program \<Rightarrow> (int \<times> 'e program) option" where
  "OnSearchDeliveryData A s =
     map_option (\<lambda>t. (0, t)) (wait_loop A (start_solving A (smartInit A (s\<lparr>p_generationLimit := 70000\<rparr>))))"

section \<open>Step 04\<close>

text \<open>The first index whose city has id 1, and 0 when there is none.\<close>

fun depot_scan :: "world \<Rightarrow> ptr list \<Rightarrow> int \<Rightarrow> int res" where
  "depot_scan w [] i = Inr 0"
| "depot_scan w (p # ps) i =
     rbind (deref w p) (\<lambda>c. if city_id c = 1 then Inr i else depot_scan w ps (i + 1))"

text \<open>The two loops that copy \<open>src\<close>, from index \<open>first\<close> to the end and from 0 to \<open>first\<close>, into \<open>dst\<close>.\<close>

definition copy_step :: "'a list \<Rightarrow> int \<Rightarrow> 'a list \<times> int \<Rightarrow> ('a list \<times> int) res" where
  "copy_step src i s =
     (let (dst, k) = s
      in rbind (vget src i) (\<lambda>x. rbind (vset dst k x) (\<lambda>dst'. Inr (dst', k + 1))))"

definition relocate :: "'a list \<Rightarrow> int \<Rightarrow> 'a list \<Rightarrow> 'a list res" where
  "relocate src first dst =
     rbind (rfold (copy_step src) [first..int (length src) - 1] (dst, 0)) (\<lambda>s1.
     rbind (rfold (copy_step src) [0..first - 1] s1) (\<lambda>(dst', _). Inr dst'))"

definition copy_of_city :: "TspCity \<Rightarrow> ChromosomeCopy" where
  "copy_of_city c = \<lparr>cc_id = city_id c, cc_originId = None, cc_data = city_data c\<rparr>"

definition OnRelocationDeliveryData :: "('e, unit) act" where
  "OnRelocationDeliveryData =
     abind (aget v_best) (\<lambda>best.
     abind (amodify (\<lambda>s. s\<lparr>v_relocation := best\<rparr>)) (\<lambda>_.
       if best = [] then aret ()
       else
         abind (aget p_world) (\<lambda>w.
         abind (ares (depot_scan w best 0)) (\<lambda>first.
         abind (ares (relocate best first best)) (\<lambda>reloc.
         abind (amodify (\<lambda>s. s\<lparr>v_relocation := reloc\<rparr>)) (\<lambda>_.
         abind (ares (rmap (\<lambda>p. rbind (deref w p) (\<lambda>c. Inr (copy_of_city c))) reloc)) (\<lambda>cs.
           amodify (\<lambda>s. s\<lparr>v_copy := v_copy s @ cs\<rparr>))))))))"

section \<open>Step 06\<close>

definition depot_fields :: "city_fields \<Rightarrow> city_fields" where
  "depot_fields d =
     d\<lparr>f_guestId := widen ''admin'', f_isShop := widen ''0'', f_jusoSubId := widen ''1''\<rparr>"

definition add_copy :: "(city_fields \<Rightarrow> city_fields) \<Rightarrow> ChromosomeCopy list \<Rightarrow> int \<Rightarrow> world \<Rightarrow> world res" where
  "add_copy h cs i w = rbind (vget cs i) (\<lambda>c. AddCityExt (h (cc_data c)) (cc_id c) w)"

text \<open>
  \<open>_bestChromosome[ 0 ]\<close> points to a city that \<open>Clear\<close> has deleted; \<open>ResetNextId\<close> is called on
  it, but reads no member of it.
\<close>

definition routeBestSearch :: "'e env_api \<Rightarrow> int \<Rightarrow> int \<Rightarrow> 'e program \<Rightarrow> 'e program res" where
  "routeBestSearch A nRefIndexStart nRefIndexStop s =
     (let s1 = s\<lparr>v_generation := 0, v_fitness := Num 0, p_subscribed := Suc (p_subscribed s)\<rparr>
      in rbind (Clear (p_world s1)) (\<lambda>w1.
         rbind (vget (v_best s1) 0) (\<lambda>c.
         rbind (add_copy depot_fields (v_copy s1) 0 (ResetNextId w1)) (\<lambda>w2.
         rbind (rfold (add_copy (\<lambda>d. d) (v_copy s1)) [nRefIndexStart..nRefIndexStop] w2) (\<lambda>w3.
           Inr (start_solving A (smartInit A
             (s1\<lparr>v_best := [], p_world := w3, p_generationLimit := 20000\<rparr>))))))))"

definition route_of_city :: "TspCity \<Rightarrow> RouteEachResult" where
  "route_of_city c = \<lparr>re_id = city_id c, re_data = city_data c\<rparr>"

text \<open>The result of vehicle \<open>j\<close> is stored once the search has stopped.\<close>

definition store_route :: "int \<Rightarrow> 'e program \<Rightarrow> 'e program res" where
  "store_route j s =
     rbind (rmap (\<lambda>p. rbind (deref (p_world s) p) (\<lambda>c. Inr (route_of_city c))) (v_best s)) (\<lambda>r.
     rbind (vset (v_routes s @ [[]]) j r) (\<lambda>rs. Inr (s\<lparr>v_routes := rs\<rparr>)))"

fun research_vehicles :: "'e env_api \<Rightarrow> int list \<Rightarrow> 'e program \<Rightarrow> 'e program res option" where
  "research_vehicles A [] s = Some (Inr s)"
| "research_vehicles A (j # js) s =
     (case rbind (vget (v_vehicleFlg s) j) (\<lambda>stop. routeBestSearch A (v_searchStart s) stop s) of
        Inl e \<Rightarrow> Some (Inl e)
      | Inr s1 \<Rightarrow>
          (case wait_loop A s1 of
             None \<Rightarrow> None
           | Some s2 \<Rightarrow>
               (case rbind (store_route j s2) (\<lambda>s3. rbind (vget (v_vehicleFlg s3) j) (\<lambda>stop.
                      rbind (chk (stop + 1)) (\<lambda>k. Inr (s3\<lparr>v_searchStart := k\<rparr>)))) of
                  Inl e \<Rightarrow> Some (Inl e)
                | Inr s4 \<Rightarrow> research_vehicles A js s4)))"

definition OnResearchDeliveryData :: "'e env_api \<Rightarrow> 'e program \<Rightarrow> (int \<times> 'e program) res option" where
  "OnResearchDeliveryData A s =
     (let (st, s1) = poll A (smartInit A (s\<lparr>p_generationLimit := 70000\<rparr>))
      in if st = GAS_CRITERIA_STOPPED
         then map_option (\<lambda>r. rbind r (\<lambda>t. Inr (0, t)))
                (research_vehicles A [0..v_vehicleNumber s1 - 1] (s1\<lparr>v_searchStart := 1, v_routes := []\<rparr>))
         else Some (Inr (0, s1)))"

section \<open>Step 07\<close>

fun depot_index :: "RouteEachResult list \<Rightarrow> int \<Rightarrow> int" where
  "depot_index [] i = 0"
| "depot_index (r # rs) i = (if re_id r = 1 then i else depot_index rs (i + 1))"

definition blank_route :: RouteEachResult where
  "blank_route = \<lparr>re_id = 0, re_data = \<lparr>f_name = [], f_x = Num 0, f_y = Num 0, f_guestId = [], f_isShop = [],
     f_jusoSubId = [], f_accno = [], f_accnoDuple = [], f_guestName = [], f_guestTel = [],
     f_guestJuso = [], f_pay = [], f_guestLat = [], f_guestLon = []\<rparr>\<rparr>"

definition relocate_vehicle :: "int \<Rightarrow> ('e, unit) act" where
  "relocate_vehicle i =
     abind (aget v_routes) (\<lambda>rs.
     abind (ares (vget rs i)) (\<lambda>r.
     abind (aget v_routesRelocated) (\<lambda>old.
     abind (ares (rbind (vget (old @ [[]]) i) (\<lambda>d.
                 rbind (resize blank_route (int (length r)) d) (\<lambda>d'.
                 rbind (relocate r (depot_index r 0) d') (vset (old @ [[]]) i))))) (\<lambda>new.
       amodify (\<lambda>s. s\<lparr>v_routesRelocated := new\<rparr>)))))"

definition OnRelocationVehicleData :: "('e, unit) act" where
  "OnRelocationVehicleData = abind (aget v_vehicleNumber) (\<lambda>n. afor relocate_vehicle [0..n - 1])"

section \<open>Waiting\<close>

definition polled :: "'e env_api \<Rightarrow> 'e program \<Rightarrow> 'e program" where
  "polled A s = snd (poll A s)"

definition stopped_after :: "'e env_api \<Rightarrow> 'e program \<Rightarrow> nat \<Rightarrow> bool" where
  "stopped_after A s k \<longleftrightarrow> fst (poll A ((polled A ^^ k) s)) = GAS_CRITERIA_STOPPED"

lemma wait_loop_step:
  "wait_loop A s = (if stopped_after A s 0 then Some (polled A s) else wait_loop A (polled A s))"
  by (subst wait_loop.simps) (simp add: stopped_after_def polled_def split: prod.splits)

lemma stopped_after_Suc: "stopped_after A s (Suc k) = stopped_after A (polled A s) k"
  by (simp add: stopped_after_def funpow_swap1)

lemma wait_loop_returns:
  "stopped_after A s k \<Longrightarrow> (\<forall>i < k. \<not> stopped_after A s i) \<Longrightarrow> wait_loop A s = Some ((polled A ^^ Suc k) s)"
proof (induction k arbitrary: s)
  case 0
  then show ?case by (subst wait_loop_step) (simp add: polled_def)
next
  case (Suc k)
  have "\<not> stopped_after A s 0" using Suc.prems(2) by blast
  moreover have "wait_loop A (polled A s) = Some ((polled A ^^ Suc k) (polled A s))"
    using Suc.prems by (intro Suc.IH) (auto simp flip: stopped_after_Suc)
  moreover have "(polled A ^^ Suc k) (polled A s) = (polled A ^^ Suc (Suc k)) s"
    by (simp only: funpow_Suc_right o_apply)
  ultimately show ?case by (subst wait_loop_step) (simp only: if_False)
qed

lemma wait_loop_Some:
  assumes "wait_loop A s = Some t"
  shows "\<exists>k. stopped_after A s k"
proof (rule wait_loop.raw_induct [OF _ assms, where P = "\<lambda>A s t. \<exists>k. stopped_after A s k"])
  fix rec :: "'b env_api \<Rightarrow> 'b program \<Rightarrow> 'b program option" and A s t
  assume IH: "\<And>A s t. rec A s = Some t \<Longrightarrow> \<exists>k. stopped_after A s k"
    and t: "(case poll A s of (st, s') \<Rightarrow> if st = GAS_CRITERIA_STOPPED then Some s' else rec A s') = Some t"
  show "\<exists>k. stopped_after A s k"
  proof (cases "fst (poll A s) = GAS_CRITERIA_STOPPED")
    case True
    then show ?thesis by (intro exI [of _ 0]) (simp add: stopped_after_def)
  next
    case False
    with t have "rec A (polled A s) = Some t" by (simp add: polled_def split: prod.splits)
    with IH obtain k where "stopped_after A (polled A s) k" by blast
    then show ?thesis by (auto simp flip: stopped_after_Suc)
  qed
qed

lemma wait_loop_iff:
  "wait_loop A s =
     (if \<exists>k. stopped_after A s k then Some ((polled A ^^ Suc (LEAST k. stopped_after A s k)) s) else None)"
proof (cases "\<exists>k. stopped_after A s k")
  case True
  then have "stopped_after A s (LEAST k. stopped_after A s k)" by (rule LeastI_ex)
  moreover have "\<forall>i < (LEAST k. stopped_after A s k). \<not> stopped_after A s i" using not_less_Least by blast
  ultimately have "wait_loop A s = Some ((polled A ^^ Suc (LEAST k. stopped_after A s k)) s)"
    by (rule wait_loop_returns)
  then show ?thesis using True by (simp only: if_True)
next
  case False
  then have "wait_loop A s \<noteq> Some t" for t using wait_loop_Some by blast
  then have "wait_loop A s = None" by (cases "wait_loop A s") blast+
  then show ?thesis using False by (simp only: if_False)
qed

section \<open>Rotating\<close>

lemma copy_steps:
  assumes "a + k \<le> length src" and "p + k \<le> length dst"
  shows "rfold (copy_step src) [int a..int (a + k) - 1] (dst, int p)
    = Inr (take p dst @ take k (drop a src) @ drop (p + k) dst, int (p + k))"
  using assms
proof (induction k)
  case 0
  then show ?case by simp
next
  case (Suc k)
  let ?d = "take p dst @ take k (drop a src) @ drop (p + k) dst"
  have up: "[int a..int (a + Suc k) - 1] = [int a..int (a + k) - 1] @ [int (a + k)]"
    using upto_rec2 [of "int a" "int (a + k)"] by (simp add: algebra_simps)
  have src: "vget src (int (a + k)) = Inr (src ! (a + k))"
    using Suc.prems(1) vget_of_nat [of "a + k" src] by simp
  have dst: "vset ?d (int (p + k)) x = Inr (?d[p + k := x])" for x
    using Suc.prems by (simp only: vset_def) (simp add: nat_add_distrib)
  have "?d[p + k := src ! (a + k)] = take p dst @ take (Suc k) (drop a src) @ drop (p + Suc k) dst"
  proof -
    have "drop (p + k) dst = dst ! (p + k) # drop (p + Suc k) dst"
      using Suc.prems(2) by (simp add: Cons_nth_drop_Suc)
    moreover have "take (Suc k) (drop a src) = take k (drop a src) @ [src ! (a + k)]"
      using Suc.prems(1) by (simp add: take_Suc_conv_app_nth)
    ultimately show ?thesis
      using Suc.prems by (simp add: list_update_append)
  qed
  then have "copy_step src (int (a + k)) (?d, int (p + k))
      = Inr (take p dst @ take (Suc k) (drop a src) @ drop (p + Suc k) dst, int (p + Suc k))"
    unfolding copy_step_def Let_def prod.case src rbind_simps dst by (simp add: algebra_simps)
  moreover have "rfold (copy_step src) [int a..int (a + k) - 1] (dst, int p) = Inr (?d, int (p + k))"
    using Suc by simp
  ultimately show ?case
    unfolding up rfold_append by simp
qed

lemma relocate_rotates:
  assumes "length dst = length src" and "f \<le> length src"
  shows "relocate src (int f) dst = Inr (rotate f src)"
proof (cases "f = length src")
  case True
  then show ?thesis
    using copy_steps [of 0 "length src" src 0 dst] assms(1) by (simp add: relocate_def)
next
  case False
  with assms(2) have f: "f < length src" by simp
  have "rfold (copy_step src) [int f..int (f + (length src - f)) - 1] (dst, int 0)
      = Inr (take 0 dst @ take (length src - f) (drop f src) @ drop (0 + (length src - f)) dst, int (0 + (length src - f)))"
    using f assms(1) by (intro copy_steps) auto
  moreover have "rfold (copy_step src) [int 0..int (0 + f) - 1]
      (drop f src @ drop (length src - f) dst, int (length src - f))
    = Inr (take (length src - f) (drop f src @ drop (length src - f) dst) @ take f (drop 0 src)
         @ drop (length src - f + f) (drop f src @ drop (length src - f) dst), int (length src - f + f))"
    using f assms(1) by (intro copy_steps) auto
  moreover have "rotate f src = drop f src @ take f src" using f by (simp add: rotate_drop_take)
  ultimately show ?thesis
    using f assms(1) by (simp add: relocate_def)
qed

end
