(* ===== verification/Delivery.thy ===== *)
theory Delivery
  imports Route Evolution
begin

text \<open>
  What the steps of \<open>TSP/TspView.cpp\<close> achieve together: the loaded orders become the cities whose
  distances the genetic algorithm minimises, a search ends exactly when the algorithm stops, and
  the tours found are rotated to start at the depot. A scripted database and algorithm serve as
  the world outside in the concrete runs.
\<close>

section \<open>The cities after a step\<close>

lemma cities_map:
  assumes "hm_inv m" and "m = map (\<lambda>i. (k + int i + 1, Some (a + i))) [0..<n]" and "i < n"
  shows "hm_find m (k + int i + 1) = Some (Some (a + i))"
  using assms by (auto simp: hm_find_Some_iff)

text \<open>Cities appended to an empty singleton: city \<open>i + 1\<close> has the fields and origin given for it.\<close>

lemma add_all_city:
  assumes "cities_ok w" and "no_null w" and "w_cities w = []" and "w_nextId w = 0" and "i < length es"
  shows "GetCityById (add_all es w) (int i + 1) = Some (w_fresh w + i)
    \<and> deref (add_all es w) (Some (w_fresh w + i))
        = Inr \<lparr>city_id = int i + 1, city_originId = snd (es ! i), city_data = fst (es ! i)\<rparr>"
proof -
  note all = add_all_ok [OF assms(1,2), of es]
  have cs: "w_cities (add_all es w) = map (\<lambda>i. (0 + int i + 1, Some (w_fresh w + i))) [0..<length es]"
    using all assms(3,4) by simp
  have inv: "hm_inv (w_cities (add_all es w))" using all cities_okD(1) by blast
  have "hm_find (w_cities (add_all es w)) (int i + 1) = Some (Some (w_fresh w + i))"
    using cities_map [OF inv cs assms(5)] by simp
  moreover have "w_heap (add_all es w) (w_fresh w + i)
      = Some \<lparr>city_id = int i + 1, city_originId = snd (es ! i), city_data = fst (es ! i)\<rparr>"
    using all assms(4,5) by simp
  ultimately show ?thesis by (simp add: GetCityById_def deref_def)
qed

lemma deleted_all:
  assumes "distinct ps" and "\<forall>p \<in> set ps. \<exists>a. p = Some a \<and> w_heap w a \<noteq> None"
  shows "rfold delete_city ps w = Inr (w\<lparr>w_heap := \<lambda>a. if Some a \<in> set ps then None else w_heap w a\<rparr>)"
  using assms by (intro deleted_live) auto

text \<open>\<open>Clear\<close> deletes every city once and leaves an empty, well-formed singleton.\<close>

lemma Clear_ok:
  assumes "cities_ok w" and "no_null w"
  shows "\<exists>w1. Clear w = Inr w1 \<and> w_cities w1 = [] \<and> cities_ok w1 \<and> no_null w1 \<and> w_fresh w1 = w_fresh w"
proof -
  let ?ps = "map snd (w_cities w)"
  have "\<forall>p \<in> set ?ps. \<exists>a. p = Some a \<and> w_heap w a \<noteq> None"
  proof
    fix p assume "p \<in> set ?ps"
    then have "p \<in> snd ` set (w_cities w)" by simp
    with cities_deref [OF assms] obtain a c where "p = Some a" "deref w p = Inr c" by blast
    then show "\<exists>a. p = Some a \<and> w_heap w a \<noteq> None" by (auto simp: deref_def split: option.splits)
  qed
  then have c: "Clear w = Inr (w\<lparr>w_heap := \<lambda>a. if Some a \<in> set ?ps then None else w_heap w a, w_cities := []\<rparr>)"
    using deleted_all [OF cities_distinct [OF assms]] by (simp add: Clear_def)
  have "w_heap w a = None" if "w_fresh w \<le> a" for a
    using cities_okD(4) [OF assms(1) that] .
  with c show ?thesis by (auto simp: cities_ok_def no_null_def hm_inv_def)
qed

section \<open>Loading and setting\<close>

lemma keeps_world: "keeps p_world (OnLoadDeliveryData A)"
  unfolding OnLoadDeliveryData_def load_count_def load_orders_def load_order_def load_pay_def
    load_mutual_def load_row_def load_cell_def get_count_def set_order_def Let_def split_beta
  by (intro keeps_intros) simp_all

text \<open>After a complete load, setting the cities succeeds and gives a singleton the table covers.\<close>

lemma set_after_load:
  assumes "OnLoadDeliveryData A s = Inr (Inr (), t)" and "v_mutual s = []"
    and "cities_ok (p_world s)" and "no_null (p_world s)" and "w_cities (p_world s) = []" and "w_nextId (p_world s) = 0"
  obtains n u where "OnSetDeliveryData t = Inr (Inr (), u)" and "length (v_orders u) = n"
    and "p_world u = add_orders (v_orders u) (p_world s)" and "v_orders u = v_orders t" and "v_mutual u = v_mutual t"
    and "rows_done A (v_orders u) n n u" and "v_count u = Some (int n)" and "int_range (int n)"
proof -
  obtain n where n: "v_count t = Some (int n)" "length (v_orders t) = n" "rows_done A (v_orders t) n n t" "int_range (int n)"
    using OnLoad_Inr [OF assms(1,2)] by blast
  have w: "p_world t = p_world s" using keepsD [OF keeps_world assms(1)] .
  let ?u = "t\<lparr>p_world := add_orders (v_orders t) (p_world s), v_best := (if n = 0 then v_best t else [])\<rparr>"
  have "OnSetDeliveryData t = Inr (Inr (), ?u)"
    using OnSet_eq [OF n(1)] n(2,4) assms(6) w by simp
  moreover have "rows_done A (v_orders ?u) n n ?u" using n(3) by (simp add: rows_done_def)
  ultimately show thesis using n by (intro that [of ?u n]) simp_all
qed

lemma set_covers:
  assumes "rows_done A (v_orders u) n n u" and "length (v_orders u) = n" and "p_world u = add_orders (v_orders u) w"
    and "cities_ok w" and "no_null w" and "w_cities w = []" and "w_nextId w = 0"
  shows "matrix_covers (v_mutual u) (p_world u)"
  unfolding matrix_covers_def
proof (intro ballI allI impI)
  let ?es = "map (\<lambda>d. (city_of_order d, 0)) (v_orders u)"
  have W: "p_world u = add_all ?es w" using assms(3) by (simp add: add_orders_def)
  fix p q a b assume pq: "p \<in> snd ` set (w_cities (p_world u))" "q \<in> snd ` set (w_cities (p_world u))"
    and ab: "deref (p_world u) p = Inr a" "deref (p_world u) q = Inr b"
  have cs: "snd ` set (w_cities (p_world u)) = (\<lambda>i. Some (w_fresh w + i)) ` {0..<n}"
    using add_all_ok [OF assms(4,5), of ?es] assms(2,6) W by force
  obtain i j where ij: "i < n" "j < n" "p = Some (w_fresh w + i)" "q = Some (w_fresh w + j)"
    using pq unfolding cs by auto
  have "a = \<lparr>city_id = int i + 1, city_originId = 0, city_data = city_of_order (v_orders u ! i)\<rparr>"
    "b = \<lparr>city_id = int j + 1, city_originId = 0, city_data = city_of_order (v_orders u ! j)\<rparr>"
    using add_all_city [OF assms(4-7), of _ ?es] ij ab assms(2) W by auto
  then show "case matrix_index a b of (i, j) \<Rightarrow> 0 \<le> i \<and> i < int (length (v_mutual u)) \<and> 0 \<le> j
      \<and> j < int (length (v_mutual u ! nat i))"
    using assms(1) ij by (simp add: matrix_index_def rows_done_def)
qed

lemma set_distance:
  assumes "rows_done A (v_orders u) n n u" and "length (v_orders u) = n" and "p_world u = add_orders (v_orders u) w"
    and "cities_ok w" and "no_null w" and "w_cities w = []" and "w_nextId w = 0" and "i < n" and "j < n"
  shows "TspCities_GetDistance (v_mutual u) (p_world u) (int i + 1) (int j + 1)
    = Inr (to_float (atof (vd_distanceValue (v_mutual u ! i ! j))))"
proof -
  let ?es = "map (\<lambda>d. (city_of_order d, 0)) (v_orders u)"
  have W: "p_world u = add_all ?es w" using assms(3) by (simp add: add_orders_def)
  note city = add_all_city [OF assms(4-7), of _ ?es, folded W]
  show ?thesis
    using city [of i] city [of j] assms(1,2,8,9)
    by (simp add: TspCities_GetDistance_def ptr_distance_def TspCity_GetDistance_def rows_done_def vget_def)
qed

section \<open>A scripted world outside\<close>

text \<open>
  The database answers the queries in the order of a script (an error when the script says
  \<open>None\<close> or has ended), and the algorithm has stopped at every poll.
\<close>

definition script_api :: "row list option list env_api" where
  "script_api = \<lparr>api_connect = (\<lambda>c e. (True, e)),
     api_query = (\<lambda>c q e. (case e of [] \<Rightarrow> (None, []) | r # e' \<Rightarrow> (r, e'))),
     api_set_criteria = (\<lambda>n e. e), api_start = (\<lambda>b w e. e),
     api_state = (\<lambda>e. (GAS_CRITERIA_STOPPED, e)), api_events = (\<lambda>w e. ([], e))\<rparr>"

definition sample_program :: "'e \<Rightarrow> 'e program" where
  "sample_program e = TSPView_new empty_world 100000 1 e"

definition sample_row :: row where
  "sample_row = replicate 29 (Some ''1'')"

text \<open>One order; the answer for its distance to itself has no row.\<close>

definition sample_script :: "row list option list" where
  "sample_script = [Some [], Some [[Some ''1'']], Some [sample_row], Some [],
     Some [sample_row], Some [[Some ''5'']], Some []]"

definition broken_script :: "row list option list" where
  "broken_script = [Some [], Some [[Some ''1'']], Some [sample_row], Some [], None]"

text \<open>Runs are evaluated with a test on their result.\<close>

fun finishes :: "('e program \<Rightarrow> bool) \<Rightarrow> ((int + unit) \<times> 'e program) res \<Rightarrow> bool" where
  "finishes P (Inr (Inr u, t)) = P t"
| "finishes P _ = False"

fun exits :: "int \<Rightarrow> ('e program \<Rightarrow> bool) \<Rightarrow> ((int + unit) \<times> 'e program) res \<Rightarrow> bool" where
  "exits k P (Inr (Inl c, t)) = (c = k \<and> P t)"
| "exits k P _ = False"

lemma finishes_iff: "finishes P r \<longleftrightarrow> (\<exists>t. r = Inr (Inr (), t) \<and> P t)"
  by (cases "(P, r)" rule: finishes.cases) auto

lemma exits_iff: "exits k P r \<longleftrightarrow> (\<exists>t. r = Inr (Inl k, t) \<and> P t)"
  by (cases "(k, P, r)" rule: exits.cases) auto

lemma sample_load: "\<exists>t. OnLoadDeliveryData script_api (sample_program sample_script) = Inr (Inr (), t)"
proof -
  have "finishes (\<lambda>t. True) (OnLoadDeliveryData script_api (sample_program sample_script))"
    by code_simp
  then show ?thesis by (auto simp: finishes_iff)
qed

lemma broken_load: "\<exists>t. OnLoadDeliveryData script_api (sample_program broken_script) = Inr (Inl 0, t) \<and> v_mutual t = []"
proof -
  have "exits 0 (\<lambda>t. v_mutual t = []) (OnLoadDeliveryData script_api (sample_program broken_script))"
    by code_simp
  then show ?thesis by (auto simp: exits_iff)
qed

lemma sample_program_world: "p_world (sample_program e) = empty_world" "v_mutual (sample_program e) = []"
  "v_count (sample_program e) = None"
  by (simp_all add: sample_program_def TSPView_new_def)

lemma empty_world_start: "w_cities empty_world = []" "w_nextId empty_world = 0" "cities_ok empty_world" "no_null empty_world"
  using empty_world_ok by (simp_all add: empty_world_def)

lemmas sample_start = sample_program_world empty_world_start

section \<open>Properties of the loading\<close>

text \<open>
  C9. When the loading succeeds from an empty program, setting the cities succeeds too, and the
  singleton then holds one city per order, numbered from 1; the distance of two cities is the
  number in the database's answer to the query for their two orders, converted to float.
\<close>

theorem loaded_distances:
  assumes "OnLoadDeliveryData A s = Inr (Inr (), t)" and "v_mutual s = []" and "cities_ok (p_world s)"
    and "no_null (p_world s)" and "w_cities (p_world s) = []" and "w_nextId (p_world s) = 0"
  shows "\<exists>u. OnSetDeliveryData t = Inr (Inr (), u) \<and> v_orders u = v_orders t
    \<and> GetCount (p_world u) = int (length (v_orders t))
    \<and> (\<forall>i < length (v_orders t). \<forall>j < length (v_orders t). \<exists>d. answered A (v_orders t ! i) (v_orders t ! j) d
         \<and> TspCities_GetDistance (v_mutual u) (p_world u) (int i + 1) (int j + 1)
             = Inr (to_float (atof (vd_distanceValue d))))"
proof -
  from set_after_load [OF assms] obtain n u where u: "OnSetDeliveryData t = Inr (Inr (), u)" "length (v_orders u) = n"
      "p_world u = add_orders (v_orders u) (p_world s)" "v_orders u = v_orders t" "v_mutual u = v_mutual t"
      "rows_done A (v_orders u) n n u" "v_count u = Some (int n)" "int_range (int n)" .
  have "GetCount (p_world u) = int n"
    using add_orders_ok [OF assms(3,4), of "v_orders u"] u(2,3) assms(5) by (simp add: GetCount_def)
  moreover have "answered A (v_orders u ! i) (v_orders u ! j) (v_mutual u ! i ! j)" if "i < n" "j < n" for i j
    using u(6) that by (simp add: rows_done_def)
  ultimately show ?thesis
    using u set_distance [OF u(6,2,3) assms(3-6)] by (intro exI [of _ u]) auto
qed

theorem loaded_distances_witness:
  "\<exists>t u. OnLoadDeliveryData script_api (sample_program sample_script) = Inr (Inr (), t)
    \<and> OnSetDeliveryData t = Inr (Inr (), u) \<and> GetCount (p_world u) = int (length (v_orders t))"
  using sample_load loaded_distances [of script_api "sample_program sample_script"] by (auto simp: sample_start)

text \<open>
  C14. After a complete loading the singleton is well formed, has no null entry and is covered
  by the distance table: the conditions under which the crossover and the fitness are correct.
\<close>

theorem loaded_world_ready:
  assumes "OnLoadDeliveryData A s = Inr (Inr (), t)" and "v_mutual s = []" and "cities_ok (p_world s)"
    and "no_null (p_world s)" and "w_cities (p_world s) = []" and "w_nextId (p_world s) = 0"
    and "OnSetDeliveryData t = Inr (Inr (), u)"
  shows "cities_ok (p_world u) \<and> no_null (p_world u) \<and> matrix_covers (v_mutual u) (p_world u)"
proof -
  from set_after_load [OF assms(1-6)] obtain n v where "OnSetDeliveryData t = Inr (Inr (), v)" "length (v_orders v) = n"
      "p_world v = add_orders (v_orders v) (p_world s)" "rows_done A (v_orders v) n n v" by blast
  with assms(7) have u: "length (v_orders u) = n" "p_world u = add_orders (v_orders u) (p_world s)"
      "rows_done A (v_orders u) n n u" by auto
  have "matrix_covers (v_mutual u) (p_world u)" by (rule set_covers [OF u(3,1,2) assms(3-6)])
  then show ?thesis using add_orders_ok [OF assms(3,4), of "v_orders u"] u(2) by auto
qed

theorem loaded_world_ready_witness:
  "\<exists>t u. OnLoadDeliveryData script_api (sample_program sample_script) = Inr (Inr (), t)
    \<and> OnSetDeliveryData t = Inr (Inr (), u) \<and> matrix_covers (v_mutual u) (p_world u)"
proof -
  obtain t where t: "OnLoadDeliveryData script_api (sample_program sample_script) = Inr (Inr (), t)"
    using sample_load by blast
  then obtain n u where "OnSetDeliveryData t = Inr (Inr (), u)"
    by (rule set_after_load) (simp_all add: sample_start)
  with t loaded_world_ready [OF t] show ?thesis by (auto simp: sample_start)
qed

text \<open>
  A failing query for the details of one order ends the loading early with the code 0, the
  code of success, although the distance table has not been loaded.
\<close>

theorem failed_detail_reports_success:
  "\<exists>t. returned (OnLoadDeliveryData script_api) (sample_program broken_script) = Inr (0, t)
    \<and> v_mutual t = [] \<and> v_count t = Some 1"
proof -
  have "exits 0 (\<lambda>t. v_mutual t = [] \<and> v_count t = Some 1) (OnLoadDeliveryData script_api (sample_program broken_script))"
    by code_simp
  then show ?thesis by (auto simp: exits_iff returned_def)
qed

text \<open>
  When the first connection fails, loading returns 100, and step 02, which the thread runs all
  the same, then reads the number of orders before it was ever set.
\<close>

lemma failed_load_leaves_count_unset:
  assumes "api_connect A 1 (p_env s) = (False, e)" and "v_count s = None"
  shows "\<exists>t. returned (OnLoadDeliveryData A) s = Inr (100, t) \<and> OnSetDeliveryData t = Inl Uninit"
proof -
  let ?t = "s\<lparr>v_completeLoad := Some False, p_env := e\<rparr>"
  have "OnLoadDeliveryData A s = Inr (Inl 100, ?t)"
    using assms(1) by (simp add: OnLoadDeliveryData_def load_count_def abind_def db_connect_def)
  moreover have "OnSetDeliveryData ?t = Inl Uninit"
    using assms(2) by (simp add: OnSetDeliveryData_def get_count_def abind_def)
  ultimately show ?thesis by (auto simp: returned_def)
qed

text \<open>
  No order whose delivery date has ten or more characters, as a date with year, month, day
  and dashes has, can be loaded without overrunning the array \<open>ve_deliveryDate\<close>.
\<close>

theorem long_delivery_date_overruns:
  assumes "vget r 3 = Inr (Some d)" and "10 \<le> length d"
  shows "read_order r \<noteq> Inr ord"
  using assms by (auto simp: read_order_def rbind_eq_Inr copy_column_def column_def strcpy_def)

theorem long_delivery_date_overruns_witness:
  "read_order (sample_row[3 := Some ''2017-07-04'']) \<noteq> Inr blank_order"
  by (rule long_delivery_date_overruns [of _ "''2017-07-04''"]) (simp_all add: sample_row_def vget_def numeral_nat)

text \<open>The cities that step 02 makes of a list of orders, in an empty singleton.\<close>

definition order_city :: "VectorOrderData list \<Rightarrow> ptr \<Rightarrow> TspCity" where
  "order_city os p = \<lparr>city_id = int (the p) + 1, city_originId = 0, city_data = city_of_order (os ! the p)\<rparr>"

lemma order_cities:
  shows "map snd (w_cities (add_orders os empty_world)) = map Some [0..<length os]"
    and "i < length os \<Longrightarrow> deref (add_orders os empty_world) (Some i) = Inr (order_city os (Some i))"
proof -
  have f: "w_fresh empty_world = 0" "w_nextId empty_world = 0" "w_cities empty_world = []" by (simp_all add: empty_world_def)
  note all = add_orders_ok [OF empty_world_start(3,4), of os]
  show "map snd (w_cities (add_orders os empty_world)) = map Some [0..<length os]" using all f by simp
  show "deref (add_orders os empty_world) (Some i) = Inr (order_city os (Some i))" if "i < length os"
    using all that f by (simp add: deref_def order_city_def)
qed

section \<open>Searching\<close>

lemma deliver_keeps: "p_world (fold deliver evs s) = p_world s \<and> v_copy (fold deliver evs s) = v_copy s
    \<and> p_generationLimit (fold deliver evs s) = p_generationLimit s \<and> v_mutual (fold deliver evs s) = v_mutual s"
proof (induction evs arbitrary: s)
  case (Cons ev evs)
  then show ?case by (cases ev) (simp_all add: StatisticUpdate_def NewBestChromosome_def)
qed simp

lemma start_solving_keeps: "p_world (start_solving A s) = p_world s \<and> v_copy (start_solving A s) = v_copy s
    \<and> p_generationLimit (start_solving A s) = p_generationLimit s \<and> v_mutual (start_solving A s) = v_mutual s"
  by (simp add: deliver_keeps start_solving_def poll_def Let_def split_beta)

text \<open>
  The search of step 03 returns exactly when some poll finds the algorithm stopped by its
  criterion, and it returns 0 with the state of the first such poll; otherwise it waits for ever.
\<close>

theorem search_returns_when_stopped:
  fixes A :: "'e env_api" and s :: "'e program"
  defines "s0 \<equiv> start_solving A (smartInit A (s\<lparr>p_generationLimit := 70000\<rparr>))"
  shows "OnSearchDeliveryData A s =
    (if \<exists>k. stopped_after A s0 k then Some (0, (polled A ^^ Suc (LEAST k. stopped_after A s0 k)) s0) else None)"
  unfolding OnSearchDeliveryData_def s0_def [symmetric] wait_loop_iff [of A s0] by simp

section \<open>Rotating the best tour\<close>

lemma depot_scan_finds:
  assumes "\<forall>p \<in> set ps. deref w p = Inr (city p)" and "f < length ps" and "city_id (city (ps ! f)) = 1"
    and "\<forall>i < f. city_id (city (ps ! i)) \<noteq> 1"
  shows "depot_scan w ps i = Inr (i + int f)"
  using assms
proof (induction ps arbitrary: i f)
  case Nil
  then show ?case by simp
next
  case (Cons p ps)
  show ?case
  proof (cases f)
    case 0
    then show ?thesis using Cons.prems by simp
  next
    case (Suc g)
    have "city_id (city p) \<noteq> 1" using Cons.prems(4) Suc by force
    moreover have "depot_scan w ps (i + 1) = Inr (i + 1 + int g)"
      using Cons.prems Suc by (intro Cons.IH) auto
    ultimately show ?thesis using Cons.prems(1) Suc by simp
  qed
qed

lemma relocation_rotates:
  assumes "\<forall>p \<in> set (v_best s). deref (p_world s) p = Inr (city p)" and "f < length (v_best s)"
    and "city_id (city (v_best s ! f)) = 1" and "\<forall>i < f. city_id (city (v_best s ! i)) \<noteq> 1"
  shows "OnRelocationDeliveryData s = Inr (Inr (), s\<lparr>v_relocation := rotate f (v_best s),
      v_copy := v_copy s @ map (\<lambda>p. copy_of_city (city p)) (rotate f (v_best s))\<rparr>)"
proof -
  let ?b = "v_best s"
  let ?r = "rotate f ?b"
  have ne: "?b \<noteq> []" using assms(2) by auto
  have scan: "depot_scan (p_world s) ?b 0 = Inr (int f)"
    using depot_scan_finds [OF assms, of 0] by simp
  have rot: "relocate ?b (int f) ?b = Inr ?r"
    using assms(2) by (intro relocate_rotates) simp_all
  have copies: "rmap (\<lambda>p. rbind (deref (p_world s) p) (\<lambda>c. Inr (copy_of_city c))) ?r
      = Inr (map (\<lambda>p. copy_of_city (city p)) ?r)"
    using assms(1) by (intro rmap_Inr) simp
  show ?thesis
    using ne scan rot copies by (simp add: OnRelocationDeliveryData_def abind_run)
qed

lemma hd_rotated: "f < length xs \<Longrightarrow> hd (rotate f xs) = xs ! f"
  by (subst hd_rotate_conv_nth) auto

text \<open>
  C11. Step 04 keeps the best tour, stores it rotated so that it starts at the depot (the city
  with id 1), and appends copies of the cities in that order, the depot first.
\<close>

theorem relocation_starts_at_depot:
  assumes "\<forall>p \<in> set (v_best s). deref (p_world s) p = Inr (city p)" and "f < length (v_best s)"
    and "city_id (city (v_best s ! f)) = 1" and "\<forall>i < f. city_id (city (v_best s ! i)) \<noteq> 1"
  shows "\<exists>t. OnRelocationDeliveryData s = Inr (Inr (), t) \<and> v_best t = v_best s
    \<and> v_relocation t = rotate f (v_best s) \<and> city_id (city (hd (v_relocation t))) = 1
    \<and> v_copy t = v_copy s @ map (\<lambda>p. copy_of_city (city p)) (rotate f (v_best s))"
  using relocation_rotates [OF assms] hd_rotated [OF assms(2)] assms(3) by simp

definition sample_found :: "nat program" where
  "sample_found = (sample_program 0)\<lparr>p_world := sample_world, v_best := mv_values sample_tour\<rparr>"

lemma sample_found_tour: "v_best sample_found = [Some 1, Some 0, Some 2]" "p_world sample_found = sample_world"
  by (simp_all add: sample_found_def sample_tour_def)

theorem relocation_starts_at_depot_witness:
  "\<exists>t. OnRelocationDeliveryData sample_found = Inr (Inr (), t) \<and> v_relocation t = [Some 0, Some 2, Some 1]"
  using relocation_starts_at_depot [of sample_found
      "\<lambda>p. \<lparr>city_id = int (the p) + 1, city_originId = 0, city_data = sample_fields\<rparr>" 1]
  by (auto simp: sample_found_tour sample_world_deref rotate1_def rotate_def)

section \<open>The search of one vehicle\<close>

text \<open>The cities of a vehicle with the ids they had in the first search.\<close>

definition vehicle_cities :: "ChromosomeCopy list \<Rightarrow> nat \<Rightarrow> nat \<Rightarrow> (city_fields \<times> int) list" where
  "vehicle_cities cs a b = (depot_fields (cc_data (cs ! 0)), cc_id (cs ! 0))
     # map (\<lambda>i. (cc_data (cs ! i), cc_id (cs ! i))) [a..<b]"

lemma upto_map_int: "a \<le> b \<Longrightarrow> [int a..int b - 1] = map int [a..<b]"
proof (induction b)
  case (Suc b)
  show ?case
  proof (cases "a \<le> b")
    case True
    then show ?thesis using Suc.IH upto_rec2 [of "int a" "int b"] by simp
  next
    case False
    with Suc.prems have "a = Suc b" by simp
    then show ?thesis by simp
  qed
qed simp

lemma add_copies:
  assumes "b \<le> length cs" and "0 \<le> w_nextId w" and "int_range (w_nextId w + int (b - a))"
  shows "rfold (add_copy (\<lambda>d. d) cs) (map int [a..<b]) w
    = Inr (add_all (map (\<lambda>i. (cc_data (cs ! i), cc_id (cs ! i))) [a..<b]) w)"
  using assms
proof (induction b)
  case 0
  then show ?case by simp
next
  case (Suc b)
  let ?es = "\<lambda>b. map (\<lambda>i. (cc_data (cs ! i), cc_id (cs ! i))) [a..<b]"
  show ?case
  proof (cases "a \<le> b")
    case False
    then show ?thesis by simp
  next
    case True
    then have r: "int_range (w_nextId w + int (b - a))" "int_range (w_nextId w + int (b - a) + 1)"
      using Suc.prems(2,3) by (auto simp: int_range_def)
    have "rfold (add_copy (\<lambda>d. d) cs) (map int [a..<b]) w = Inr (add_all (?es b) w)"
      using Suc.prems r by (intro Suc.IH) auto
    moreover have "w_nextId (add_all (?es b) w) = w_nextId w + int (b - a)"
      using add_all_counters [of "?es b" w] by simp
    then have "add_copy (\<lambda>d. d) cs (int b) (add_all (?es b) w)
        = Inr (added (cc_data (cs ! b)) (cc_id (cs ! b)) (add_all (?es b) w))"
      using Suc.prems(1) r by (simp add: add_copy_def AddCityExt_eq)
    ultimately show ?thesis
      using True by (simp add: rfold_append add_all_append)
  qed
qed

text \<open>The state in which the search of a vehicle starts, over an emptied world \<open>w\<close>.\<close>

definition vehicle_start :: "nat \<Rightarrow> nat \<Rightarrow> world \<Rightarrow> 'e program \<Rightarrow> 'e program" where
  "vehicle_start a b w s = s\<lparr>v_generation := 0, v_fitness := Num 0, p_subscribed := Suc (p_subscribed s), v_best := [],
     p_world := add_all (vehicle_cities (v_copy s) a b) w, p_generationLimit := 20000\<rparr>"

lemma vehicle_started:
  assumes "cities_ok (p_world s)" and "no_null (p_world s)" and "v_best s \<noteq> []" and "v_copy s \<noteq> []"
    and "a \<le> b" and "b \<le> length (v_copy s)" and "int_range (1 + int (b - a))"
  obtains w where "routeBestSearch A (int a) (int b - 1) s = Inr (start_solving A (smartInit A (vehicle_start a b w s)))"
    and "cities_ok w" and "no_null w" and "w_cities w = []" and "w_nextId w = 0"
proof -
  let ?cs = "v_copy s"
  obtain w1 where w1: "Clear (p_world s) = Inr w1" "w_cities w1 = []" "cities_ok w1" "no_null w1"
    using Clear_ok [OF assms(1,2)] by blast
  define w where "w = ResetNextId w1"
  have w: "w_cities w = []" "w_nextId w = 0" "cities_ok w" "no_null w"
    using w1 by (auto simp: w_def ResetNextId_def cities_ok_def no_null_def)
  have first: "add_copy depot_fields ?cs 0 w = Inr (added (depot_fields (cc_data (?cs ! 0))) (cc_id (?cs ! 0)) w)"
    using assms(4) w(2) by (simp add: add_copy_def AddCityExt_eq int_range_def)
  have "w_nextId (added d k w) = 1" for d k using w(2) by (simp add: added_def Let_def)
  then have rest: "rfold (add_copy (\<lambda>d. d) ?cs) (map int [a..<b]) (added (depot_fields (cc_data (?cs ! 0))) (cc_id (?cs ! 0)) w)
      = Inr (add_all (vehicle_cities ?cs a b) w)"
    using add_copies [OF assms(6), of "added (depot_fields (cc_data (?cs ! 0))) (cc_id (?cs ! 0)) w" a] assms(7)
    by (simp add: vehicle_cities_def)
  have up: "[int a..int b - 1] = map int [a..<b]"
    using assms(5) by (rule upto_map_int)
  have "routeBestSearch A (int a) (int b - 1) s = Inr (start_solving A (smartInit A (vehicle_start a b w s)))"
    using w1(1) assms(3) first rest up by (simp add: routeBestSearch_def Let_def w_def vehicle_start_def)
  then show thesis by (rule that [OF _ w(3,4,1,2)])
qed

lemma vehicle_search:
  assumes "cities_ok (p_world s)" and "no_null (p_world s)" and "v_best s \<noteq> []" and "v_copy s \<noteq> []"
    and "a \<le> b" and "b \<le> length (v_copy s)" and "int_range (1 + int (b - a))"
  obtains t w where "routeBestSearch A (int a) (int b - 1) s = Inr t" and "p_generationLimit t = 20000"
    and "p_world t = add_all (vehicle_cities (v_copy s) a b) w" and "cities_ok w" and "no_null w"
    and "w_cities w = []" and "w_nextId w = 0"
proof -
  obtain w where w: "routeBestSearch A (int a) (int b - 1) s = Inr (start_solving A (smartInit A (vehicle_start a b w s)))"
    "cities_ok w" "no_null w" "w_cities w = []" "w_nextId w = 0"
    using vehicle_started [OF assms] .
  let ?u = "smartInit A (vehicle_start a b w s)"
  have "p_generationLimit (start_solving A ?u) = 20000" "p_world (start_solving A ?u) = add_all (vehicle_cities (v_copy s) a b) w"
    using start_solving_keeps [of A ?u] by (simp_all add: smartInit_def vehicle_start_def)
  with w show thesis by (intro that)
qed

text \<open>
  C12. The search of a vehicle clears the singleton and fills it with the depot and the cities
  \<open>a\<close> to \<open>b - 1\<close> of the rotated tour under new ids. Each keeps the id of the first search as its
  origin, so that distances are still read from the entries loaded for the original orders.
\<close>

theorem vehicle_keeps_distances:
  fixes s :: "'e program"
  defines "ids \<equiv> \<lambda>a b. map snd (vehicle_cities (v_copy s) a b)"
  assumes "cities_ok (p_world s)" and "no_null (p_world s)" and "v_best s \<noteq> []" and "v_copy s \<noteq> []"
    and "a \<le> b" and "b \<le> length (v_copy s)" and "int_range (1 + int (b - a))"
  shows "\<exists>t. routeBestSearch A (int a) (int b - 1) s = Inr t \<and> GetCount (p_world t) = 1 + int (b - a)
    \<and> p_generationLimit t = 20000
    \<and> (\<forall>i \<le> b - a. \<forall>j \<le> b - a. 0 < ids a b ! i \<longrightarrow>
         TspCities_GetDistance m (p_world t) (int i + 1) (int j + 1)
           = rbind (vget m (ids a b ! i - 1)) (\<lambda>row. rbind (vget row (ids a b ! j - 1))
               (\<lambda>d. Inr (to_float (atof (vd_distanceValue d))))))"
proof -
  let ?es = "vehicle_cities (v_copy s) a b"
  obtain t w where t: "routeBestSearch A (int a) (int b - 1) s = Inr t" "p_generationLimit t = 20000"
    and W: "p_world t = add_all ?es w" and w: "cities_ok w" "no_null w" "w_cities w = []" "w_nextId w = 0"
    using vehicle_search [OF assms(2-8)] by blast
  have len: "length ?es = Suc (b - a)" by (simp add: vehicle_cities_def)
  have count: "GetCount (p_world t) = 1 + int (b - a)"
    using add_all_ok [OF w(1,2), of ?es] w(3) len by (simp add: W GetCount_def)
  have "TspCities_GetDistance m (p_world t) (int i + 1) (int j + 1)
      = rbind (vget m (ids a b ! i - 1)) (\<lambda>row. rbind (vget row (ids a b ! j - 1))
          (\<lambda>d. Inr (to_float (atof (vd_distanceValue d)))))"
    if ij: "i \<le> b - a" "j \<le> b - a" and pos: "0 < ids a b ! i" for i j
    using add_all_city [OF w, of i ?es] add_all_city [OF w, of j ?es] ij pos len
    by (simp add: ids_def W TspCities_GetDistance_def ptr_distance_def TspCity_GetDistance_def del: vget_ok)
  with t count show ?thesis by blast
qed

definition sample_relocated :: "row list option list program" where
  "sample_relocated = (sample_program [])\<lparr>p_world := sample_world, v_best := [Some 0],
     v_copy := map (\<lambda>k. \<lparr>cc_id = k, cc_originId = None, cc_data = sample_fields\<rparr>) [1, 3, 2]\<rparr>"

theorem vehicle_keeps_distances_witness:
  "\<exists>t. routeBestSearch script_api (int 1) (int 3 - 1) sample_relocated = Inr t \<and> GetCount (p_world t) = 3
    \<and> TspCities_GetDistance sample_matrix (p_world t) (int 1 + 1) (int 2 + 1) = Inr (to_float (atof ''7''))"
proof -
  let ?ids = "map snd (vehicle_cities (v_copy sample_relocated) 1 3)"
  have ids: "?ids = [1, 3, 2]" by (simp add: sample_relocated_def vehicle_cities_def upt_rec)
  have "cities_ok (p_world sample_relocated)" "no_null (p_world sample_relocated)" "v_best sample_relocated \<noteq> []"
      "v_copy sample_relocated \<noteq> []" "3 \<le> length (v_copy sample_relocated)" "int_range (1 + int (3 - 1))"
    using sample_world_ok by (simp_all add: sample_relocated_def int_range_def)
  from vehicle_keeps_distances [OF this(1-4) _ this(5-6), of script_api sample_matrix]
  obtain t where t: "routeBestSearch script_api (int 1) (int 3 - 1) sample_relocated = Inr t" "GetCount (p_world t) = 3"
    and d: "\<And>i j. i \<le> 2 \<Longrightarrow> j \<le> 2 \<Longrightarrow> 0 < ?ids ! i \<Longrightarrow>
      TspCities_GetDistance sample_matrix (p_world t) (int i + 1) (int j + 1)
        = rbind (vget sample_matrix (?ids ! i - 1)) (\<lambda>row. rbind (vget row (?ids ! j - 1))
            (\<lambda>d. Inr (to_float (atof (vd_distanceValue d)))))"
    by auto
  have "TspCities_GetDistance sample_matrix (p_world t) (int 1 + 1) (int 2 + 1) = Inr (to_float (atof ''7''))"
    using d [of 1 2] ids by (simp add: sample_matrix_def sample_entry_def)
  with t show ?thesis by blast
qed

section \<open>Rotating the routes of the vehicles\<close>

lemma depot_index_range:
  "0 \<le> i \<Longrightarrow> 0 \<le> depot_index rs i \<and> (depot_index rs i = 0 \<or> depot_index rs i < i + int (length rs))"
proof (induction rs arbitrary: i)
  case (Cons r rs)
  have "0 \<le> depot_index rs (i + 1) \<and> (depot_index rs (i + 1) = 0 \<or> depot_index rs (i + 1) < i + 1 + int (length rs))"
    using Cons.prems by (intro Cons.IH) simp
  moreover have "int (length (r # rs)) = 1 + int (length rs)" by simp
  ultimately show ?case using Cons.prems
    unfolding depot_index.simps by presburger
qed simp

lemma rotated_vehicle:
  assumes "i < length (v_routes s)" and "length (v_routesRelocated s) = i"
  defines "r \<equiv> v_routes s ! i"
  shows "relocate_vehicle (int i) s = Inr (Inr (),
    s\<lparr>v_routesRelocated := v_routesRelocated s @ [rotate (nat (depot_index r 0)) r]\<rparr>)"
proof -
  define f where "f = nat (depot_index r 0)"
  have f: "depot_index r 0 = int f" "f \<le> length r"
    using depot_index_range [of 0 r] by (auto simp: f_def)
  have "relocate r (int f) (replicate (length r) blank_route) = Inr (rotate f r)"
    using f(2) by (intro relocate_rotates) simp_all
  then show ?thesis
    using assms f(1) by (simp add: relocate_vehicle_def abind_run resize_def vget_def vset_def nth_append list_update_append)
qed

lemma rotated_vehicles:
  assumes "k \<le> length (v_routes s)" and "v_routesRelocated s = []"
  shows "afor relocate_vehicle [0..int k - 1] s = Inr (Inr (), s\<lparr>v_routesRelocated :=
    map (\<lambda>r. rotate (nat (depot_index r 0)) r) (take k (v_routes s))\<rparr>)"
  using assms
proof (induction k)
  case 0
  then show ?case by simp
next
  case (Suc k)
  let ?h = "\<lambda>r. rotate (nat (depot_index r 0)) r"
  let ?s = "s\<lparr>v_routesRelocated := map ?h (take k (v_routes s))\<rparr>"
  have "afor relocate_vehicle [0..int k - 1] s = Inr (Inr (), ?s)" using Suc by simp
  moreover have "relocate_vehicle (int k) ?s = Inr (Inr (), s\<lparr>v_routesRelocated := map ?h (take (Suc k) (v_routes s))\<rparr>)"
    using rotated_vehicle [of k ?s] Suc.prems(1) by (simp add: take_Suc_conv_app_nth)
  ultimately have "afor relocate_vehicle ([0..int k - 1] @ [int k]) s
      = Inr (Inr (), s\<lparr>v_routesRelocated := map ?h (take (Suc k) (v_routes s))\<rparr>)"
    unfolding afor_append by (simp add: abind_def)
  then show ?case by (simp add: upto_snoc)
qed


definition sample_routes :: "RouteEachResult list list" where
  "sample_routes = [map (\<lambda>k. blank_route\<lparr>re_id := k\<rparr>) [3, 1, 2], []]"


end
