(* ===== verification/Store.thy ===== *)
theory Store
  imports Load
begin

text \<open>
  Step 08 of \<open>TSP/TspView.cpp\<close>, \<open>OnVehicleDataInsert\<close>: the stops of the rotated tour are written
  to the database. Waiting between two stops, console output and the release of buffers and
  result sets have no effect on the modelled state.
\<close>

section \<open>One stop\<close>

text \<open>The \<open>vr_\<close> strings of one row to insert.\<close>

record stop_row =
  vr_deguestAccno :: string
  vr_deguestName :: string
  vr_deguestTel :: string
  vr_deguestPay :: string
  vr_guestId :: string
  vr_deguestId :: string
  vr_guestJusoSubId :: string
  vr_deguestJusoSubId :: string
  vr_guestLat :: string
  vr_guestLon :: string
  vr_deguestLat :: string
  vr_deguestLon :: string
  vr_Juso :: string
  vr_guestIsShop :: string
  vr_deguestIsShop :: string
  vr_accnoDupleJuso :: string

text \<open>The copy a stop leads to: the next one, from the last one back to the first.\<close>

definition next_copy :: "ChromosomeCopy list \<Rightarrow> int \<Rightarrow> ChromosomeCopy res" where
  "next_copy cs j = vget cs (if j = int (length cs) - 1 then 0 else j + 1)"

definition distance_args :: "city_fields \<Rightarrow> city_fields \<Rightarrow> arg list" where
  "distance_args a b = [AStr (narrow (f_guestId a)), AStr (narrow (f_jusoSubId a)), AStr (narrow (f_isShop a)),
     AStr (narrow (f_guestId b)), AStr (narrow (f_jusoSubId b)), AStr (narrow (f_isShop b))]"

text \<open>The distance and the map data of the way to the next stop.\<close>

definition load_way :: "'e env_api \<Rightarrow> int \<Rightarrow> ('e, int \<times> string) act" where
  "load_way A j =
     abind (aget v_copy) (\<lambda>cs.
     abind (ares (vget cs j)) (\<lambda>a.
     abind (ares (next_copy cs j)) (\<lambda>b.
     abind (db_query A 1 800 2048 sql_distance (distance_args (cc_data a) (cc_data b))) (\<lambda>rows.
     abind (ares (first_row rows)) (\<lambda>r.
     abind (ares (rbind (column r 9) atoi)) (\<lambda>nDistance.
     abind (ares (copy_column 202400 r 12)) (\<lambda>json. aret (nDistance, json))))))))"

text \<open>The row for going from \<open>a\<close> to \<open>b\<close>.\<close>

definition stop_of_copies :: "city_fields \<Rightarrow> city_fields \<Rightarrow> stop_row" where
  "stop_of_copies a b =
     \<lparr>vr_deguestAccno = narrow (f_accno b), vr_deguestName = narrow (f_guestName b),
      vr_deguestTel = narrow (f_guestTel b), vr_deguestPay = narrow (f_pay b), vr_guestId = narrow (f_guestId a),
      vr_deguestId = narrow (f_guestId b), vr_guestJusoSubId = narrow (f_jusoSubId a),
      vr_deguestJusoSubId = narrow (f_jusoSubId b), vr_guestLat = narrow (f_guestLat a),
      vr_guestLon = narrow (f_guestLon a), vr_deguestLat = narrow (f_guestLat b),
      vr_deguestLon = narrow (f_guestLon b), vr_Juso = narrow (f_guestJuso b),
      vr_guestIsShop = narrow (f_isShop a), vr_deguestIsShop = narrow (f_isShop b),
      vr_accnoDupleJuso = narrow (f_accnoDuple b)\<rparr>"

definition insert_args :: "'e program \<Rightarrow> int \<Rightarrow> int \<Rightarrow> string \<Rightarrow> stop_row \<Rightarrow> arg list" where
  "insert_args s j nDistance json v =
     [AStr (vr_deguestAccno v), AStr (vr_deguestName v), AStr (vr_deguestTel v), AStr (vr_deguestPay v),
      AStr (vr_guestId v), AStr (vr_deguestId v), AStr (vr_guestJusoSubId v), AStr (vr_deguestJusoSubId v),
      AStr (v_vehicleNo s), AInt j, AStr (vr_guestLat v), AStr (vr_guestLon v), AStr (vr_deguestLat v),
      AStr (vr_deguestLon v), AStr (vr_Juso v), AInt nDistance, AStr (v_locationId s), AStr (v_deliveryDate s),
      AStr (v_meridiemType s), AStr [], AStr [], AStr [], AStr json, AStr ''now()'', AStr (vr_guestIsShop v),
      AStr (vr_deguestIsShop v), AStr (vr_accnoDupleJuso v), AStr (v_meridiemFlag s)]"

definition insert_row :: "'e env_api \<Rightarrow> nat \<Rightarrow> int \<Rightarrow> int \<Rightarrow> string \<Rightarrow> stop_row \<Rightarrow> ('e, unit) act" where
  "insert_row A c j nDistance json v =
     abind (aget (\<lambda>s. insert_args s j nDistance json v)) (\<lambda>xs.
     abind (db_query A c 800 404800 sql_insert xs) (\<lambda>_. aret ()))"

text \<open>The way back to the depot.\<close>

definition insert_last :: "'e env_api \<Rightarrow> int \<Rightarrow> int \<Rightarrow> string \<Rightarrow> city_fields \<Rightarrow> city_fields \<Rightarrow> ('e, unit) act" where
  "insert_last A j nDistance json a b = insert_row A 1 j nDistance json (stop_of_copies a b)"

text \<open>A stop with one order: the name and the address come from the database.\<close>

definition guest_args :: "'e program \<Rightarrow> stop_row \<Rightarrow> arg list" where
  "guest_args s v = [AStr (v_deliveryDate s), AStr (v_meridiemType s), AStr (v_meridiemFlag s), AStr (v_locationId s),
     AStr (vr_deguestAccno v), AStr (vr_deguestId v), AStr (vr_deguestJusoSubId v), AStr (vr_deguestLat v),
     AStr (vr_deguestLon v), AStr (vr_deguestIsShop v)]"

definition insert_single :: "'e env_api \<Rightarrow> int \<Rightarrow> int \<Rightarrow> string \<Rightarrow> city_fields \<Rightarrow> city_fields \<Rightarrow> ('e, unit) act" where
  "insert_single A j nDistance json a b =
     (let v = stop_of_copies a b in
      abind (aget (\<lambda>s. guest_args s v)) (\<lambda>xs.
      abind (db_query A 1 800 2048 sql_guest_info xs) (\<lambda>rows.
      abind (ares (first_row rows)) (\<lambda>r.
      abind (ares (column r 0)) (\<lambda>name.
      abind (ares (column r 1)) (\<lambda>juso.
        insert_row A 1 j nDistance json (v\<lparr>vr_deguestName := name, vr_Juso := juso\<rparr>)))))))"

text \<open>A stop with several orders: one row for each of them.\<close>

definition stop_of_row :: "city_fields \<Rightarrow> row \<Rightarrow> stop_row res" where
  "stop_of_row a r =
     rbind (column r 1) (\<lambda>accno. rbind (column r 6) (\<lambda>name. rbind (column r 7) (\<lambda>tel.
     rbind (column r 10) (\<lambda>pay. rbind (column r 5) (\<lambda>guestId. rbind (column r 8) (\<lambda>subId.
     rbind (column r 11) (\<lambda>lat. rbind (column r 12) (\<lambda>lon. rbind (column r 9) (\<lambda>juso.
     rbind (column r 14) (\<lambda>shop. rbind (column r 17) (\<lambda>duple.
       Inr \<lparr>vr_deguestAccno = accno, vr_deguestName = name, vr_deguestTel = tel, vr_deguestPay = pay,
            vr_guestId = narrow (f_guestId a), vr_deguestId = guestId, vr_guestJusoSubId = narrow (f_jusoSubId a),
            vr_deguestJusoSubId = subId, vr_guestLat = narrow (f_guestLat a), vr_guestLon = narrow (f_guestLon a),
            vr_deguestLat = lat, vr_deguestLon = lon, vr_Juso = juso, vr_guestIsShop = narrow (f_isShop a),
            vr_deguestIsShop = shop, vr_accnoDupleJuso = duple\<rparr>)))))))))))"

definition insert_duplicates :: "'e env_api \<Rightarrow> int \<Rightarrow> int \<Rightarrow> string \<Rightarrow> city_fields \<Rightarrow> city_fields \<Rightarrow> ('e, unit) act" where
  "insert_duplicates A j nDistance json a b =
     abind (aget (\<lambda>s. [AStr (v_deliveryDate s), AStr (v_meridiemType s), AStr (v_meridiemFlag s),
       AStr (v_locationId s), AStr (narrow (f_accnoDuple b))])) (\<lambda>xs.
     abind (db_query A 1 800 2048 sql_duplicates xs) (\<lambda>rows.
     abind (db_connect A 2 800) (\<lambda>_.
     abind (db_query A 2 100 512 sql_set_names []) (\<lambda>_.
       afor (\<lambda>r. abind (ares (stop_of_row a r)) (insert_row A 2 j nDistance json)) rows))))"

definition insert_way :: "'e env_api \<Rightarrow> int \<Rightarrow> int \<Rightarrow> string \<Rightarrow> ('e, unit) act" where
  "insert_way A j nDistance json =
     abind (aget v_copy) (\<lambda>cs.
     abind (ares (vget cs j)) (\<lambda>a.
     abind (ares (next_copy cs j)) (\<lambda>b.
       if j = int (length cs) - 1 then insert_last A j nDistance json (cc_data a) (cc_data b)
       else if f_accnoDuple (cc_data b) = [] then insert_single A j nDistance json (cc_data a) (cc_data b)
       else insert_duplicates A j nDistance json (cc_data a) (cc_data b))))"

definition insert_stop :: "'e env_api \<Rightarrow> int \<Rightarrow> ('e, unit) act" where
  "insert_stop A j = abind (load_way A j) (\<lambda>(nDistance, json). insert_way A j nDistance json)"

section \<open>The whole step\<close>

text \<open>Rows with an unknown address are numbered after the stops.\<close>

definition renumber :: "'e env_api \<Rightarrow> int \<times> row \<Rightarrow> ('e, unit) act" where
  "renumber A ir =
     (let (nMaxIndex, r) = ir in
      abind (ares (column r 0)) (\<lambda>vr_seq.
      abind (db_query A 2 800 2048 sql_error_update [AInt nMaxIndex, AStr vr_seq]) (\<lambda>_.
        ares (rbind (chk (nMaxIndex + 1)) (\<lambda>_. Inr ())))))"

definition renumber_errors :: "'e env_api \<Rightarrow> arg list \<Rightarrow> int \<Rightarrow> ('e, unit) act" where
  "renumber_errors A xs n =
     abind (db_query A 1 800 2048 sql_error_rows xs) (\<lambda>rows.
     abind (db_connect A 2 800) (\<lambda>_.
     abind (db_query A 2 100 512 sql_set_names []) (\<lambda>_.
       afor (renumber A) (zip [n..n + int (length rows) - 1] rows))))"

definition vehicle_args :: "'e program \<Rightarrow> arg list" where
  "vehicle_args s = [AStr (v_deliveryDate s), AStr (v_meridiemType s), AStr (v_meridiemFlag s), AStr (v_vehicleNo s)]"

definition OnVehicleDataInsert :: "'e env_api \<Rightarrow> ('e, unit) act" where
  "OnVehicleDataInsert A =
     abind (db_connect A 1 0) (\<lambda>_.
     abind (db_query A 1 0 512 sql_set_names []) (\<lambda>_.
     abind (aget vehicle_args) (\<lambda>xs.
     abind (db_query A 1 800 1024 sql_delete xs) (\<lambda>_.
     abind (aget v_copy) (\<lambda>cs.
     abind (afor (insert_stop A) [0..int (length cs) - 1]) (\<lambda>_.
       renumber_errors A xs (int (length cs))))))))"

section \<open>What is sent\<close>

lemma insert_codes: "exit_codes {0, 100, 800} (OnVehicleDataInsert A)"
  unfolding OnVehicleDataInsert_def renumber_errors_def insert_stop_def insert_way_def load_way_def insert_last_def insert_single_def
    insert_duplicates_def insert_row_def renumber_def Let_def split_beta
  by (intro exit_intros) simp_all

lemma keeps_insert: "(\<And>s e. f (s\<lparr>p_env := e\<rparr>) = f s) \<Longrightarrow> keeps f (insert_stop A j)"
  unfolding insert_stop_def insert_way_def load_way_def insert_last_def insert_single_def insert_duplicates_def insert_row_def
    Let_def split_beta
  by (intro keeps_intros) simp_all

lemma log_insert: "log_grows (insert_stop (logged A) j)"
  unfolding insert_stop_def insert_way_def load_way_def insert_last_def insert_single_def insert_duplicates_def insert_row_def
    Let_def split_beta
  by (intro log_intros)

lemma log_renumber: "log_grows (renumber_errors (logged A) xs n)"
  unfolding renumber_errors_def renumber_def Let_def split_beta by (intro log_intros)

text \<open>A row for stop \<open>j\<close>: its index, the way from copy \<open>j\<close> and the id of the copy it leads to.\<close>

definition stop_query :: "'e program \<Rightarrow> nat \<Rightarrow> string \<Rightarrow> bool" where
  "stop_query s j sql \<longleftrightarrow>
     (let cs = v_copy s; a = cc_data (cs ! j); b = cc_data (cs ! (if Suc j = length cs then 0 else Suc j))
      in \<exists>v nDistance json. sprintf 404800 sql_insert (insert_args s (int j) nDistance json v) = Inr sql
           \<and> vr_guestId v = narrow (f_guestId a) \<and> vr_deguestId v = narrow (f_guestId b)
           \<and> vr_guestLat v = narrow (f_guestLat a) \<and> vr_deguestLat v = narrow (f_guestLat b)
           \<and> vr_guestLon v = narrow (f_guestLon a) \<and> vr_deguestLon v = narrow (f_guestLon b))"

text \<open>What the stop and its queries depend on, all of it kept by step 08.\<close>

definition store_view :: "'e program \<Rightarrow> ChromosomeCopy list \<times> string list" where
  "store_view s = (v_copy s, [v_vehicleNo s, v_locationId s, v_deliveryDate s, v_meridiemType s, v_meridiemFlag s])"

lemma stop_query_view:
  assumes "store_view s = store_view t"
  shows "stop_query s j sql = stop_query t j sql"
  using assms by (simp add: stop_query_def store_view_def insert_args_def)

lemma insert_row_logged:
  assumes "insert_row (logged A) c j d json v s = Inr (r, t)"
  shows "\<exists>sql. sprintf 404800 sql_insert (insert_args s j d json v) = Inr sql \<and> (c, sql) \<in> set (query_log t)"
proof -
  from assms obtain r' where "db_query (logged A) c 800 404800 sql_insert (insert_args s j d json v) s = Inr (r', t)"
    by (auto simp: insert_row_def abind_run abind_eq_Inr)
  from db_query_logged [OF this] show ?thesis by auto
qed

lemma stop_query_of_row:
  assumes "insert_row (logged A) 1 (int j) d json v s = Inr (r, t)" and "j < length (v_copy s)"
    and "a = cc_data (v_copy s ! j)" and "b = cc_data (v_copy s ! (if Suc j = length (v_copy s) then 0 else Suc j))"
    and "vr_guestId v = narrow (f_guestId a)" "vr_deguestId v = narrow (f_guestId b)"
    "vr_guestLat v = narrow (f_guestLat a)" "vr_deguestLat v = narrow (f_guestLat b)"
    "vr_guestLon v = narrow (f_guestLon a)" "vr_deguestLon v = narrow (f_guestLon b)"
  shows "\<exists>sql. stop_query s j sql \<and> (1, sql) \<in> set (query_log t)"
proof -
  from insert_row_logged [OF assms(1)] obtain sql where
    sql: "sprintf 404800 sql_insert (insert_args s (int j) d json v) = Inr sql" "(1, sql) \<in> set (query_log t)" by blast
  with assms(3-) have "stop_query s j sql" unfolding stop_query_def Let_def by blast
  with sql(2) show ?thesis by blast
qed

lemma next_copy_nth:
  "j < length cs \<Longrightarrow> next_copy cs (int j) = Inr (cs ! (if Suc j = length cs then 0 else Suc j))"
  by (auto simp: next_copy_def vget_def nat_add_distrib)

lemma insert_stop_sends:
  assumes "insert_stop (logged A) (int j) s = Inr (Inr (), t)" and "j < length (v_copy s)"
    and "Suc j = length (v_copy s) \<or> f_accnoDuple (cc_data (v_copy s ! Suc j)) = []"
  shows "\<exists>sql. stop_query s j sql \<and> (1, sql) \<in> set (query_log t)"
proof -
  let ?cs = "v_copy s"
  let ?a = "cc_data (?cs ! j)" and ?b = "cc_data (?cs ! (if Suc j = length ?cs then 0 else Suc j))"
  from assms(1) obtain d json s1 where s1: "load_way (logged A) (int j) s = Inr (Inr (d, json), s1)"
    and rest: "insert_way (logged A) (int j) d json s1 = Inr (Inr (), t)"
    by (auto simp: insert_stop_def abind_eq_Inr)
  have "keeps store_view (load_way (logged A) (int j))"
    unfolding load_way_def by (intro keeps_intros) (simp_all add: store_view_def)
  from keepsD [OF this s1] have view: "store_view s1 = store_view s" .
  then have cs: "v_copy s1 = ?cs" by (simp add: store_view_def)
  show ?thesis
  proof (cases "Suc j = length ?cs")
    case True
    then have "insert_row (logged A) 1 (int j) d json (stop_of_copies ?a ?b) s1 = Inr (Inr (), t)"
      using rest assms(2) by (simp add: insert_way_def abind_run cs next_copy_nth insert_last_def)
    from stop_query_of_row [OF this, of ?a ?b] assms(2) show ?thesis
      by (simp add: cs stop_of_copies_def stop_query_view [OF view])
  next
    case False
    with rest assms(2,3) have "insert_single (logged A) (int j) d json ?a ?b s1 = Inr (Inr (), t)"
      by (simp add: insert_way_def abind_run cs next_copy_nth)
    then obtain rows s2 r name juso where
      "db_query (logged A) 1 800 2048 sql_guest_info (guest_args s1 (stop_of_copies ?a ?b)) s1 = Inr (Inr rows, s2)"
      and ins: "insert_row (logged A) 1 (int j) d json
        ((stop_of_copies ?a ?b)\<lparr>vr_deguestName := name, vr_Juso := juso\<rparr>) s2 = Inr (Inr (), t)"
      by (auto simp: insert_single_def Let_def abind_run abind_eq_Inr rbind_eq_Inr)
    from keepsD [OF keeps_db_query this(1), of store_view] have v2: "store_view s2 = store_view s"
      using view by (simp add: store_view_def)
    then have cs2: "v_copy s2 = ?cs" by (simp add: store_view_def)
    from stop_query_of_row [OF ins, of ?a ?b] assms(2) show ?thesis
      by (simp add: cs2 stop_of_copies_def stop_query_view [OF v2])
  qed
qed

lemma insert_stops_send:
  assumes "afor (insert_stop (logged A)) [0..int n - 1] s = Inr (Inr (), t)" and "n \<le> length (v_copy s)"
  shows "store_view t = store_view s \<and> (\<forall>j < n. Suc j = length (v_copy s) \<or> f_accnoDuple (cc_data (v_copy s ! Suc j)) = []
    \<longrightarrow> (\<exists>sql. stop_query s j sql \<and> (1, sql) \<in> set (query_log t)))"
  using assms
proof (induction n arbitrary: t)
  case 0
  then show ?case by simp
next
  case (Suc n)
  from Suc.prems(1) obtain u where u: "afor (insert_stop (logged A)) [0..int n - 1] s = Inr (Inr (), u)"
      "insert_stop (logged A) (int n) u = Inr (Inr (), t)"
    by (auto simp: upto_snoc afor_append abind_eq_Inr)
  have IH: "store_view u = store_view s" "\<And>j. j < n \<Longrightarrow> Suc j = length (v_copy s) \<or> f_accnoDuple (cc_data (v_copy s ! Suc j)) = []
    \<Longrightarrow> \<exists>sql. stop_query s j sql \<and> (1, sql) \<in> set (query_log u)"
    using Suc.IH [OF u(1)] Suc.prems(2) by auto
  have cs: "v_copy u = v_copy s" using IH(1) by (simp add: store_view_def)
  have "store_view t = store_view s"
    using keepsD [OF keeps_insert u(2), of store_view] IH(1) by (simp add: store_view_def)
  moreover have "\<exists>sql. stop_query s j sql \<and> (1, sql) \<in> set (query_log t)"
    if j: "j < Suc n" and single: "Suc j = length (v_copy s) \<or> f_accnoDuple (cc_data (v_copy s ! Suc j)) = []" for j
  proof (cases "j < n")
    case True
    with IH(2) single log_growsD [OF log_insert u(2)] show ?thesis by blast
  next
    case False
    with j have "j = n" by simp
    with insert_stop_sends [OF u(2)] single Suc.prems(2) stop_query_view [OF IH(1)] show ?thesis
      by (auto simp: cs)
  qed
  ultimately show ?case by blast
qed

end
