(* ===== verification/Balance.thy ===== *)
theory Balance
  imports Load
begin

text \<open>
  Step 05 of \<open>TSP/TspView.cpp\<close>, \<open>OnCalcDeliveryData\<close>: the payments of the stops are summed up and
  the rotated tour is cut into one piece per vehicle, with a bound on the payment of a piece that
  is raised or lowered until the number of pieces fits. Messages and waiting have no effect on
  the modelled state.
\<close>

section \<open>The payments\<close>

text \<open>A row read after \<open>mysql_free_result\<close> is dangling, unless there was none.\<close>

definition freed_row :: "row list \<Rightarrow> row res" where
  "freed_row rows = (case rows of [] \<Rightarrow> Inl NullDeref | _ # _ \<Rightarrow> Inl Dangling)"

definition total_args :: "'e program \<Rightarrow> arg list" where
  "total_args s = [AStr (v_deliveryDate s), AStr (v_meridiemType s), AStr (v_meridiemFlag s), AStr (v_locationId s)]"

text \<open>A format gets more arguments than it uses for a place with several orders.\<close>

definition pay_query :: "city_fields \<Rightarrow> piece list" where
  "pay_query d = (if f_accnoDuple d = [] then sql_pay_accno else sql_pay_accnoDuple)"

definition pay_args :: "'e program \<Rightarrow> city_fields \<Rightarrow> arg list" where
  "pay_args s d = total_args s
     @ [AStr (narrow (if f_accnoDuple d = [] then f_accno d else f_accnoDuple d)), AStr (narrow (f_isShop d))]"

text \<open>One stop: \<open>tot\<close> is the result whose row was freed before; the two running sums.\<close>

definition pay_step :: "'e env_api \<Rightarrow> row list \<Rightarrow> int \<Rightarrow> int \<times> int \<Rightarrow> ('e, int \<times> int) act" where
  "pay_step A tot i acc =
     (let (nTmpSum, nTmpSumIndex) = acc in
      abind (aget v_copy) (\<lambda>cs.
      abind (ares (vget cs i)) (\<lambda>c.
      abind (aget (\<lambda>s. pay_args s (cc_data c))) (\<lambda>xs.
      abind (db_query A 1 500 1024 (pay_query (cc_data c)) xs) (\<lambda>rows.
      abind (ares (first_row rows)) (\<lambda>r.
      abind (ares (rbind (column r 0) atoi)) (\<lambda>pay.
      abind (ares (chk (nTmpSum + pay))) (\<lambda>sum1.
      abind (ares (chk (nTmpSumIndex + pay))) (\<lambda>sum2.
      abind (ares (rbind (freed_row tot) (\<lambda>t. rbind (column t 0) atoi))) (\<lambda>p.
      abind (aget v_vehiclePayIndex) (\<lambda>idx.
      abind (ares (case idx of None \<Rightarrow> Inl Uninit | Some ps \<Rightarrow> vset ps i p)) (\<lambda>ps'.
      abind (amodify (\<lambda>s. s\<lparr>v_vehiclePayIndex := Some ps'\<rparr>)) (\<lambda>_. aret (sum1, sum2))))))))))))))"

fun pay_loop :: "'e env_api \<Rightarrow> row list \<Rightarrow> int list \<Rightarrow> int \<times> int \<Rightarrow> ('e, int \<times> int) act" where
  "pay_loop A tot [] acc = aret acc"
| "pay_loop A tot (i # is) acc = abind (pay_step A tot i acc) (pay_loop A tot is)"

definition calc_load :: "'e env_api \<Rightarrow> ('e, int) act" where
  "calc_load A =
     abind (db_connect A 1 500) (\<lambda>_.
     abind (aget total_args) (\<lambda>xs.
     abind (db_query A 1 500 1024 sql_pay_total xs) (\<lambda>tot.
     abind (aget v_copy) (\<lambda>cs.
     abind (pay_loop A tot [0..int (length cs) - 1] (0, 0)) (\<lambda>(nTmpSum, _). aret nTmpSum)))))"

section \<open>Cutting the tour\<close>

text \<open>
  One pass over the stops: the sum and the number of the stops of the current piece, the index
  of the piece, and the two arrays with the last stop and the payment of each piece.
\<close>

record cut_state =
  k_tmp :: int
  k_inner :: int
  k_index :: int
  k_flg :: "int list"
  k_pay :: "int list"

definition cut_step :: "int list \<Rightarrow> int \<Rightarrow> int \<Rightarrow> cut_state \<Rightarrow> cut_state res" where
  "cut_step payIndex nAvg i s =
     rbind (vget payIndex i) (\<lambda>p.
     rbind (chk (k_tmp s + p)) (\<lambda>nTmp.
     rbind (vset (k_flg s) (k_index s) i) (\<lambda>flg.
     rbind (vset (k_pay s) (k_index s) nTmp) (\<lambda>pay.
       if 10 \<le> k_inner s \<or> nAvg < nTmp
       then Inr (s\<lparr>k_tmp := 0, k_inner := 0, k_index := k_index s + 1, k_flg := flg, k_pay := pay\<rparr>)
       else Inr (s\<lparr>k_tmp := nTmp, k_inner := k_inner s + 1, k_flg := flg, k_pay := pay\<rparr>)))))"

definition cut_pass :: "int list \<Rightarrow> int \<Rightarrow> int \<Rightarrow> int list \<Rightarrow> int list \<Rightarrow> cut_state res" where
  "cut_pass payIndex nAvg nCount flg pay =
     rfold (cut_step payIndex nAvg) [0..nCount - 1]
       \<lparr>k_tmp = 0, k_inner = 0, k_index = 0, k_flg = flg, k_pay = pay\<rparr>"

text \<open>One round: whether the pieces fit, and otherwise the new bound and the reset arrays.\<close>

definition calc_round ::
  "(int \<Rightarrow> int list \<Rightarrow> int list \<Rightarrow> cut_state res) \<Rightarrow> int \<Rightarrow> int \<times> int list \<times> int list
   \<Rightarrow> (bool \<times> int \<times> int list \<times> int list) res" where
  "calc_round pass nVehicleNumber st =
     (let (nAvg, flg, pay) = st in
      rbind (pass nAvg flg pay) (\<lambda>c.
        if nVehicleNumber - 1 < k_index c
        then rbind (chk (nAvg + 2000)) (\<lambda>a. Inr (False, a, replicate 512 0, replicate 512 0))
        else if k_index c < nVehicleNumber - 1
        then rbind (chk (nAvg - 2000)) (\<lambda>a. Inr (False, a, replicate 512 0, replicate 512 0))
        else rbind (vget (k_pay c) (k_index c)) (\<lambda>p.
          if p = 0 then rbind (chk (nAvg - 2000)) (\<lambda>a. Inr (False, a, k_flg c, k_pay c))
          else Inr (True, nAvg, k_flg c, k_pay c))))"

text \<open>\<open>left\<close> is \<open>130 - nLoopCnt\<close>; the result tells whether \<open>nLoopCnt\<close> reached 130.\<close>

fun calc_loop ::
  "(int \<times> int list \<times> int list \<Rightarrow> (bool \<times> int \<times> int list \<times> int list) res) \<Rightarrow> nat \<Rightarrow> int \<times> int list \<times> int list
   \<Rightarrow> (bool \<times> int \<times> int list \<times> int list) res" where
  "calc_loop body 0 st = rbind (body st) (\<lambda>(stop, st'). Inr (True, st'))"
| "calc_loop body (Suc left) st =
     rbind (body st) (\<lambda>(stop, st'). if stop then Inr (False, st') else calc_loop body left st')"

text \<open>\<open>nAvg * 0.9\<close> is a product of doubles, cut to an \<open>int\<close>.\<close>

definition first_avg :: "int \<Rightarrow> int \<Rightarrow> int res" where
  "first_avg nTmpSum nVehicleNumber =
     rbind (int_div nTmpSum nVehicleNumber) (\<lambda>a. to_int (fmul round64 (Num (of_int a)) (round64 (9 / 10))))"

definition calc_balance :: "int \<Rightarrow> ('e, bool) act" where
  "calc_balance nTmpSum =
     abind (aget (\<lambda>s. (length (v_copy s), v_vehicleNumber s, v_vehiclePayIndex s))) (\<lambda>(nCount, n, idx).
     abind (ares (first_avg nTmpSum n)) (\<lambda>nAvg.
     abind (aget (\<lambda>s. (v_vehicleFlg s, v_vehiclePay s))) (\<lambda>(flg, pay).
     abind (ares (calc_loop (calc_round (\<lambda>a f p.
         if nCount = 0 then cut_pass [] a 0 f p
         else rbind (case idx of None \<Rightarrow> Inl Uninit | Some ps \<Rightarrow> Inr ps) (\<lambda>ps. cut_pass ps a (int nCount) f p)) n)
       130 (nAvg, flg, pay))) (\<lambda>(recall, _, flg', pay').
     abind (amodify (\<lambda>s. s\<lparr>v_vehicleFlg := flg', v_vehiclePay := pay'\<rparr>)) (\<lambda>_. aret recall)))))"

text \<open>The method calls itself when 130 rounds were not enough; the result of the call is ignored.\<close>

partial_function (option) OnCalcDeliveryData ::
  "'e env_api \<Rightarrow> 'e program \<Rightarrow> (int \<times> 'e program) res option" where
  "OnCalcDeliveryData A s =
     (case abind (calc_load A) calc_balance s of
        Inl e \<Rightarrow> Some (Inl e)
      | Inr (Inl c, t) \<Rightarrow> Some (Inr (c, t))
      | Inr (Inr recall, t) \<Rightarrow>
          if recall then Option.bind (OnCalcDeliveryData A t) (\<lambda>r. Some (rbind r (\<lambda>(_, u). Inr (0, u))))
          else Some (Inr (0, t)))"

section \<open>What a pass computes\<close>

text \<open>
  The reference: a list of payments cut greedily into pieces; a piece is closed by its eleventh
  payment or by the one that lifts its sum above the bound. The last piece may be open.
\<close>

fun pieces :: "int \<Rightarrow> int list \<Rightarrow> int list \<Rightarrow> int list list \<times> int list" where
  "pieces avg cur [] = ([], cur)"
| "pieces avg cur (x # xs) =
     (if 10 \<le> length cur \<or> avg < sum_list (cur @ [x])
      then (case pieces avg [] xs of (ds, r) \<Rightarrow> ((cur @ [x]) # ds, r))
      else pieces avg (cur @ [x]) xs)"

lemma pieces_snoc:
  "pieces avg cur (xs @ [x]) = (case pieces avg cur xs of (ds, r) \<Rightarrow>
     if 10 \<le> length r \<or> avg < sum_list (r @ [x]) then (ds @ [r @ [x]], []) else (ds, r @ [x]))"
  by (induction avg cur xs rule: pieces.induct) (auto split: prod.splits)

lemma pieces_snoc_eq: "pieces avg cur xs = (ds, r) \<Longrightarrow> pieces avg cur (xs @ [x]) =
    (if 10 \<le> length r \<or> avg < sum_list (r @ [x]) then (ds @ [r @ [x]], []) else (ds, r @ [x]))"
  by (simp only: pieces_snoc prod.case)

lemma pieces_concat: "pieces avg cur xs = (ds, r) \<Longrightarrow> concat ds @ r = cur @ xs"
  by (induction avg cur xs arbitrary: ds rule: pieces.induct) (auto split: prod.splits if_splits)

definition closed_piece :: "int \<Rightarrow> int list \<Rightarrow> bool" where
  "closed_piece avg d \<longleftrightarrow> d \<noteq> [] \<and> length d \<le> 11 \<and> (length d = 11 \<or> avg < sum_list d)"

lemma pieces_closed:
  "pieces avg cur xs = (ds, r) \<Longrightarrow> length cur \<le> 10 \<Longrightarrow> (\<forall>d \<in> set ds. closed_piece avg d) \<and> length r \<le> 10"
proof (induction avg cur xs arbitrary: ds rule: pieces.induct)
  case (1 avg cur)
  then show ?case by simp
next
  case (2 avg cur x xs)
  show ?case
  proof (cases "10 \<le> length cur \<or> avg < sum_list (cur @ [x])")
    case True
    with 2 show ?thesis by (auto simp: closed_piece_def split: prod.splits)
  next
    case False
    with 2 show ?thesis by auto
  qed
qed

text \<open>The state of a pass that has seen the payments \<open>concat ds @ r\<close>.\<close>

definition cut_matches :: "int list list \<Rightarrow> int list \<Rightarrow> cut_state \<Rightarrow> bool" where
  "cut_matches ds r c \<longleftrightarrow>
     k_index c = int (length ds) \<and> k_tmp c = sum_list r \<and> k_inner c = int (length r)
   \<and> length (k_flg c) = 512 \<and> length (k_pay c) = 512
   \<and> (\<forall>j < length ds. k_pay c ! j = sum_list (ds ! j)
        \<and> k_flg c ! j = int (length (concat (take (Suc j) ds))) - 1)
   \<and> (r \<noteq> [] \<longrightarrow> k_pay c ! length ds = sum_list r \<and> k_flg c ! length ds = int (length (concat ds @ r)) - 1)"

lemma sum_list_part: "(\<forall>p \<in> set xs. 0 \<le> p) \<Longrightarrow> xs = a @ b @ c \<Longrightarrow> sum_list b \<le> sum_list (xs :: int list)"
  by (auto intro: add_increasing2 add_increasing simp: sum_list_nonneg)

lemma length_concat_ge: "\<forall>d \<in> set ds. d \<noteq> [] \<Longrightarrow> length ds \<le> length (concat ds)"
  by (induction ds) (auto simp: neq_Nil_conv)

lemma cut_step_matches:
  assumes m: "cut_matches ds r c" and i: "i = length (concat ds @ r)" "i < length ps" "i < 512"
    and p: "ps ! i = x" and range: "int_range (sum_list (r @ [x]))" and short: "length ds < 512"
  shows "\<exists>c'. cut_step ps avg (int i) c = Inr c'
    \<and> (if 10 \<le> length r \<or> avg < sum_list (r @ [x]) then cut_matches (ds @ [r @ [x]]) [] c' else cut_matches ds (r @ [x]) c')"
proof -
  have st: "k_index c = int (length ds)" "k_tmp c = sum_list r" "k_inner c = int (length r)"
    "length (k_flg c) = 512" "length (k_pay c) = 512" using m by (auto simp: cut_matches_def)
  have step: "cut_step ps avg (int i) c = Inr
     (if 10 \<le> length r \<or> avg < sum_list (r @ [x])
      then c\<lparr>k_tmp := 0, k_inner := 0, k_index := k_index c + 1, k_flg := (k_flg c)[length ds := int i],
             k_pay := (k_pay c)[length ds := sum_list (r @ [x])]\<rparr>
      else c\<lparr>k_tmp := sum_list (r @ [x]), k_inner := k_inner c + 1, k_flg := (k_flg c)[length ds := int i],
             k_pay := (k_pay c)[length ds := sum_list (r @ [x])]\<rparr>)"
  proof -
    have "vget ps (int i) = Inr x" using i(2) p by simp
    moreover have "int_range (sum_list r + x)" using range by simp
    ultimately show ?thesis using st short by (simp add: cut_step_def chk_ok)
  qed
  show ?thesis
  proof (cases "10 \<le> length r \<or> avg < sum_list (r @ [x])")
    case True
    then show ?thesis
      using m i(1) short unfolding step
      by (auto simp: cut_matches_def nth_append nth_list_update less_Suc_eq)
  next
    case False
    then show ?thesis
      using m i(1) short unfolding step
      by (auto simp: cut_matches_def nth_list_update)
  qed
qed

lemma cut_pass_loop:
  assumes ps: "k \<le> length ps" "k \<le> 512" "length flg = 512" "length pay = 512"
    and pos: "\<forall>p \<in> set (take k ps). 0 \<le> p" and sum: "sum_list (take k ps) < 2 ^ 31"
  shows "\<exists>c. cut_pass ps avg (int k) flg pay = Inr c
    \<and> (case pieces avg [] (take k ps) of (ds, r) \<Rightarrow> cut_matches ds r c)"
  using ps(1,2) pos sum
proof (induction k)
  case 0
  then show ?case using ps(3,4) by (simp add: cut_pass_def cut_matches_def)
next
  case (Suc k)
  have t: "take (Suc k) ps = take k ps @ [ps ! k]" using Suc.prems(1) by (simp add: take_Suc_conv_app_nth)
  have pos: "\<forall>p \<in> set (take k ps). 0 \<le> p" "0 \<le> ps ! k" using Suc.prems(3) t by auto
  have "sum_list (take k ps) < 2 ^ 31" using Suc.prems(4) pos(2) t by simp
  then obtain c where c: "cut_pass ps avg (int k) flg pay = Inr c"
      "case pieces avg [] (take k ps) of (ds, r) \<Rightarrow> cut_matches ds r c"
    using Suc.IH Suc.prems(1,2) pos(1) by auto
  obtain ds r where dr: "pieces avg [] (take k ps) = (ds, r)" by force
  have cat: "concat ds @ r = take k ps" using pieces_concat [OF dr] by simp
  have len: "length (concat ds @ r) = k" using cat Suc.prems(1) by simp
  have "length ds \<le> length (concat ds)"
    using pieces_closed [OF dr] by (intro length_concat_ge) (auto simp: closed_piece_def)
  then have short: "length ds < 512" using len Suc.prems(2) by simp
  have "sum_list (r @ [ps ! k]) \<le> sum_list (take (Suc k) ps)"
    using Suc.prems(3) cat by (intro sum_list_part [of _ "concat ds" _ "[]"]) (simp_all add: t)
  moreover have "0 \<le> sum_list (r @ [ps ! k])"
  proof -
    have "set r \<subseteq> set (take k ps)" by (metis cat set_append sup_ge2)
    then show ?thesis using Suc.prems(3) by (intro sum_list_nonneg) (auto simp: t)
  qed
  ultimately have range: "int_range (sum_list (r @ [ps ! k]))" using Suc.prems(4) by (simp add: int_range_def)
  have "cut_matches ds r c" using c(2) dr by simp
  from cut_step_matches [OF this len [symmetric] _ _ refl range short, of avg] Suc.prems(1,2)
  obtain c' where c': "cut_step ps avg (int k) c = Inr c'"
      "if 10 \<le> length r \<or> avg < sum_list (r @ [ps ! k]) then cut_matches (ds @ [r @ [ps ! k]]) [] c'
       else cut_matches ds (r @ [ps ! k]) c'" by auto
  have "cut_pass ps avg (int (Suc k)) flg pay = Inr c'"
    using c(1) c'(1) by (simp add: cut_pass_def upto_snoc rfold_append)
  moreover have "case pieces avg [] (take (Suc k) ps) of (ds, r) \<Rightarrow> cut_matches ds r c'"
  proof (cases "10 \<le> length r \<or> avg < sum_list (r @ [ps ! k])")
    case True
    with c'(2) have "cut_matches (ds @ [r @ [ps ! k]]) [] c'" by (simp only: if_True)
    moreover have "pieces avg [] (take (Suc k) ps) = (ds @ [r @ [ps ! k]], [])"
      unfolding t using pieces_snoc_eq [OF dr] True by (simp only: if_True)
    ultimately show ?thesis by (simp only: prod.case)
  next
    case False
    with c'(2) have "cut_matches ds (r @ [ps ! k]) c'" by (simp only: if_False)
    moreover have "pieces avg [] (take (Suc k) ps) = (ds, r @ [ps ! k])"
      unfolding t using pieces_snoc_eq [OF dr] False by (simp only: if_False)
    ultimately show ?thesis by (simp only: prod.case)
  qed
  ultimately show ?case by (intro exI [of _ c'] conjI)
qed

section \<open>The rounds and the payments\<close>

text \<open>When the rounds end before the limit, the last pass gave one piece per vehicle, none unpaid.\<close>

lemma calc_loop_fits:
  assumes "calc_loop (calc_round pass n) left st = Inr (False, a, flg, pay)"
  shows "\<exists>flg0 pay0 c. pass a flg0 pay0 = Inr c \<and> k_index c = n - 1 \<and> vget (k_pay c) (n - 1) \<noteq> Inr 0
    \<and> flg = k_flg c \<and> pay = k_pay c"
  using assms
proof (induction left arbitrary: st)
  case 0
  then show ?case by (auto simp: rbind_eq_Inr)
next
  case (Suc left)
  obtain a0 f0 p0 where st: "st = (a0, f0, p0)" by (cases st)
  from Suc.prems obtain stop st' where r: "calc_round pass n st = Inr (stop, st')"
    and rest: "(if stop then Inr (False, st') else calc_loop (calc_round pass n) left st') = Inr (False, a, flg, pay)"
    by (auto simp: rbind_eq_Inr)
  show ?case
  proof (cases stop)
    case False
    with rest Suc.IH show ?thesis by simp
  next
    case True
    with rest r have "calc_round pass n (a0, f0, p0) = Inr (True, a, flg, pay)" by (simp add: st)
    then obtain c p where c: "pass a0 f0 p0 = Inr c" "k_index c = n - 1" "vget (k_pay c) (k_index c) = Inr p" "p \<noteq> 0"
        "a = a0" "flg = k_flg c" "pay = k_pay c"
      unfolding calc_round_def Let_def prod.case rbind_eq_Inr
      by (auto simp: rbind_eq_Inr split: if_splits)
    then show ?thesis by (intro exI [of _ f0] exI [of _ p0] exI [of _ c]) simp
  qed
qed

lemma pay_step_never: "pay_step A tot i acc s \<noteq> Inr (Inr a, t)"
  by (cases tot) (auto simp: pay_step_def Let_def act_Inr freed_row_def split: prod.splits)

lemma calc_load_never:
  assumes "v_copy s \<noteq> []"
  shows "calc_load A s \<noteq> Inr (Inr a, t)"
proof
  assume "calc_load A s = Inr (Inr a, t)"
  then obtain rows s1 acc t' where l: "pay_loop A rows [0..int (length (v_copy s)) - 1] (0, 0) s1 = Inr (Inr acc, t')"
    by (auto simp: calc_load_def act_Inr)
  obtain m where "length (v_copy s) = Suc m" using assms by (cases "v_copy s") auto
  then have "[0..int (length (v_copy s)) - 1] = 0 # [1..int m]" using upto_rec1 [of 0 "int m"] by simp
  with l show False by (auto simp: abind_eq_Inr pay_step_never)
qed

lemma calc_codes: "exit_codes {500} (abind (calc_load A) calc_balance)"
proof -
  have step: "exit_codes {500} (pay_step A tot i acc)" for tot i acc
    unfolding pay_step_def Let_def split_beta by (intro exit_intros) simp_all
  have "exit_codes {500} (pay_loop A tot is acc)" for tot "is" acc
    by (induction "is" arbitrary: acc) (auto intro!: exit_intros step)
  then show ?thesis
    unfolding calc_load_def calc_balance_def split_beta by (intro exit_intros) simp_all
qed

lemma OnCalc_with_stops:
  assumes "v_copy s \<noteq> []"
  shows "(\<exists>e. OnCalcDeliveryData A s = Some (Inl e)) \<or> (\<exists>t. OnCalcDeliveryData A s = Some (Inr (500, t)))"
proof (cases "abind (calc_load A) calc_balance s")
  case (Inl e)
  then show ?thesis by (subst (1 2) OnCalcDeliveryData.simps) simp
next
  case (Inr rt)
  obtain r t where rt: "rt = (r, t)" by force
  show ?thesis
  proof (cases r)
    case (Inl c)
    then have "c = 500" using exit_codesD [OF calc_codes] Inr rt by auto
    then show ?thesis using Inr rt Inl by (subst (1 2) OnCalcDeliveryData.simps) simp
  next
    case (Inr b)
    then show ?thesis using calc_load_never [OF assms] \<open>abind (calc_load A) calc_balance s = Inr rt\<close> rt
      by (auto simp: abind_eq_Inr)
  qed
qed

section \<open>Without stops\<close>

text \<open>Without stops a pass leaves the arrays; no round fits when there are two or more vehicles.\<close>

lemma empty_rounds:
  assumes "1 < n" and "int_range (a0 - 2000 * (int left + 1))" and "a0 \<le> 0"
  shows "\<exists>st'. calc_loop (calc_round (\<lambda>a f p. cut_pass [] a 0 f p) n) left (a0, f, p) = Inr (True, st')"
  using assms
proof (induction left arbitrary: a0 f p)
  case 0
  then show ?case by (simp add: calc_round_def cut_pass_def chk_ok)
next
  case (Suc left)
  have "int_range (a0 - 2000)" "int_range (a0 - 2000 - 2000 * (int left + 1))"
    using Suc.prems(2,3) by (auto simp: int_range_def)
  then show ?case
    using Suc.IH [of "a0 - 2000"] Suc.prems(1,3) by (simp add: calc_round_def cut_pass_def chk_ok)
qed

lemma round64_zero: "round64 0 = Num 0"
  by (simp add: round64_def round_binary_def)

lemma calc_empty:
  assumes "always_answers A" and "v_copy s = []" and "1 < v_vehicleNumber s"
    and "sprintf 1024 sql_pay_total (total_args s) = Inr sql"
  shows "\<exists>t. abind (calc_load A) calc_balance s = Inr (Inr True, t) \<and> v_copy t = []
    \<and> v_vehicleNumber t = v_vehicleNumber s \<and> total_args t = total_args s"
proof -
  obtain e1 where c: "api_connect A 1 (p_env s) = (True, e1)"
    using assms(1) unfolding always_answers_def by (metis prod.collapse)
  obtain rows e2 where q: "api_query A 1 sql e1 = (Some rows, e2)"
    using assms(1) unfolding always_answers_def by (metis option.exhaust prod.collapse)
  have load: "calc_load A s = Inr (Inr 0, s\<lparr>p_env := e2\<rparr>)"
    using c q assms(2,4) by (simp add: calc_load_def abind_def db_connect_def db_query_def total_args_def)
  obtain x where "round64 (9 / 10) = Num x" using round64_between [of "9 / 10" 1] by auto
  then have avg: "first_avg 0 (v_vehicleNumber s) = Inr 0"
    using assms(3) by (simp add: first_avg_def int_div_def c_div_def chk_ok int_range_def round64_zero trunc_rat_def)
  obtain a f p where "calc_loop (calc_round (\<lambda>a f p. cut_pass [] a 0 f p) (v_vehicleNumber s)) 130
      (0, v_vehicleFlg s, v_vehiclePay s) = Inr (True, a, f, p)"
    using empty_rounds [OF assms(3), of 0 130 "v_vehicleFlg s" "v_vehiclePay s"] by (auto simp: int_range_def)
  then have "abind (calc_load A) calc_balance s
      = Inr (Inr True, s\<lparr>p_env := e2, v_vehicleFlg := f, v_vehiclePay := p\<rparr>)"
    using load avg assms(2) by (simp add: abind_Inr [where m = "calc_load A", OF load] calc_balance_def abind_run)
  with assms(2) show ?thesis by (auto simp: total_args_def)
qed

lemma OnCalc_empty_never:
  assumes "OnCalcDeliveryData A s = Some r" and "always_answers A" and "v_copy s = []" and "1 < v_vehicleNumber s"
    and "sprintf 1024 sql_pay_total (total_args s) = Inr sql"
  shows False
proof -
  let ?P = "\<lambda>A s r. always_answers A \<longrightarrow> v_copy s = [] \<longrightarrow> 1 < v_vehicleNumber s
    \<longrightarrow> sprintf 1024 sql_pay_total (total_args s) = Inr sql \<longrightarrow> False"
  have "?P A s r"
  proof (rule OnCalcDeliveryData.raw_induct [OF _ assms(1), where P = ?P])
    fix rec :: "'a env_api \<Rightarrow> 'a program \<Rightarrow> (int \<times> 'a program) res option" and A s r
    assume IH: "\<And>A s r. rec A s = Some r \<Longrightarrow> ?P A s r"
      and step: "(case abind (calc_load A) calc_balance s of Inl e \<Rightarrow> Some (Inl e) | Inr (Inl c, t) \<Rightarrow> Some (Inr (c, t))
        | Inr (Inr recall, t) \<Rightarrow> if recall then Option.bind (rec A t) (\<lambda>r. Some (rbind r (\<lambda>(_, u). Inr (0, u))))
            else Some (Inr (0, t))) = Some r"
    show "?P A s r"
    proof (intro impI)
      assume h: "always_answers A" "v_copy s = []" "1 < v_vehicleNumber s" "sprintf 1024 sql_pay_total (total_args s) = Inr sql"
      from calc_empty [OF h] obtain t where t: "abind (calc_load A) calc_balance s = Inr (Inr True, t)" "v_copy t = []"
          "v_vehicleNumber t = v_vehicleNumber s" "total_args t = total_args s" by blast
      with step obtain r' where "rec A t = Some r'" by (auto simp: Option.bind_eq_Some_conv)
      with IH [of A t r'] t h show False by simp
    qed
  qed
  with assms show False by simp
qed

end
