(* ===== verification/Storing.thy ===== *)
theory Storing
  imports Delivery Store Balance "HOL-Library.Code_Target_Nat"
begin

text \<open>
  The properties of the steps 05 and 08 of \<open>TSP/TspView.cpp\<close>: how the tour is cut among the
  vehicles, where that step fails, and which rows the storing sends.
\<close>

section \<open>Properties of the storing\<close>

lemma stop_stored:
  assumes "OnVehicleDataInsert (logged A) s = Inr (Inr (), t)" and "j < length (v_copy s)"
    and "Suc j = length (v_copy s) \<or> f_accnoDuple (cc_data (v_copy s ! Suc j)) = []"
  shows "\<exists>sql. stop_query s j sql \<and> (1, sql) \<in> set (query_log t)"
proof -
  from assms(1) obtain s1 r2 s2 r3 s3 s4 where st:
      "db_connect (logged A) 1 0 s = Inr (Inr (), s1)" "db_query (logged A) 1 0 512 sql_set_names [] s1 = Inr (Inr r2, s2)"
      "db_query (logged A) 1 800 1024 sql_delete (vehicle_args s2) s2 = Inr (Inr r3, s3)"
      "afor (insert_stop (logged A)) [0..int (length (v_copy s3)) - 1] s3 = Inr (Inr (), s4)"
    and last: "renumber_errors (logged A) (vehicle_args s2) (int (length (v_copy s3))) s4 = Inr (Inr (), t)"
    by (auto simp: OnVehicleDataInsert_def abind_run abind_eq_Inr)
  have "store_view s3 = store_view s"
    using keepsD [OF keeps_db_connect st(1), of store_view] keepsD [OF keeps_db_query st(2), of store_view]
      keepsD [OF keeps_db_query st(3), of store_view] by (simp add: store_view_def)
  then have view: "v_copy s3 = v_copy s" "\<And>j sql. stop_query s3 j sql = stop_query s j sql"
    using stop_query_view by (auto simp: store_view_def)
  obtain sql where "stop_query s3 j sql" "(1, sql) \<in> set (query_log s4)"
    using insert_stops_send [OF st(4)] assms(2,3) view(1) by auto
  with log_growsD [OF log_renumber last] view(2) show ?thesis by blast
qed


text \<open>One stop, the depot: its copy, the answers of the database, and a run that completes.\<close>

definition depot_copies :: "ChromosomeCopy list" where
  "depot_copies = [\<lparr>cc_id = 1, cc_originId = None, cc_data = sample_fields\<rparr>]"

definition sample_store :: "(row list option list \<times> (nat \<times> string) list) program" where
  "sample_store = (sample_program ([Some [], Some [], Some [replicate 17 (Some ''7'')], Some [], Some [], Some []], []))
     \<lparr>v_copy := depot_copies\<rparr>"

lemma sample_store_runs: "\<exists>t. OnVehicleDataInsert (logged script_api) sample_store = Inr (Inr (), t)"
proof -
  have "finishes (\<lambda>t. True) (OnVehicleDataInsert (logged script_api) sample_store)"
    by code_simp
  then show ?thesis by (auto simp: finishes_iff)
qed


text \<open>
  Step 08 returns 0, 100 or 800, but 0 also when it could not even connect: then nothing
  was stored and nothing tells the caller.
\<close>

theorem failed_store_reports_success:
  assumes "api_connect A 1 (p_env s) = (False, e)"
  shows "returned (OnVehicleDataInsert A) s = Inr (0, s\<lparr>p_env := e\<rparr>)"
  using assms by (simp add: returned_def OnVehicleDataInsert_def abind_def db_connect_def)

theorem failed_store_reports_success_witness:
  "\<exists>t. returned (OnVehicleDataInsert (script_api\<lparr>api_connect := \<lambda>c e. (False, e)\<rparr>)) (sample_program []) = Inr (0, t)"
  using failed_store_reports_success [of "script_api\<lparr>api_connect := \<lambda>c e. (False, e)\<rparr>" "sample_program []"] by simp

section \<open>Properties of the balancing\<close>

text \<open>
  C20. A pass over the stops computes the greedy cut: the pieces concatenate to the payments, none
  has more than eleven stops, a closed piece has eleven stops or exceeds the bound, and the
  arrays hold the last stop and the payment of every piece.
\<close>

theorem pass_cuts_greedily:
  assumes "k \<le> length ps" and "k \<le> 512" and "length flg = 512" and "length pay = 512"
    and "\<forall>p \<in> set (take k ps). 0 \<le> p" and "sum_list (take k ps) < 2 ^ 31"
  shows "\<exists>c ds r. cut_pass ps avg (int k) flg pay = Inr c \<and> pieces avg [] (take k ps) = (ds, r)
    \<and> concat ds @ r = take k ps \<and> (\<forall>d \<in> set ds. closed_piece avg d) \<and> length r \<le> 10 \<and> cut_matches ds r c"
proof -
  obtain ds r where dr: "pieces avg [] (take k ps) = (ds, r)" by force
  then obtain c where "cut_pass ps avg (int k) flg pay = Inr c" "cut_matches ds r c"
    using cut_pass_loop [OF assms, of avg] by auto
  with dr pieces_concat [OF dr] pieces_closed [OF dr] show ?thesis
    by (intro exI conjI) auto
qed

theorem pass_cuts_greedily_witness:
  "\<exists>c. cut_pass [5, 6, 7] 10 (int 3) (replicate 512 0) (replicate 512 0) = Inr c \<and> cut_matches [[5, 6]] [7] c"
proof -
  let ?z = "replicate 512 0 :: int list"
  have p: "take 3 [5, 6, 7] = [5, 6, 7 :: int]" "pieces 10 [] [5, 6, 7] = ([[5, 6]], [7])" by simp_all
  have "\<exists>c ds r. cut_pass [5, 6, 7] 10 (int 3) ?z ?z = Inr c \<and> pieces 10 [] (take 3 [5, 6, 7]) = (ds, r)
    \<and> concat ds @ r = take 3 [5, 6, 7] \<and> (\<forall>d \<in> set ds. closed_piece 10 d) \<and> length r \<le> 10 \<and> cut_matches ds r c"
  proof (rule pass_cuts_greedily)
    show "length ?z = 512" "length ?z = 512" by (rule length_replicate)+
  qed simp_all
  then show ?thesis unfolding p by blast
qed


lemma balanced_sample:
  "calc_loop (calc_round (\<lambda>a. cut_pass [5, 6, 7] a 3) 2) (Suc 0) (10, [0, 0], [0, 0]) = Inr (False, 10, [1, 2], [11, 7])"
  by (simp add: calc_round_def cut_pass_def cut_step_def upto_rec1 vget_def vset_def chk_def int_range_def)




text \<open>
  C23. Without stops and with two or more vehicles step 05 never returns while the database
  answers: no bound on the payments gives more than one piece, and the step calls itself again.
\<close>

theorem empty_balancing_never_returns:
  assumes "always_answers A" and "v_copy s = []" and "1 < v_vehicleNumber s"
    and "sprintf 1024 sql_pay_total (total_args s) = Inr sql"
  shows "OnCalcDeliveryData A s = None"
proof (rule ccontr)
  assume "OnCalcDeliveryData A s \<noteq> None"
  then obtain r where "OnCalcDeliveryData A s = Some r" by auto
  from OnCalc_empty_never [OF this assms] show False .
qed

definition constant_api :: "unit env_api" where
  "constant_api = \<lparr>api_connect = (\<lambda>c e. (True, e)), api_query = (\<lambda>c q e. (Some [], e)),
     api_set_criteria = (\<lambda>n e. e), api_start = (\<lambda>b w e. e),
     api_state = (\<lambda>e. (GAS_CRITERIA_STOPPED, e)), api_events = (\<lambda>w e. ([], e))\<rparr>"

lemma sample_total: "\<exists>sql. sprintf 1024 sql_pay_total [AStr [], AStr [], AStr [], AStr []] = Inr sql"
  by (rule sprintf_ok) code_simp+

theorem empty_balancing_never_returns_witness:
  "OnCalcDeliveryData constant_api ((sample_program ())\<lparr>v_vehicleNumber := 2\<rparr>) = None"
proof -
  obtain sql where "sprintf 1024 sql_pay_total (total_args ((sample_program ())\<lparr>v_vehicleNumber := 2\<rparr>)) = Inr sql"
    using sample_total by (auto simp: total_args_def sample_program_def TSPView_new_def)
  then show ?thesis
    by (intro empty_balancing_never_returns)
      (simp_all add: always_answers_def constant_api_def sample_program_def TSPView_new_def)
qed

end
