(* ===== verification/Rehearsal.thy ===== *)
theory Rehearsal
  imports Delivery Store "HOL-Library.Code_Target_Nat"
begin

text \<open>
  A complete run on a small day: two orders at two places, a database that answers every query
  of the script, and an algorithm that notifies one tour. The run is carried out step by step
  with the lengths of the query texts only, not the texts; it shows that the hypotheses of the
  properties of the whole program can hold.
\<close>

section \<open>The day\<close>

definition order_row :: row where
  "order_row = sample_row[17 := Some []]"

definition day_script :: "row list option list" where
  "day_script = [Some [], Some [[Some ''2'']], Some [order_row, order_row], Some [], Some [order_row], Some [order_row],
     Some [], Some [], Some [], Some [],
     Some [], Some [], Some [replicate 17 (Some ''7'')], Some [[Some ''name'', Some ''address'']], Some [],
     Some [replicate 17 (Some ''7'')], Some [], Some [], Some []]"

definition tour_api :: "row list option list env_api" where
  "tour_api = script_api\<lparr>api_events := \<lambda>w e. ([BestEvent [Some 1, Some 0] (Num 0)], e)\<rparr>"

section \<open>Running a script\<close>

lemma answered_query:
  assumes "p_env s = Some rows # e" and "arity_ok ps xs" and "text_size ps + sum_list (map arg_size xs) < cap"
  shows "db_query tour_api c code cap ps xs s = Inr (Inr rows, s\<lparr>p_env := e\<rparr>)"
  using sprintf_ok [OF assms(2,3)] assms(1) by (auto simp: db_query_def tour_api_def script_api_def)

lemma answered_connect: "db_connect tour_api c code s = Inr (Inr (), s)"
  by (simp add: db_connect_def tour_api_def script_api_def)

lemma no_text: "widen [] = []" "narrow [] = []"
  by (simp_all add: widen_def narrow_def)

definition day_order :: VectorOrderData where
  "day_order = \<lparr>ve_seq = ''1'', ve_accno = ''1'', ve_locationId = ''1'', ve_deliveryDate = ''1'', ve_meridiemType = ''1'',
     ve_guestId = ''1'', ve_guestName = ''1'', ve_guestTel = ''1'', ve_guestJusoSubId = ''1'', ve_guestJuso = ''1'',
     ve_pay = ''1'', ve_guestLat = ''1'', ve_guestLon = ''1'', ve_isNew = ''1'', ve_isShop = ''1'', ve_isRoad = ''1'',
     ve_createDate = ''1'', ve_accnoDupleJuso = []\<rparr>"

lemma read_day_order: "read_order order_row = Inr day_order"
  by code_simp

lemma order_row_columns: "column order_row 1 = Inr ''1''" "column order_row 6 = Inr ''1''" "column order_row 28 = Inr ''1''"
  by code_simp+

lemma two_orders: "rbind (column [Some ''2''] 0) atoi = Inr 2"
  by code_simp

definition store_script :: "row list option list" where
  "store_script = [Some [], Some [], Some [replicate 17 (Some ''7'')], Some [[Some ''name'', Some ''address'']], Some [],
     Some [replicate 17 (Some ''7'')], Some [], Some [], Some []]"

lemma day_script_eq: "day_script = [Some [], Some [[Some ''2'']], Some [order_row, order_row], Some [], Some [order_row], Some [order_row],
     Some [], Some [], Some [], Some []] @ store_script"
  by (simp add: day_script_def store_script_def)

lemma run_query:
  assumes "p_env s = Some rows # e" and "arity_ok ps xs" and "text_size ps + sum_list (map arg_size xs) < cap"
  shows "abind (db_query tour_api c code cap ps xs) f s = f rows (s\<lparr>p_env := e\<rparr>)"
  using answered_query [OF assms] by (rule abind_Inr)

lemma run_connect: "abind (db_connect tour_api c code) f s = f () s"
  using answered_connect by (rule abind_Inr)

lemma run_sprintf:
  assumes "arity_ok ps xs" and "text_size ps + sum_list (map arg_size xs) < cap"
  shows "rbind (sprintf cap ps xs) (\<lambda>_. r) = r"
  using sprintf_ok [OF assms] by auto

lemmas run = run_query run_connect run_sprintf abind_assoc abind_aget abind_amodify abind_ares format_sizes format_arities

section \<open>The states after each step\<close>

definition day_counted :: "row list option list program" where
  "day_counted = (sample_program (drop 2 day_script))
    \<lparr>v_completeLoad := Some False, v_count := Some 2, v_vehiclePayIndex := Some [0, 0], v_orders := [blank_order, blank_order]\<rparr>"

lemma day_load_count: "load_count tour_api ((sample_program day_script)\<lparr>v_completeLoad := Some False\<rparr>) = Inr (Inr (), day_counted)"
  by (simp add: load_count_def run day_script_eq day_counted_def sample_program_def TSPView_new_def order_args_def two_orders
     first_row_def resize_def numeral_2_eq_2)

definition day_ordered :: "row list option list program" where
  "day_ordered = day_counted\<lparr>v_orders := [day_order, day_order], p_env := drop 6 day_script\<rparr>"

lemma day_load_orders: "load_orders tour_api day_counted = Inr (Inr (), day_ordered)"
  by (simp add: load_orders_def load_order_def set_order_def run day_script_eq day_counted_def day_ordered_def sample_program_def TSPView_new_def order_args_def
     first_row_def upto_rec1 order_row_columns read_day_order vset_def )

lemma day_load_pay: "afor (load_pay tour_api) [0..1] day_ordered = Inr (Inr (), day_ordered)"
  by (simp add: load_pay_def run day_counted_def day_ordered_def upto_rec1 vget_def day_order_def abind_def)

definition day_loaded :: "row list option list program" where
  "day_loaded = day_ordered\<lparr>v_mutual := replicate 2 (replicate 2 blank_mutual), p_env := store_script\<rparr>"

lemma day_cell:
  assumes "v_orders s = [day_order, day_order]" and "p_env s = Some [] # e" and "i \<in> {0, 1}" and "j \<in> {0, 1}"
    and "set_cell i j blank_mutual (v_mutual s) = Inr m"
  shows "load_cell tour_api i j s = Inr (Inr (), s\<lparr>p_env := e, v_mutual := m\<rparr>)"
  using assms by (auto simp: load_cell_def run mutual_args_def day_order_def vget_def)

lemma day_row:
  assumes "v_orders s = [day_order, day_order]" and "p_env s = Some [] # Some [] # e" and "v_mutual s = m" and "i = int (length m)" and "length m < 2"
  shows "load_row tour_api 2 i s = Inr (Inr (), s\<lparr>p_env := e, v_mutual := m @ [replicate 2 blank_mutual]\<rparr>)"
proof -
  let ?r = "[blank_mutual, blank_mutual]"
  have i: "i \<in> {0, 1}" using assms(4,5) by (cases m) simp_all
  have r: "rbind (vget (m @ [[]]) i) (\<lambda>r. rbind (resize blank_mutual 2 r) (\<lambda>r'. vset (m @ [[]]) i r')) = Inr (m @ [?r])"
    using assms(4) by (simp add: vget_def vset_def resize_def numeral_2_eq_2)
  have c: "set_cell i j blank_mutual (m @ [?r]) = Inr (m @ [?r])" if "j \<in> {0, 1}" for j
    using assms(4) that by (auto simp: set_cell_def vget_def vset_def)
  let ?s = "s\<lparr>v_mutual := m @ [[]], v_mutual := m @ [?r]\<rparr>"
  have 1: "load_cell tour_api i 0 ?s = Inr (Inr (), ?s\<lparr>p_env := Some [] # e, v_mutual := m @ [?r]\<rparr>)"
    using assms(1,2) i c by (intro day_cell) auto
  have 2: "load_cell tour_api i 1 (?s\<lparr>p_env := Some [] # e, v_mutual := m @ [?r]\<rparr>)
      = Inr (Inr (), ?s\<lparr>p_env := Some [] # e, v_mutual := m @ [?r], p_env := e, v_mutual := m @ [?r]\<rparr>)"
    using assms(1) i c by (intro day_cell) auto
  have "[0..2 - 1] = [0, 1 :: int]" by (simp add: upto_rec1)
  then show ?thesis
    unfolding load_row_def run using r assms(3) 1 2 by (simp add: numeral_2_eq_2 abind_Inr)
qed

lemma day_load_mutual: "load_mutual tour_api day_ordered = Inr (Inr (), day_loaded)"
proof -
  have s: "v_orders day_ordered = [day_order, day_order]" "p_env day_ordered = Some [] # Some [] # Some [] # Some [] # store_script"
    "v_mutual day_ordered = []" "v_count day_ordered = Some 2"
    by (simp_all add: day_ordered_def day_counted_def day_script_eq sample_program_def TSPView_new_def)
  let ?r = "replicate 2 blank_mutual"
  let ?s = "day_ordered\<lparr>p_env := Some [] # Some [] # store_script, v_mutual := [] @ [?r]\<rparr>"
  have "load_row tour_api 2 0 day_ordered = Inr (Inr (), ?s)" using s by (intro day_row) auto
  moreover have "load_row tour_api 2 1 ?s = Inr (Inr (), ?s\<lparr>p_env := store_script, v_mutual := [?r] @ [?r]\<rparr>)"
    using s by (intro day_row) auto
  moreover have "[0..2 - 1] = [0, 1 :: int]" by (simp add: upto_rec1)
  ultimately show ?thesis
    using s by (simp add: load_mutual_def get_count_def run abind_Inr day_loaded_def numeral_2_eq_2)
qed

lemma day_load: "OnLoadDeliveryData tour_api (sample_program day_script) = Inr (Inr (), day_loaded)"
proof -
  have "v_orders day_ordered = [day_order, day_order]" by (simp add: day_ordered_def)
  then show ?thesis
    by (simp add: OnLoadDeliveryData_def abind_run abind_Inr day_load_count day_load_orders day_load_pay day_load_mutual)
qed

definition day_set :: "row list option list program" where
  "day_set = day_loaded\<lparr>p_world := add_orders [day_order, day_order] empty_world, v_best := []\<rparr>"

lemma day_set: "OnSetDeliveryData day_loaded = Inr (Inr (), day_set)"
proof -
  have s: "v_orders day_loaded = [day_order, day_order]" "v_count day_loaded = Some (int 2)" "p_world day_loaded = empty_world"
    by (simp_all add: day_loaded_def day_ordered_def day_counted_def sample_program_def TSPView_new_def)
  then show ?thesis
    using OnSet_eq [OF s(2)] by (simp add: empty_world_start int_range_def day_set_def)
qed

definition day_found :: "row list option list program" where
  "day_found = day_set\<lparr>p_generationLimit := 70000, v_best := [Some 1, Some 0], v_fitness := Num 0\<rparr>"

lemma day_search: "OnSearchDeliveryData tour_api day_set = Some (0, day_found)"
  by (simp add: OnSearchDeliveryData_def start_solving_def smartInit_def wait_loop.simps poll_def tour_api_def script_api_def Let_def
     NewBestChromosome_def day_found_def)

definition day_copy :: "int \<Rightarrow> ChromosomeCopy" where
  "day_copy k = \<lparr>cc_id = k, cc_originId = None, cc_data = city_of_order day_order\<rparr>"

definition day_delivery :: "row list option list program" where
  "day_delivery = day_found\<lparr>v_relocation := [Some 0, Some 1], v_copy := [day_copy 1, day_copy 2]\<rparr>"

lemma day_relocation: "OnRelocationDeliveryData day_found = Inr (Inr (), day_delivery)"
proof -
  let ?c = "order_city [day_order, day_order]"
  have s: "v_best day_found = [Some 1, Some 0]" "p_world day_found = add_orders [day_order, day_order] empty_world" "v_copy day_found = []"
    by (simp_all add: day_found_def day_set_def day_loaded_def day_ordered_def day_counted_def sample_program_def TSPView_new_def)
  have "OnRelocationDeliveryData day_found = Inr (Inr (), day_found\<lparr>v_relocation := rotate 1 [Some 1, Some 0],
      v_copy := v_copy day_found @ map (\<lambda>p. copy_of_city (?c p)) (rotate 1 [Some 1, Some 0])\<rparr>)"
    using relocation_rotates [of day_found ?c 1] order_cities(2) [of _ "[day_order, day_order]"] s by (auto simp: order_city_def)
  then show ?thesis
    using s by (simp add: day_delivery_def day_copy_def copy_of_city_def order_city_def)
qed

lemma way_row: "vget (replicate 17 (Some ''7'')) 9 = Inr (Some ''7'')" "vget (replicate 17 (Some ''7'')) 12 = Inr (Some ''7'')"
  by (simp_all add: vget_def)

lemma seven: "atoi ''7'' = Inr 7" "length (show_int 7) = 1" "length (show_int 0) = 1" "length (show_int 1) = 1"
  by code_simp+

lemma day_stop0:
  assumes "v_copy s = [day_copy 1, day_copy 2]" and "p_env s = drop 2 store_script" and "v_vehicleNo s = []" and "v_locationId s = []"
    and "v_deliveryDate s = []" and "v_meridiemType s = []" and "v_meridiemFlag s = []"
  shows "insert_stop tour_api 0 s = Inr (Inr (), s\<lparr>p_env := drop 5 store_script\<rparr>)"
  using assms by (simp add: insert_stop_def load_way_def insert_way_def insert_single_def insert_row_def run next_copy_def vget_def
    store_script_def first_row_def column_def copy_column_def way_row seven distance_args_def guest_args_def stop_of_copies_def
    strcpy_def day_copy_def city_of_order_def day_order_def insert_arity insert_args_def no_text)

lemma day_stop1:
  assumes "v_copy s = [day_copy 1, day_copy 2]" and "p_env s = drop 5 store_script" and "v_vehicleNo s = []" and "v_locationId s = []"
    and "v_deliveryDate s = []" and "v_meridiemType s = []" and "v_meridiemFlag s = []"
  shows "insert_stop tour_api 1 s = Inr (Inr (), s\<lparr>p_env := drop 7 store_script\<rparr>)"
  using assms by (simp add: insert_stop_def load_way_def insert_way_def insert_last_def insert_row_def run next_copy_def vget_def
    store_script_def first_row_def column_def copy_column_def way_row seven distance_args_def guest_args_def stop_of_copies_def
    strcpy_def day_copy_def city_of_order_def day_order_def insert_arity insert_args_def no_text)

lemma day_store: "OnVehicleDataInsert tour_api day_delivery = Inr (Inr (), day_delivery\<lparr>p_env := []\<rparr>)"
proof -
  have s: "v_copy day_delivery = [day_copy 1, day_copy 2]" "p_env day_delivery = store_script" "v_vehicleNo day_delivery = []"
    "v_locationId day_delivery = []" "v_deliveryDate day_delivery = []" "v_meridiemType day_delivery = []" "v_meridiemFlag day_delivery = []"
    by (simp_all add: day_delivery_def day_found_def day_set_def day_loaded_def day_ordered_def day_counted_def sample_program_def TSPView_new_def)
  have e: "store_script = Some [] # Some [] # drop 2 store_script" "drop 7 store_script = [Some [], Some []]"
    by (simp_all add: store_script_def)
  have "[0..2 - 1] = [0, 1 :: int]" by (simp add: upto_rec1)
  then show ?thesis
    using s e by (simp add: OnVehicleDataInsert_def renumber_errors_def vehicle_args_def run abind_Inr day_stop0 day_stop1)
qed

end
