(* ===== verification/Pipeline.thy ===== *)
theory Pipeline
  imports Rehearsal
begin

text \<open>
  \<open>TSP/TSP.cpp\<close>: the thread that runs the steps of the view in order and the program entry that
  fills in the arguments and starts it. Each step's code is only printed; the next step runs
  whatever it is, so the model keeps the printed codes. Two details outside the model: the
  thread function ends without the \<open>return\<close> of its result, and \<open>main\<close> lets \<open>pthread_join\<close> store
  that pointer into an \<open>int\<close>; the number \<open>main\<close> prints from it is not modelled.
\<close>

section \<open>The thread\<close>

type_synonym 'e thread = "(int list \<times> 'e program) res option"

text \<open>One step after the steps before it; a step that never returns is \<open>None\<close>.\<close>

definition run_step :: "('e program \<Rightarrow> (int \<times> 'e program) res option) \<Rightarrow> 'e thread \<Rightarrow> 'e thread" where
  "run_step f r = Option.bind r (\<lambda>x. case x of
     Inl e \<Rightarrow> Some (Inl e)
   | Inr (cs, s) \<Rightarrow> map_option (\<lambda>y. rbind y (\<lambda>(c, t). Inr (cs @ [c], t))) (f s))"

definition t_function :: "'e env_api \<Rightarrow> 'e program \<Rightarrow> 'e thread" where
  "t_function A s =
     run_step (\<lambda>s. Some (returned (OnVehicleDataInsert A) s))
    (run_step (\<lambda>s. Some (returned OnRelocationDeliveryData s))
    (run_step (\<lambda>s. map_option Inr (OnSearchDeliveryData A s))
    (run_step (\<lambda>s. Some (returned OnSetDeliveryData s))
    (run_step (\<lambda>s. Some (returned (OnLoadDeliveryData A) s)) (Some (Inr ([], s)))))))"

section \<open>The program entry\<close>

text \<open>\<open>argv\<close> ends with a null pointer; the number of the arguments is not looked at.\<close>

definition argument :: "string list \<Rightarrow> nat \<Rightarrow> string res" where
  "argument argv i =
     (if i < length argv then Inr (argv ! i) else if i = length argv then Inl NullDeref else Inl OutOfBounds)"

definition start_program :: "string list \<Rightarrow> 'e \<Rightarrow> 'e program res" where
  "start_program argv e =
     rbind (rbind (argument argv 1) (strcpy 64)) (\<lambda>date.
     rbind (rbind (argument argv 2) (strcpy 64)) (\<lambda>type.
     rbind (rbind (argument argv 3) (strcpy 64)) (\<lambda>flag.
     rbind (rbind (argument argv 4) (strcpy 64)) (\<lambda>location.
     rbind (rbind (argument argv 5) (strcpy 64)) (\<lambda>vehicle.
     rbind (rbind (argument argv 6) atoi) (\<lambda>n.
       Inr ((TSPView_new empty_world 100000 1 e)\<lparr>v_deliveryDate := date, v_meridiemType := type,
         v_meridiemFlag := flag, v_locationId := location, v_vehicleNo := vehicle, v_vehicleNumber := n\<rparr>)))))))"

definition main :: "'e env_api \<Rightarrow> string list \<Rightarrow> 'e \<Rightarrow> 'e thread" where
  "main A argv e = (case start_program argv e of Inl x \<Rightarrow> Some (Inl x) | Inr s \<Rightarrow> t_function A s)"

section \<open>What the steps keep\<close>

lemma run_step_Some: "run_step f r = Some (Inr (cs, t)) \<longleftrightarrow>
  (\<exists>ds s c. r = Some (Inr (ds, s)) \<and> f s = Some (Inr (c, t)) \<and> cs = ds @ [c])"
proof (cases r)
  case (Some x)
  then show ?thesis by (cases x) (auto simp: run_step_def rbind_eq_Inr)
qed (simp add: run_step_def)

lemma run_step_None: "run_step f None = None"
  by (simp add: run_step_def)

lemma run_step_fault: "run_step f (Some (Inl e)) = Some (Inl e)"
  by (simp add: run_step_def)

lemma run_step_go: "run_step f (Some (Inr (cs, s))) = map_option (\<lambda>y. rbind y (\<lambda>(c, t). Inr (cs @ [c], t))) (f s)"
  by (simp add: run_step_def)

lemma t_function_Some: "t_function A s = Some (Inr (cs, z)) \<longleftrightarrow> (\<exists>c1 c2 c3 c4 c5 s1 s2 s3 s4.
    returned (OnLoadDeliveryData A) s = Inr (c1, s1) \<and> returned OnSetDeliveryData s1 = Inr (c2, s2)
  \<and> OnSearchDeliveryData A s2 = Some (c3, s3) \<and> returned OnRelocationDeliveryData s3 = Inr (c4, s4)
  \<and> returned (OnVehicleDataInsert A) s4 = Inr (c5, z) \<and> cs = [c1, c2, c3, c4, c5])"
  by (auto simp: t_function_def run_step_Some)

lemma returned_Inr: "returned m s = Inr (c, t) \<longleftrightarrow> (\<exists>r. m s = Inr (r, t) \<and> c = (case r of Inl c \<Rightarrow> c | Inr _ \<Rightarrow> 0))"
  by (auto simp: returned_def rbind_eq_Inr)

lemma load_codes: "exit_codes {0, 100} (OnLoadDeliveryData A)"
  unfolding OnLoadDeliveryData_def load_count_def load_orders_def load_order_def load_pay_def
    load_mutual_def load_row_def load_cell_def get_count_def set_order_def Let_def split_beta
  by (intro exit_intros) simp_all

lemma set_codes: "exit_codes {} OnSetDeliveryData"
  unfolding OnSetDeliveryData_def get_count_def set_city_def by (intro exit_intros)

lemma relocation_codes: "exit_codes {} OnRelocationDeliveryData"
  unfolding OnRelocationDeliveryData_def by (intro exit_intros)

text \<open>What the storing leaves as it is.\<close>

definition delivery_view :: "'e program \<Rightarrow> ChromosomeCopy list \<times> ptr list \<times> VectorOrderData list" where
  "delivery_view s = (v_copy s, v_best s, v_orders s)"

lemma keeps_store: "keeps delivery_view (OnVehicleDataInsert A)"
  unfolding OnVehicleDataInsert_def renumber_errors_def insert_stop_def insert_way_def load_way_def insert_last_def
    insert_single_def insert_duplicates_def insert_row_def renumber_def Let_def split_beta
  by (intro keeps_intros) (simp_all add: delivery_view_def)

section \<open>What a search notifies\<close>

definition notified :: "'e env_api \<Rightarrow> world \<Rightarrow> ptr list \<Rightarrow> bool" where
  "notified A w code \<longleftrightarrow> (\<exists>e fitness. BestEvent code fitness \<in> set (fst (api_events A w e)))"

lemma deliver_best:
  "v_best (fold deliver evs s) = v_best s \<or> (\<exists>f. BestEvent (v_best (fold deliver evs s)) f \<in> set evs)"
proof (induction evs rule: rev_induct)
  case (snoc ev evs)
  then show ?case by (cases ev) (auto simp: StatisticUpdate_def NewBestChromosome_def)
qed simp

lemma deliver_orders: "v_orders (fold deliver evs s) = v_orders s"
proof (induction evs arbitrary: s)
  case (Cons ev evs)
  then show ?case by (cases ev) (simp_all add: StatisticUpdate_def NewBestChromosome_def)
qed simp

text \<open>Nothing but notified codes gets into the best tour while the algorithm runs.\<close>

definition search_step :: "'e env_api \<Rightarrow> 'e program \<Rightarrow> 'e program \<Rightarrow> bool" where
  "search_step A s t \<longleftrightarrow> p_world t = p_world s \<and> v_copy t = v_copy s \<and> v_orders t = v_orders s
     \<and> (v_best t = v_best s \<or> notified A (p_world s) (v_best t))"

lemma search_step_trans: "search_step A s t \<Longrightarrow> search_step A t u \<Longrightarrow> search_step A s u"
  by (auto simp: search_step_def)

lemma poll_search_step: "search_step A s (snd (poll A s))"
proof -
  obtain evs e where evs: "api_events A (p_world s) (p_env s) = (evs, e)" by (cases "api_events A (p_world s) (p_env s)")
  then have t: "snd (poll A s) = (fold deliver evs (s\<lparr>p_env := e\<rparr>))\<lparr>p_env := snd (api_state A (p_env (fold deliver evs (s\<lparr>p_env := e\<rparr>))))\<rparr>"
    by (simp add: poll_def Let_def split_beta)
  have "fst (api_events A (p_world s) (p_env s)) = evs" using evs by simp
  with deliver_best [of evs "s\<lparr>p_env := e\<rparr>"] show ?thesis
    unfolding t search_step_def notified_def by (auto simp: deliver_keeps deliver_orders)
qed

lemma polled_search_step: "search_step A s ((polled A ^^ k) s)"
proof (induction k)
  case 0
  then show ?case by (simp add: search_step_def)
next
  case (Suc k)
  moreover have "(polled A ^^ Suc k) s = snd (poll A ((polled A ^^ k) s))" by (simp add: polled_def)
  ultimately show ?case using search_step_trans poll_search_step by metis
qed

lemma start_search_step: "search_step A s (start_solving A (smartInit A (s\<lparr>p_generationLimit := l\<rparr>)))"
  using poll_search_step [of A "smartInit A (s\<lparr>p_generationLimit := l\<rparr>)"]
  by (simp add: start_solving_def Let_def split_beta search_step_def smartInit_def)

lemma search_search_step:
  assumes "OnSearchDeliveryData A s = Some (c, t)"
  shows "c = 0 \<and> search_step A s t"
proof -
  let ?s0 = "start_solving A (smartInit A (s\<lparr>p_generationLimit := 70000\<rparr>))"
  from assms obtain k where "t = (polled A ^^ k) ?s0" "c = 0"
    by (auto simp: OnSearchDeliveryData_def wait_loop_iff simp del: funpow.simps split: if_splits)
  with search_step_trans [OF start_search_step polled_search_step] show ?thesis by blast
qed

section \<open>What the tour holds\<close>

lemma keeps_copy_load: "keeps v_copy (OnLoadDeliveryData A)"
  unfolding OnLoadDeliveryData_def load_count_def load_orders_def load_order_def load_pay_def
    load_mutual_def load_row_def load_cell_def get_count_def set_order_def Let_def split_beta
  by (intro keeps_intros) simp_all

text \<open>After loading and setting at least one order: the cities, an empty best tour, no copies.\<close>

lemma start_of_search:
  assumes "OnLoadDeliveryData A s = Inr (Inr (), t)" and "v_mutual s = []" and "v_copy s = []"
    and "p_world s = empty_world" and "OnSetDeliveryData t = Inr (Inr (), u)" and "v_orders t \<noteq> []"
  shows "p_world u = add_orders (v_orders t) empty_world" and "v_orders u = v_orders t" and "v_best u = []" and "v_copy u = []"
    and "cities_ok (p_world u)" and "no_null (p_world u)" and "matrix_covers (v_mutual u) (p_world u)"
proof -
  obtain n where n: "v_count t = Some (int n)" "length (v_orders t) = n" "rows_done A (v_orders t) n n t" "int_range (int n)"
    using OnLoad_Inr [OF assms(1,2)] by blast
  have w: "p_world t = empty_world" using keepsD [OF keeps_world assms(1)] assms(4) by simp
  have "OnSetDeliveryData t = Inr (Inr (), t\<lparr>p_world := add_orders (v_orders t) empty_world,
      v_best := (if n = 0 then v_best t else [])\<rparr>)"
    using OnSet_eq [OF n(1)] n(2,4) w empty_world_start(2) by simp
  with assms(5) have u: "u = t\<lparr>p_world := add_orders (v_orders t) empty_world, v_best := []\<rparr>"
    using n(2) assms(6) by auto
  show "p_world u = add_orders (v_orders t) empty_world" "v_orders u = v_orders t" "v_best u = []" using u by simp_all
  show "v_copy u = []" using u keepsD [OF keeps_copy_load assms(1)] assms(3) by simp
  show "cities_ok (p_world u)" "no_null (p_world u)"
    using u add_orders_ok [OF empty_world_start(3,4), of "v_orders t"] by simp_all
  have "rows_done A (v_orders u) n n u" using n(3) u by (simp add: rows_done_def)
  then show "matrix_covers (v_mutual u) (p_world u)"
    by (rule set_covers [where w = empty_world]) (use u n(2) in \<open>simp_all add: empty_world_start\<close>)
qed

lemma mset_rotated: "mset (rotate f xs) = mset xs"
  unfolding rotate_drop_take by (metis append_take_drop_id mset_append union_commute)

lemma delivered_tour:
  assumes w: "p_world s = add_orders os empty_world" and ne: "os \<noteq> []"
    and tour: "mset (v_best s) = mset (map Some [0..<length os])" and "v_copy s = []"
  shows "\<exists>t. OnRelocationDeliveryData s = Inr (Inr (), t) \<and> v_orders t = v_orders s \<and> v_best t = v_best s
    \<and> cc_id (hd (v_copy t)) = 1 \<and> mset (map cc_data (v_copy t)) = mset (map city_of_order os)"
proof -
  let ?b = "v_best s" and ?c = "order_city os"
  have set: "set ?b = Some ` {0..<length os}" using mset_eq_setD [OF tour] by simp
  then have d: "\<forall>p \<in> set ?b. deref (p_world s) p = Inr (?c p)" using order_cities(2) w by auto
  have "Some 0 \<in> set ?b" using set ne by auto
  then obtain k where "k < length ?b" "?b ! k = Some 0" by (auto simp: in_set_conv_nth)
  then have "k < length ?b \<and> city_id (?c (?b ! k)) = 1" by (simp add: order_city_def)
  then obtain f where f: "f < length ?b" "city_id (?c (?b ! f)) = 1" "\<forall>i < f. city_id (?c (?b ! i)) \<noteq> 1"
    using exists_least_iff [of "\<lambda>k. k < length ?b \<and> city_id (?c (?b ! k)) = 1"] by (metis order.strict_trans)
  let ?cs = "map (\<lambda>p. copy_of_city (?c p)) (rotate f ?b)"
  have "OnRelocationDeliveryData s = Inr (Inr (), s\<lparr>v_relocation := rotate f ?b, v_copy := ?cs\<rparr>)"
    using relocation_rotates [OF d f] assms(4) by simp
  moreover have "cc_id (hd ?cs) = 1"
    using f(1,2) hd_rotated [OF f(1)] by (subst hd_map) (auto simp: copy_of_city_def)
  moreover have "mset (map cc_data ?cs) = mset (map city_of_order os)"
  proof -
    have "mset (map cc_data ?cs) = image_mset (\<lambda>p. city_data (?c p)) (mset ?b)"
      by (simp add: copy_of_city_def multiset.map_comp o_def mset_rotated)
    also have "\<dots> = mset (map (\<lambda>i. city_of_order (os ! i)) [0..<length os])"
      unfolding tour by (simp add: order_city_def o_def flip: mset_map)
    also have "map (\<lambda>i. city_of_order (os ! i)) [0..<length os] = map city_of_order os"
      by (rule nth_equalityI) simp_all
    finally show ?thesis .
  qed
  ultimately show ?thesis by (simp add: multiset.map_comp)
qed

text \<open>What a search that found a tour leaves to be delivered.\<close>

lemma tour_delivered:
  assumes load: "OnLoadDeliveryData A s = Inr (Inr (), t)" "v_mutual s = []" "v_copy s = []" "p_world s = empty_world"
    and set: "OnSetDeliveryData t = Inr (Inr (), u)"
    and evolves: "\<forall>code. notified A (p_world u) code \<longrightarrow> (\<exists>c. mv_values c = code
      \<and> evolved (ptr_distance (v_mutual u) (p_world u)) (GaRandomInteger_Generate_max R) B ord (p_world u) c)"
    and lib: "iteration_order ord" "unit_doubles R" "db_domains B = []"
    and n: "2 \<le> length (v_orders t)" "length (v_orders t) < 2 ^ 30"
    and found: "search_step A u s3" "v_best s3 \<noteq> []"
  shows "\<exists>s4. OnRelocationDeliveryData s3 = Inr (Inr (), s4) \<and> cc_id (hd (v_copy s4)) = 1
    \<and> mset (map cc_data (v_copy s4)) = mset (map city_of_order (v_orders t))"
proof -
  have ne: "v_orders t \<noteq> []" using n(1) by auto
  note u = start_of_search [OF load set ne]
  have w3: "p_world s3 = add_orders (v_orders t) empty_world" "v_copy s3 = []" using u found(1) by (simp_all add: search_step_def)
  have "notified A (p_world u) (v_best s3)" using found u(3) unfolding search_step_def by auto
  then obtain c where c: "mv_values c = v_best s3"
    "evolved (ptr_distance (v_mutual u) (p_world u)) (GaRandomInteger_Generate_max R) B ord (p_world u) c"
    using evolves by blast
  have cities: "map snd (w_cities (p_world u)) = map Some [0..<length (v_orders t)]" using order_cities(1) u(1) by simp
  have "GetCount (p_world u) = int (length (v_orders t))" using arg_cong [OF cities, of length] by (simp add: GetCount_def)
  with evolved_tour [OF c(2) u(5-7) lib(1,2) _ _ lib(3)] n have "is_tour ord (p_world u) c" by simp
  then have "mset (v_best s3) = mset (map Some [0..<length (v_orders t)])"
    unfolding is_tour_def c(1) GetCities_mset [OF lib(1)] cities .
  from delivered_tour [OF w3(1) ne this w3(2)] show ?thesis by blast
qed

section \<open>Properties\<close>


lemma day_thread: "t_function tour_api (sample_program day_script) = Some (Inr ([0, 0, 0, 0, 0], day_delivery\<lparr>p_env := []\<rparr>))"
  by (simp add: t_function_def run_step_def returned_def day_load day_set day_search day_relocation day_store)


text \<open>
  C5. Let the loading and setting of at least two orders succeed from the start of the program,
  and let the codes the algorithm notifies be those of chromosomes it evolved from the cities.
  When the thread then ends, either no tour was notified and nothing is delivered, or the
  delivery starts at the depot, the city of the first order, and holds every order once.
\<close>

theorem thread_delivers_every_order:
  assumes load: "OnLoadDeliveryData A s = Inr (Inr (), t)" "v_mutual s = []" "v_copy s = []" "p_world s = empty_world"
    and set: "OnSetDeliveryData t = Inr (Inr (), u)"
    and evolves: "\<forall>code. notified A (p_world u) code \<longrightarrow> (\<exists>c. mv_values c = code
      \<and> evolved (ptr_distance (v_mutual u) (p_world u)) (GaRandomInteger_Generate_max R) B ord (p_world u) c)"
    and lib: "iteration_order ord" "unit_doubles R" "db_domains B = []"
    and n: "2 \<le> length (v_orders t)" "length (v_orders t) < 2 ^ 30"
    and thread: "t_function A s = Some (Inr (cs, z))"
  shows "(v_best z = [] \<and> v_copy z = [])
    \<or> (cc_id (hd (v_copy z)) = 1 \<and> mset (map cc_data (v_copy z)) = mset (map city_of_order (v_orders t)))"
proof -
  have ne: "v_orders t \<noteq> []" using n(1) by auto
  note u = start_of_search [OF load set ne]
  from thread load(1) set obtain s3 c4 s4 c5 where r: "OnSearchDeliveryData A u = Some (0, s3)"
      "returned OnRelocationDeliveryData s3 = Inr (c4, s4)" "returned (OnVehicleDataInsert A) s4 = Inr (c5, z)"
    using search_search_step unfolding t_function_Some by (force simp: returned_Inr)
  have s3: "search_step A u s3" using search_search_step [OF r(1)] by simp
  then have w3: "p_world s3 = add_orders (v_orders t) empty_world" "v_copy s3 = []" using u by (simp_all add: search_step_def)
  have "delivery_view z = delivery_view s4" using r(3) keepsD [OF keeps_store] unfolding returned_Inr by blast
  then have z: "v_copy z = v_copy s4" "v_best z = v_best s4" by (simp_all add: delivery_view_def)
  show ?thesis
  proof (cases "v_best s3 = []")
    case True
    then have "s4 = s3\<lparr>v_relocation := []\<rparr>"
      using r(2) by (auto simp: returned_Inr OnRelocationDeliveryData_def abind_run)
    with True w3 z show ?thesis by simp
  next
    case False
    from tour_delivered [OF load set evolves lib n s3 this] r(2) z show ?thesis by (auto simp: returned_Inr)
  qed
qed

text \<open>The notified tour is one the algorithm can evolve: a random permutation, swapped if need be.\<close>

lemma two_orders_evolved:
  fixes a b :: VectorOrderData
  defines "w \<equiv> add_orders [a, b] empty_world"
  shows "\<exists>c. mv_values c = [Some 1, Some 0]
    \<and> evolved (ptr_distance m w) (GaRandomInteger_Generate_max sample_raw) sample_block (\<lambda>m. m) w c"
proof -
  let ?e = "evolved (ptr_distance m w) (GaRandomInteger_Generate_max sample_raw) sample_block (\<lambda>m. m) w"
  have cities: "GetCities (\<lambda>m. m) w = [Some 0, Some 1]"
    using order_cities(1) [of "[a, b]"] by (simp add: w_def GetCities_def)
  have "in_range_gen (GaRandomInteger_Generate_max sample_raw) (int (length (GetCities (\<lambda>m. m) w)) - 1)"
    by (rule Generate_max_in_range_gen [OF sample_unit_doubles]) (simp_all add: cities)
  then obtain c g' where c: "TspChromosome_MakeNewFromPrototype (GaRandomInteger_Generate_max sample_raw) (\<lambda>m. m) w sample_tour 0
      = Inr (c, g')" "is_tour (\<lambda>m. m) w c"
    using new_tour [of "\<lambda>m. m" w "GaRandomInteger_Generate_max sample_raw" sample_tour 0] by blast
  have e: "?e c" using c(1) by (rule evolved_new)
  have "mset (mv_values c) = mset [Some 0, Some 1]" using c(2) by (simp add: is_tour_def cities)
  moreover have "xs = [Some 0, Some 1] \<or> xs = [Some 1, Some 0]" if "mset xs = mset [Some 0, Some (1 :: nat)]" for xs
  proof -
    have "length xs = 2" "set xs = {Some 0, Some 1}" using mset_eq_length [OF that] mset_eq_setD [OF that] by simp_all
    then obtain x y where xs: "xs = [x, y]" by (auto simp: numeral_2_eq_2 length_Suc_conv)
    then have "{x, y} = {Some 0, Some 1}" using \<open>set xs = _\<close> by simp
    then show ?thesis unfolding xs doubleton_eq_iff by blast
  qed
  ultimately consider "mv_values c = [Some 0, Some 1]" | "mv_values c = [Some 1, Some 0]" by blast
  then show ?thesis
  proof cases
    case 1
    have "mv_Swap 0 1 1 1 [Some (0 :: nat), Some 1] = Inr [Some 1, Some 0]" by code_simp
    with 1 evolved_swap [OF e, of 0 1 1 1 "[Some 1, Some 0]"] show ?thesis by (intro exI conjI) auto
  next
    case 2
    with e show ?thesis by blast
  qed
qed

lemmas day_evolved = two_orders_evolved [where a = day_order and b = day_order]

theorem thread_delivers_every_order_witness:
  "\<exists>cs z. t_function tour_api (sample_program day_script) = Some (Inr (cs, z)) \<and> v_copy z \<noteq> []
    \<and> cc_id (hd (v_copy z)) = 1 \<and> mset (map cc_data (v_copy z)) = mset (map city_of_order [day_order, day_order])"
proof -
  have start: "v_mutual (sample_program day_script) = []" "v_copy (sample_program day_script) = []" "p_world (sample_program day_script) = empty_world"
    by (simp_all add: sample_program_def TSPView_new_def)
  have loaded: "v_orders day_loaded = [day_order, day_order]" by (simp add: day_loaded_def day_ordered_def)
  have "\<forall>code. notified tour_api (p_world day_set) code \<longrightarrow> (\<exists>c. mv_values c = code
      \<and> evolved (ptr_distance (v_mutual day_set) (p_world day_set)) (GaRandomInteger_Generate_max sample_raw) sample_block
          (\<lambda>m. m) (p_world day_set) c)"
    using day_evolved by (auto simp: notified_def tour_api_def script_api_def day_set_def)
  from thread_delivers_every_order [OF day_load start day_set this iteration_order_id sample_unit_doubles _ _ _ day_thread] loaded
  show ?thesis using day_thread by (auto simp: sample_block_def day_delivery_def)
qed

text \<open>
  C39. When the database cannot be reached, the thread does not stop after step 01 with its code
  100: step 02 runs all the same and reads the number of orders before it was ever set.
\<close>

theorem thread_faults_without_database:
  assumes "api_connect A 1 (p_env s) = (False, e)" and "v_count s = None"
  shows "t_function A s = Some (Inl Uninit)"
proof -
  obtain t where "returned (OnLoadDeliveryData A) s = Inr (100, t)" "OnSetDeliveryData t = Inl Uninit"
    using failed_load_leaves_count_unset [OF assms] by blast
  then show ?thesis by (simp add: t_function_def run_step_go run_step_fault returned_def)
qed

theorem thread_faults_without_database_witness:
  "t_function (script_api\<lparr>api_connect := \<lambda>c e. (False, e)\<rparr>) (sample_program []) = Some (Inl Uninit)"
  by (rule thread_faults_without_database) (simp_all add: sample_start)

text \<open>
  The program reaches its thread only when it has six arguments of which the first five are
  shorter than 64 characters; otherwise it faults, and the number of the arguments is never
  checked. With such arguments it is the thread on the start state with these texts.
\<close>

theorem main_needs_short_arguments:
  assumes "main A argv e = Some (Inr (cs, z))"
  shows "7 \<le> length argv \<and> (\<forall>i \<in> {1..5}. length (argv ! i) < 64)
    \<and> (\<exists>n. atoi (argv ! 6) = Inr n \<and> t_function A ((TSPView_new empty_world 100000 1 e)\<lparr>v_deliveryDate := argv ! 1,
         v_meridiemType := argv ! 2, v_meridiemFlag := argv ! 3, v_locationId := argv ! 4, v_vehicleNo := argv ! 5,
         v_vehicleNumber := n\<rparr>) = Some (Inr (cs, z)))"
proof -
  have arg: "argument argv i = Inr a \<longleftrightarrow> i < length argv \<and> a = argv ! i" for i a
    by (auto simp: argument_def)
  from assms obtain s where s: "start_program argv e = Inr s" "t_function A s = Some (Inr (cs, z))"
    by (auto simp: main_def split: sum.splits)
  have "{1..5 :: nat} = {1, 2, 3, 4, 5}" by auto
  moreover obtain n where "7 \<le> length argv" "atoi (argv ! 6) = Inr n"
      "length (argv ! 1) < 64" "length (argv ! 2) < 64" "length (argv ! 3) < 64" "length (argv ! 4) < 64" "length (argv ! 5) < 64"
      "s = (TSPView_new empty_world 100000 1 e)\<lparr>v_deliveryDate := argv ! 1, v_meridiemType := argv ! 2,
         v_meridiemFlag := argv ! 3, v_locationId := argv ! 4, v_vehicleNo := argv ! 5, v_vehicleNumber := n\<rparr>"
    using s(1) by (force simp: start_program_def rbind_eq_Inr arg)
  ultimately show ?thesis using s(2) by simp
qed

theorem main_needs_short_arguments_witness:
  "main tour_api [''TSP'', [], [], [], [], [], ''0''] day_script = Some (Inr ([0, 0, 0, 0, 0], day_delivery\<lparr>p_env := []\<rparr>))
    \<and> length ([''TSP'', [], [], [], [], [], ''0''] ! 1) < 64"
proof -
  let ?argv = "[''TSP'', [], [], [], [], [], ''0'']"
  have "argument ?argv 1 = Inr []" "argument ?argv 2 = Inr []" "argument ?argv 3 = Inr []" "argument ?argv 4 = Inr []"
    "argument ?argv 5 = Inr []" "argument ?argv 6 = Inr ''0''" "atoi ''0'' = Inr 0" by code_simp+
  then have "main tour_api ?argv day_script = t_function tour_api (sample_program day_script)"
    by (simp add: main_def start_program_def sample_program_def TSPView_new_def strcpy_def)
  then have m: "main tour_api ?argv day_script = Some (Inr ([0, 0, 0, 0, 0], day_delivery\<lparr>p_env := []\<rparr>))"
    by (simp only: day_thread)
  from main_needs_short_arguments [OF m] have "length (?argv ! 1) < 64" by (meson atLeastAtMost_iff one_le_numeral order_refl)
  with m show ?thesis by blast
qed

end
