(* ===== verification/Locks.thy ===== *)
theory Locks
  imports Prelude "HOL-Library.Word"
begin

text \<open>
  \<open>TSP/inc/Threading.h\<close>: the spin lock of the smart pointers in the variants the header has for
  its platforms, semaphores and events, critical sections and the scoped lock
  \<open>GaSectionLock\<close> behind \<open>LOCK_OBJECT\<close>. A call that would block is \<open>None\<close>. The POSIX functions are
  modelled by what POSIX documents; \<open>GaThread\<close> has compiled bodies and is left out.
\<close>

section \<open>Spin locks\<close>

text \<open>
  One round of the loop in \<open>SPINLOCK\<close>: the new value of the lock word and whether the loop ends.
  Windows, Solaris and the Intel compiler exchange the word, macOS uses a compare-and-swap that
  returns whether it swapped, GNU one that returns the old value.
\<close>

datatype spin_macro = SpinExchange | SpinBoolCas | SpinValCas

definition spin_round :: "spin_macro \<Rightarrow> 64 word \<Rightarrow> 64 word \<times> bool" where
  "spin_round m l =
     (case m of
        SpinExchange \<Rightarrow> (1, l = 0)
      | SpinBoolCas \<Rightarrow> if l = 0 then (1, True) else (l, False)
      | SpinValCas \<Rightarrow> (if l = 0 then 1 else l, l \<noteq> 0))"

text \<open>Threads that take the lock and give it back by storing 0, in any interleaving.\<close>

datatype phase = Outside | Spinning | Inside

record spin_state =
  sp_lock :: "64 word"
  sp_phase :: "nat \<Rightarrow> phase"

definition spin_start :: spin_state where
  "spin_start = \<lparr>sp_lock = 0, sp_phase = (\<lambda>t. Outside)\<rparr>"

inductive spin_step :: "spin_macro \<Rightarrow> spin_state \<Rightarrow> spin_state \<Rightarrow> bool" for m :: spin_macro where
  spin_enter: "spin_step m s (s\<lparr>sp_phase := (sp_phase s)(t := Spinning)\<rparr>)"
    if "sp_phase s t = Outside"
| spin_try: "spin_step m s (s\<lparr>sp_lock := l, sp_phase := (sp_phase s)(t := if ends then Inside else Spinning)\<rparr>)"
    if "sp_phase s t = Spinning" "spin_round m (sp_lock s) = (l, ends)"
| spin_leave: "spin_step m s (s\<lparr>sp_lock := 0, sp_phase := (sp_phase s)(t := Outside)\<rparr>)"
    if "sp_phase s t = Inside"

inductive_cases spin_step_elim: "spin_step m s s'"

definition spin_reachable :: "spin_macro \<Rightarrow> spin_state \<Rightarrow> bool" where
  "spin_reachable m = (spin_step m)\<^sup>*\<^sup>* spin_start"

text \<open>The lock word tells whether a thread is inside, and no two are.\<close>

definition spin_inv :: "spin_state \<Rightarrow> bool" where
  "spin_inv s \<longleftrightarrow> (sp_lock s = 0 \<longrightarrow> (\<forall>t. sp_phase s t \<noteq> Inside))
     \<and> (\<forall>t u. sp_phase s t = Inside \<longrightarrow> sp_phase s u = Inside \<longrightarrow> t = u)"

lemma spin_inv_step: "spin_step m s s' \<Longrightarrow> m \<noteq> SpinValCas \<Longrightarrow> spin_inv s \<Longrightarrow> spin_inv s'"
  by (cases m) (auto elim!: spin_step_elim simp: spin_inv_def spin_round_def split: if_splits)

lemma spin_inv_reachable:
  assumes "spin_reachable m s" and "m \<noteq> SpinValCas"
  shows "spin_inv s"
  using assms(1) unfolding spin_reachable_def
proof (induction rule: rtranclp_induct)
  case base
  show ?case by (simp add: spin_inv_def spin_start_def)
next
  case (step s s')
  then show ?case using spin_inv_step assms(2) by blast
qed

section \<open>Semaphores and events\<close>

text \<open>
  \<open>sem_init\<close>, \<open>sem_wait\<close> and \<open>sem_post\<close> on an unnamed semaphore of this process: the count, or
  \<open>None\<close> for one that is not initialised. The maximal count of \<open>MakeSemaphore\<close> is ignored.
\<close>

type_synonym semaphore = "int option"

definition SEM_VALUE_MAX :: int where
  "SEM_VALUE_MAX = 2147483647"

definition MakeSemaphore :: "int \<Rightarrow> int \<Rightarrow> semaphore \<Rightarrow> bool \<times> semaphore" where
  "MakeSemaphore maxCount initialCount h =
     (if 0 \<le> initialCount \<and> initialCount \<le> SEM_VALUE_MAX then (True, Some initialCount) else (False, h))"

definition DeleteSemaphore :: "semaphore \<Rightarrow> bool \<times> semaphore" where
  "DeleteSemaphore h = (h \<noteq> None, None)"

definition LockSemaphore :: "semaphore \<Rightarrow> (bool \<times> semaphore) option" where
  "LockSemaphore h =
     (case h of None \<Rightarrow> Some (False, None) | Some n \<Rightarrow> if 0 < n then Some (True, Some (n - 1)) else None)"

definition sem_post :: "semaphore \<Rightarrow> bool \<times> semaphore" where
  "sem_post h =
     (case h of None \<Rightarrow> (False, None) | Some n \<Rightarrow> if n < SEM_VALUE_MAX then (True, Some (n + 1)) else (False, h))"

fun UnlockSemaphore :: "nat \<Rightarrow> semaphore \<Rightarrow> bool \<times> semaphore" where
  "UnlockSemaphore 0 h = (True, h)"
| "UnlockSemaphore (Suc k) h = (let (ok, h') = sem_post h in if ok then UnlockSemaphore k h' else (False, h'))"

definition MakeEvent :: "bool \<Rightarrow> semaphore \<Rightarrow> bool \<times> semaphore" where
  "MakeEvent intialState h = MakeSemaphore 1 (if intialState then 1 else 0) h"

definition DeleteEvent :: "semaphore \<Rightarrow> bool \<times> semaphore" where
  "DeleteEvent h = DeleteSemaphore h"

definition WaitForEvent :: "semaphore \<Rightarrow> (bool \<times> semaphore) option" where
  "WaitForEvent h = LockSemaphore h"

definition SignalEvent :: "semaphore \<Rightarrow> bool \<times> semaphore" where
  "SignalEvent h = UnlockSemaphore 1 h"

lemma UnlockSemaphore_adds:
  assumes "0 \<le> n" and "n + int k \<le> SEM_VALUE_MAX"
  shows "UnlockSemaphore k (Some n) = (True, Some (n + int k))"
  using assms
proof (induction k arbitrary: n)
  case (Suc k)
  then show ?case by (simp add: sem_post_def)
qed simp

section \<open>Critical sections\<close>

text \<open>
  A default POSIX mutex: the thread that holds it. Locking a held one blocks, also for its holder;
  unlocking one that the caller does not hold is undefined.
\<close>

type_synonym mutex = "nat option"

definition GaCriticalSection_Lock :: "nat \<Rightarrow> mutex \<Rightarrow> mutex option" where
  "GaCriticalSection_Lock t m = (case m of None \<Rightarrow> Some (Some t) | Some u \<Rightarrow> None)"

definition GaCriticalSection_Unlock :: "nat \<Rightarrow> mutex \<Rightarrow> mutex res" where
  "GaCriticalSection_Unlock t m = (if m = Some t then Inr None else Inl BadRange)"

text \<open>The scoped lock: whether this object holds its section.\<close>

record section_lock =
  sl_section :: mutex
  sl_locked :: bool

definition GaSectionLock_Lock :: "nat \<Rightarrow> section_lock \<Rightarrow> section_lock option" where
  "GaSectionLock_Lock t s =
     (if sl_locked s then Some s
      else map_option (\<lambda>m. \<lparr>sl_section = m, sl_locked = True\<rparr>) (GaCriticalSection_Lock t (sl_section s)))"

definition GaSectionLock_Unlock :: "nat \<Rightarrow> section_lock \<Rightarrow> section_lock res" where
  "GaSectionLock_Unlock t s =
     (if sl_locked s
      then rbind (GaCriticalSection_Unlock t (sl_section s)) (\<lambda>m. Inr \<lparr>sl_section = m, sl_locked = False\<rparr>)
      else Inr s)"

definition GaSectionLock_new :: "nat \<Rightarrow> mutex \<Rightarrow> bool \<Rightarrow> section_lock option" where
  "GaSectionLock_new t m aquireLock =
     (let s = \<lparr>sl_section = m, sl_locked = False\<rparr> in if aquireLock then GaSectionLock_Lock t s else Some s)"

definition GaSectionLock_delete :: "nat \<Rightarrow> section_lock \<Rightarrow> mutex res" where
  "GaSectionLock_delete t s = rbind (GaSectionLock_Unlock t s) (\<lambda>s'. Inr (sl_section s'))"

text \<open>Calls of \<open>Lock\<close> and \<open>Unlock\<close> within the scope of a lock; the destructor ends the scope.\<close>

datatype lock_call = CallLock | CallUnlock

fun section_calls :: "nat \<Rightarrow> lock_call list \<Rightarrow> section_lock \<Rightarrow> section_lock res option" where
  "section_calls t [] s = Some (Inr s)"
| "section_calls t (CallLock # cs) s =
     (case GaSectionLock_Lock t s of None \<Rightarrow> None | Some s' \<Rightarrow> section_calls t cs s')"
| "section_calls t (CallUnlock # cs) s =
     (case GaSectionLock_Unlock t s of Inl e \<Rightarrow> Some (Inl e) | Inr s' \<Rightarrow> section_calls t cs s')"

definition lock_scope :: "nat \<Rightarrow> mutex \<Rightarrow> bool \<Rightarrow> lock_call list \<Rightarrow> mutex res option" where
  "lock_scope t m aquireLock cs =
     (case GaSectionLock_new t m aquireLock of
        None \<Rightarrow> None
      | Some s \<Rightarrow> map_option (\<lambda>r. rbind r (GaSectionLock_delete t)) (section_calls t cs s))"

text \<open>The flag of the lock agrees with the section it manages.\<close>

definition section_inv :: "nat \<Rightarrow> section_lock \<Rightarrow> bool" where
  "section_inv t s \<longleftrightarrow> sl_section s = (if sl_locked s then Some t else None)"

lemma section_Lock_inv: "section_inv t s \<Longrightarrow> \<exists>s'. GaSectionLock_Lock t s = Some s' \<and> section_inv t s' \<and> sl_locked s'"
  by (auto simp: section_inv_def GaSectionLock_Lock_def GaCriticalSection_Lock_def)

lemma section_Unlock_inv: "section_inv t s \<Longrightarrow> \<exists>s'. GaSectionLock_Unlock t s = Inr s' \<and> section_inv t s' \<and> \<not> sl_locked s'"
  by (auto simp: section_inv_def GaSectionLock_Unlock_def GaCriticalSection_Unlock_def)

lemma section_calls_inv: "section_inv t s \<Longrightarrow> \<exists>s'. section_calls t cs s = Some (Inr s') \<and> section_inv t s'"
proof (induction cs arbitrary: s)
  case (Cons c cs)
  show ?case
  proof (cases c)
    case CallLock
    obtain s' where "GaSectionLock_Lock t s = Some s'" "section_inv t s'" using section_Lock_inv [OF Cons.prems] by blast
    with Cons.IH CallLock show ?thesis by simp
  next
    case CallUnlock
    obtain s' where "GaSectionLock_Unlock t s = Inr s'" "section_inv t s'" using section_Unlock_inv [OF Cons.prems] by blast
    with Cons.IH CallUnlock show ?thesis by simp
  qed
qed simp

section \<open>Properties\<close>

text \<open>
  C29. With the spin locks of Windows, Solaris, the Intel compiler and macOS, no two threads are
  ever inside at once, whatever the interleaving.
\<close>

theorem spinlock_excludes:
  assumes "spin_reachable m s" and "m = SpinExchange \<or> m = SpinBoolCas"
    and "sp_phase s t = Inside" and "sp_phase s u = Inside"
  shows "t = u"
  using spin_inv_reachable [OF assms(1)] assms(2-4) by (auto simp: spin_inv_def)

lemma spin_one_inside:
  assumes "m = SpinExchange \<or> m = SpinBoolCas"
  shows "spin_reachable m \<lparr>sp_lock = 1, sp_phase = (\<lambda>t. Outside)(3 := Inside)\<rparr>"
proof -
  let ?s1 = "spin_start\<lparr>sp_phase := (sp_phase spin_start)(3 := Spinning)\<rparr>"
  have "spin_step m spin_start ?s1" by (rule spin_enter) (simp add: spin_start_def)
  moreover have "spin_step m ?s1 (?s1\<lparr>sp_lock := 1, sp_phase := (sp_phase ?s1)(3 := if True then Inside else Spinning)\<rparr>)"
    by (rule spin_try) (use assms in \<open>auto simp: spin_start_def spin_round_def\<close>)
  ultimately have "spin_reachable m (?s1\<lparr>sp_lock := 1, sp_phase := (sp_phase ?s1)(3 := if True then Inside else Spinning)\<rparr>)"
    unfolding spin_reachable_def by (meson rtranclp.rtrancl_into_rtrancl rtranclp.rtrancl_refl)
  then show ?thesis by (simp add: spin_start_def)
qed

theorem spinlock_excludes_witness:
  "\<exists>s. spin_reachable SpinExchange s \<and> sp_phase s 3 = Inside \<and> (\<forall>t. sp_phase s t = Inside \<longrightarrow> t = 3)"
proof -
  let ?s = "\<lparr>sp_lock = 1, sp_phase = (\<lambda>t. Outside)(3 := Inside)\<rparr>"
  have r: "spin_reachable SpinExchange ?s" by (rule spin_one_inside) simp
  have i: "sp_phase ?s 3 = Inside" by simp
  have "\<forall>t. sp_phase ?s t = Inside \<longrightarrow> t = 3" using spinlock_excludes [OF r _ _ i] by blast
  with r i show ?thesis by blast
qed

text \<open>
  C30. The GNU variant, which this program is built with, does not exclude: its loop ends as
  soon as the lock word is not 0, so a second thread walks into a lock that is held.
\<close>

theorem gnu_spinlock_admits_two:
  "\<exists>s t u. spin_reachable SpinValCas s \<and> t \<noteq> u \<and> sp_phase s t = Inside \<and> sp_phase s u = Inside"
proof -
  define step where "step s t = (let (l, ends) = spin_round SpinValCas (sp_lock s)
    in s\<lparr>sp_lock := l, sp_phase := (sp_phase s)(t := if ends then Inside else Spinning)\<rparr>)" for s :: spin_state and t
  have tried: "spin_step SpinValCas s (step s t)" if "sp_phase s t = Spinning" for s t
    using spin_try [OF that, of SpinValCas] by (simp add: step_def split: prod.splits)
  define s0 where "s0 = spin_start\<lparr>sp_phase := (sp_phase spin_start)(0 := Spinning)\<rparr>"
  define s1 where "s1 = s0\<lparr>sp_phase := (sp_phase s0)(1 := Spinning)\<rparr>"
  have run: "spin_step SpinValCas spin_start s0" "spin_step SpinValCas s0 s1"
    unfolding s1_def s0_def by (rule spin_enter, simp add: spin_start_def)+
  have s1: "sp_lock s1 = 0" "sp_phase s1 0 = Spinning" "sp_phase s1 1 = Spinning"
    by (simp_all add: s1_def s0_def spin_start_def)
  define s2 where "s2 = step s1 0"
  have s2: "sp_lock s2 = 1" "sp_phase s2 0 = Spinning" "sp_phase s2 1 = Spinning"
    using s1 by (simp_all add: s2_def step_def spin_round_def)
  define s3 where "s3 = step s2 0"
  have s3: "sp_lock s3 = 1" "sp_phase s3 0 = Inside" "sp_phase s3 1 = Spinning"
    using s2 by (simp_all add: s3_def step_def spin_round_def)
  define s4 where "s4 = step s3 1"
  have s4: "sp_phase s4 0 = Inside" "sp_phase s4 1 = Inside"
    using s3 by (simp_all add: s4_def step_def spin_round_def)
  have "spin_step SpinValCas s1 s2" "spin_step SpinValCas s2 s3" "spin_step SpinValCas s3 s4"
    using tried [OF s1(2)] tried [OF s2(2)] tried [OF s3(3)] by (simp_all only: s2_def s3_def s4_def)
  with run have "spin_reachable SpinValCas s4"
    unfolding spin_reachable_def by (metis rtranclp.rtrancl_into_rtrancl rtranclp.rtrancl_refl)
  with s4 show ?thesis by (metis zero_neq_one)
qed

text \<open>
  Whatever calls of \<open>Lock\<close> and \<open>Unlock\<close> a scope makes on its \<open>GaSectionLock\<close> over a free
  section, none of them blocks or faults, and the section is free again after the destructor.
\<close>

theorem lock_scope_releases: "lock_scope t None aquireLock cs = Some (Inr None)"
proof -
  have "section_inv t \<lparr>sl_section = None, sl_locked = False\<rparr>" by (simp add: section_inv_def)
  then obtain s where s: "GaSectionLock_new t None aquireLock = Some s" "section_inv t s"
    using section_Lock_inv unfolding GaSectionLock_new_def Let_def by (cases aquireLock) auto
  obtain s' where "section_calls t cs s = Some (Inr s')" "section_inv t s'" using section_calls_inv [OF s(2)] by blast
  with s(1) section_Unlock_inv show ?thesis
    by (fastforce simp: lock_scope_def GaSectionLock_delete_def section_inv_def)
qed

text \<open>
  Events are counting semaphores on this platform: signals that no thread waits for add up,
  so that as many waits pass later as there were signals, and not one of them only.
\<close>

theorem event_signals_add_up:
  assumes "0 \<le> n" and "n + 2 \<le> SEM_VALUE_MAX"
  shows "snd (SignalEvent (snd (SignalEvent (Some n)))) = Some (n + 2)
    \<and> WaitForEvent (Some (n + 2)) = Some (True, Some (n + 1)) \<and> WaitForEvent (Some (n + 1)) = Some (True, Some n)"
  using assms UnlockSemaphore_adds [of n 1] UnlockSemaphore_adds [of "n + 1" 1]
  by (simp add: SignalEvent_def WaitForEvent_def LockSemaphore_def)

theorem event_signals_add_up_witness:
  "WaitForEvent (snd (SignalEvent (snd (SignalEvent (snd (MakeEvent False None)))))) = Some (True, Some 1)"
  using event_signals_add_up [of 0] by (simp add: SEM_VALUE_MAX_def MakeEvent_def MakeSemaphore_def)

end
