(* ===== verification/SmartPtr.thy ===== *)
theory SmartPtr
  imports Prelude
begin

text \<open>
  \<open>TSP/inc/SmartPtr.h\<close>: reference-counted storages and the smart pointers to them, in one thread.
  Storages, pointer objects and user data have addresses; the heap knows which are alive.
  Reading or freeing what is not alive is a fault, so a second \<open>delete\<close> is one. The spin lock
  is in \<open>Locks\<close>. \<open>operator =(T*)\<close> compares a \<open>T**\<close> with a \<open>T*\<close> and cannot be instantiated.
\<close>

section \<open>Storages\<close>

record storage =
  st_count :: int
  st_data :: "nat option"

record smart_ptr =
  sp_data :: "nat option"
  sp_location :: "nat option"

record ptr_heap =
  ph_storages :: "nat \<Rightarrow> storage option"
  ph_next :: nat
  ph_data :: "nat set"
  ph_ptrs :: "nat \<Rightarrow> smart_ptr option"

definition MakeInstanceDirect :: "nat option \<Rightarrow> ptr_heap \<Rightarrow> nat \<times> ptr_heap" where
  "MakeInstanceDirect d h =
     (ph_next h, h\<lparr>ph_storages := (ph_storages h)(ph_next h \<mapsto> \<lparr>st_count = 0, st_data = d\<rparr>), ph_next := Suc (ph_next h)\<rparr>)"

definition AddReference :: "nat option \<Rightarrow> ptr_heap \<Rightarrow> (int \<times> ptr_heap) res" where
  "AddReference location h =
     (case location of None \<Rightarrow> Inr (0, h) | Some l \<Rightarrow>
       (case ph_storages h l of None \<Rightarrow> Inl Dangling | Some s \<Rightarrow>
          let n = wrap32 (st_count s + 1) in Inr (n, h\<lparr>ph_storages := (ph_storages h)(l \<mapsto> s\<lparr>st_count := n\<rparr>)\<rparr>)))"

text \<open>\<open>delete location\<close>: the destructor frees the user data.\<close>

definition storage_delete :: "nat \<Rightarrow> ptr_heap \<Rightarrow> ptr_heap res" where
  "storage_delete l h =
     (case ph_storages h l of None \<Rightarrow> Inl Dangling | Some s \<Rightarrow>
       (case st_data s of
          None \<Rightarrow> Inr (h\<lparr>ph_storages := (ph_storages h)(l := None)\<rparr>)
        | Some d \<Rightarrow>
            if d \<in> ph_data h then Inr (h\<lparr>ph_storages := (ph_storages h)(l := None), ph_data := ph_data h - {d}\<rparr>)
            else Inl Dangling))"

definition RemoveReference :: "nat option \<Rightarrow> ptr_heap \<Rightarrow> (int \<times> ptr_heap) res" where
  "RemoveReference location h =
     (case location of None \<Rightarrow> Inr (0, h) | Some l \<Rightarrow>
       (case ph_storages h l of None \<Rightarrow> Inl Dangling | Some s \<Rightarrow>
          let n = wrap32 (st_count s - 1); h1 = h\<lparr>ph_storages := (ph_storages h)(l \<mapsto> s\<lparr>st_count := n\<rparr>)\<rparr>
          in if n = 0 then rbind (storage_delete l h1) (\<lambda>h2. Inr (n, h2)) else Inr (n, h1)))"

definition storage_GetCount :: "nat \<Rightarrow> ptr_heap \<Rightarrow> int res" where
  "storage_GetCount l h = (case ph_storages h l of None \<Rightarrow> Inl Dangling | Some s \<Rightarrow> Inr (st_count s))"

section \<open>Smart pointers\<close>

definition location_data :: "nat option \<Rightarrow> ptr_heap \<Rightarrow> nat option res" where
  "location_data location h =
     (case location of None \<Rightarrow> Inr None | Some l \<Rightarrow>
       (case ph_storages h l of None \<Rightarrow> Inl Dangling | Some s \<Rightarrow> Inr (st_data s)))"

definition get_ptr :: "nat \<Rightarrow> ptr_heap \<Rightarrow> smart_ptr res" where
  "get_ptr p h = (case ph_ptrs h p of None \<Rightarrow> Inl Dangling | Some sp \<Rightarrow> Inr sp)"

text \<open>\<open>_location = location; _data = _location ? _location->_data : NULL\<close>.\<close>

definition point_to :: "nat \<Rightarrow> nat option \<Rightarrow> ptr_heap \<Rightarrow> ptr_heap res" where
  "point_to p location h =
     rbind (location_data location h) (\<lambda>d. Inr (h\<lparr>ph_ptrs := (ph_ptrs h)(p \<mapsto> \<lparr>sp_data = d, sp_location = location\<rparr>)\<rparr>))"

definition SmartPtr_of_storage :: "nat \<Rightarrow> nat option \<Rightarrow> ptr_heap \<Rightarrow> ptr_heap res" where
  "SmartPtr_of_storage p st h = rbind (AddReference st h) (\<lambda>(_, h1). point_to p st h1)"

definition SmartPtr_of_raw :: "nat \<Rightarrow> nat option \<Rightarrow> ptr_heap \<Rightarrow> ptr_heap res" where
  "SmartPtr_of_raw p d h = (let (l, h1) = MakeInstanceDirect d h in SmartPtr_of_storage p (Some l) h1)"

definition SmartPtr_copy :: "nat \<Rightarrow> nat \<Rightarrow> ptr_heap \<Rightarrow> ptr_heap res" where
  "SmartPtr_copy p q h = rbind (get_ptr q h) (\<lambda>sp. SmartPtr_of_storage p (sp_location sp) h)"

definition SmartPtr_null :: "nat \<Rightarrow> ptr_heap \<Rightarrow> ptr_heap" where
  "SmartPtr_null p h = h\<lparr>ph_ptrs := (ph_ptrs h)(p \<mapsto> \<lparr>sp_data = None, sp_location = None\<rparr>)\<rparr>"

definition SmartPtr_delete :: "nat \<Rightarrow> ptr_heap \<Rightarrow> ptr_heap res" where
  "SmartPtr_delete p h =
     rbind (get_ptr p h) (\<lambda>sp. rbind (RemoveReference (sp_location sp) h) (\<lambda>(_, h1).
       Inr (h1\<lparr>ph_ptrs := (ph_ptrs h1)(p := None)\<rparr>)))"

definition SmartPtr_retarget :: "nat \<Rightarrow> nat option \<Rightarrow> ptr_heap \<Rightarrow> ptr_heap res" where
  "SmartPtr_retarget p location h =
     rbind (get_ptr p h) (\<lambda>sp.
       if location \<noteq> sp_location sp
       then rbind (RemoveReference (sp_location sp) h) (\<lambda>(_, h1).
            rbind (AddReference location h1) (\<lambda>(_, h2). point_to p location h2))
       else Inr h)"

definition SmartPtr_assign :: "nat \<Rightarrow> nat \<Rightarrow> ptr_heap \<Rightarrow> ptr_heap res" where
  "SmartPtr_assign p q h =
     (if p \<noteq> q then rbind (get_ptr q h) (\<lambda>rhs. SmartPtr_retarget p (sp_location rhs) h) else Inr h)"

definition SmartPtr_assign_storage :: "nat \<Rightarrow> nat \<Rightarrow> ptr_heap \<Rightarrow> ptr_heap res" where
  "SmartPtr_assign_storage p l h = SmartPtr_retarget p (Some l) h"

definition SmartPtr_equal :: "nat \<Rightarrow> nat \<Rightarrow> ptr_heap \<Rightarrow> bool res" where
  "SmartPtr_equal p q h = rbind (get_ptr p h) (\<lambda>a. rbind (get_ptr q h) (\<lambda>b. Inr (sp_location a = sp_location b)))"

definition GetRawPtr :: "nat \<Rightarrow> ptr_heap \<Rightarrow> nat option res" where
  "GetRawPtr p h = rbind (get_ptr p h) (\<lambda>sp. Inr (sp_data sp))"

definition IsNULL :: "nat \<Rightarrow> ptr_heap \<Rightarrow> bool res" where
  "IsNULL p h = rbind (get_ptr p h) (\<lambda>sp. Inr (sp_data sp = None))"

section \<open>The invariant\<close>

definition refs :: "ptr_heap \<Rightarrow> nat \<Rightarrow> nat set" where
  "refs h l = {p. \<exists>sp. ph_ptrs h p = Some sp \<and> sp_location sp = Some l}"

definition ptr_inv :: "ptr_heap \<Rightarrow> bool" where
  "ptr_inv h \<longleftrightarrow> finite (dom (ph_ptrs h))
     \<and> (\<forall>p sp. ph_ptrs h p = Some sp \<longrightarrow> location_data (sp_location sp) h = Inr (sp_data sp))
     \<and> (\<forall>l s. ph_storages h l = Some s \<longrightarrow> st_count s = int (card (refs h l)) \<and> refs h l \<noteq> {}
          \<and> (\<forall>d. st_data s = Some d \<longrightarrow> d \<in> ph_data h))
     \<and> (\<forall>l l' s s' d. ph_storages h l = Some s \<longrightarrow> ph_storages h l' = Some s' \<longrightarrow> st_data s = Some d
          \<longrightarrow> st_data s' = Some d \<longrightarrow> l = l')
     \<and> (\<forall>l \<ge> ph_next h. ph_storages h l = None)"

lemma ptr_invD:
  assumes "ptr_inv h"
  shows "finite (dom (ph_ptrs h))"
    and "ph_ptrs h p = Some sp \<Longrightarrow> location_data (sp_location sp) h = Inr (sp_data sp)"
    and "ph_storages h l = Some s \<Longrightarrow> st_count s = int (card (refs h l))"
    and "ph_storages h l = Some s \<Longrightarrow> refs h l \<noteq> {}"
    and "ph_storages h l = Some s \<Longrightarrow> st_data s = Some d \<Longrightarrow> d \<in> ph_data h"
    and "ph_storages h l = Some s \<Longrightarrow> ph_storages h l' = Some s' \<Longrightarrow> st_data s = Some d \<Longrightarrow> st_data s' = Some d \<Longrightarrow> l = l'"
    and "ph_next h \<le> l \<Longrightarrow> ph_storages h l = None"
  using assms unfolding ptr_inv_def by blast+

lemma ptr_invI:
  assumes "finite (dom (ph_ptrs h))"
    and "\<And>p sp. ph_ptrs h p = Some sp \<Longrightarrow> location_data (sp_location sp) h = Inr (sp_data sp)"
    and "\<And>l s. ph_storages h l = Some s \<Longrightarrow> st_count s = int (card (refs h l))"
    and "\<And>l s. ph_storages h l = Some s \<Longrightarrow> refs h l \<noteq> {}"
    and "\<And>l s d. ph_storages h l = Some s \<Longrightarrow> st_data s = Some d \<Longrightarrow> d \<in> ph_data h"
    and "\<And>l l' s s' d. ph_storages h l = Some s \<Longrightarrow> ph_storages h l' = Some s' \<Longrightarrow> st_data s = Some d
      \<Longrightarrow> st_data s' = Some d \<Longrightarrow> l = l'"
    and "\<And>l. ph_next h \<le> l \<Longrightarrow> ph_storages h l = None"
  shows "ptr_inv h"
  unfolding ptr_inv_def using assms by blast

lemma refs_finite: "ptr_inv h \<Longrightarrow> finite (refs h l)"
  using ptr_invD(1) by (rule finite_subset [rotated]) (auto simp: refs_def)

lemma refs_card_le: "ptr_inv h \<Longrightarrow> card (refs h l) \<le> card (dom (ph_ptrs h))"
  using ptr_invD(1) by (intro card_mono) (auto simp: refs_def)

lemma refs_set: "refs (h\<lparr>ph_ptrs := (ph_ptrs h)(p := x)\<rparr>) l
    = (if \<exists>sp. x = Some sp \<and> sp_location sp = Some l then insert p (refs h l) else refs h l - {p})"
  by (auto simp: refs_def)

lemma refs_storages [simp]: "refs (h\<lparr>ph_storages := S\<rparr>) l = refs h l" "refs (h\<lparr>ph_data := D\<rparr>) l = refs h l"
    "refs (h\<lparr>ph_next := n\<rparr>) l = refs h l"
  by (simp_all add: refs_def)

lemma location_data_ptrs [simp]: "location_data l (h\<lparr>ph_ptrs := P\<rparr>) = location_data l h"
  by (simp add: location_data_def split: option.splits)

lemma location_live:
  assumes "ptr_inv h" and "ph_ptrs h p = Some sp" and "sp_location sp = Some l"
  obtains s where "ph_storages h l = Some s" and "st_data s = sp_data sp"
  using ptr_invD(2) [OF assms(1,2)] assms(3) by (auto simp: location_data_def split: option.splits)

section \<open>Giving up and taking a reference\<close>

text \<open>Data some storage holds, and data some pointer points to.\<close>

definition managed :: "ptr_heap \<Rightarrow> nat \<Rightarrow> bool" where
  "managed h d \<longleftrightarrow> (\<exists>l s. ph_storages h l = Some s \<and> st_data s = Some d)"

definition pointed :: "ptr_heap \<Rightarrow> nat \<Rightarrow> bool" where
  "pointed h d \<longleftrightarrow> (\<exists>p sp. ph_ptrs h p = Some sp \<and> sp_data sp = Some d)"

lemma pointed_managed: "ptr_inv h \<Longrightarrow> pointed h d \<Longrightarrow> managed h d"
  using ptr_invD(2) unfolding pointed_def managed_def location_data_def
  by (fastforce split: option.splits)

lemma managed_pointed:
  assumes "ptr_inv h" and "managed h d"
  shows "pointed h d" and "d \<in> ph_data h"
proof -
  obtain l s where s: "ph_storages h l = Some s" "st_data s = Some d" using assms(2) by (auto simp: managed_def)
  show "d \<in> ph_data h" using ptr_invD(5) [OF assms(1) s] .
  obtain p where "p \<in> refs h l" using ptr_invD(4) [OF assms(1) s(1)] by blast
  then obtain sp where sp: "ph_ptrs h p = Some sp" "sp_location sp = Some l" by (auto simp: refs_def)
  then have "sp_data sp = Some d" using ptr_invD(2) [OF assms(1) sp(1)] s by (simp add: location_data_def)
  with sp(1) show "pointed h d" by (auto simp: pointed_def)
qed

definition small :: "ptr_heap \<Rightarrow> bool" where
  "small h \<longleftrightarrow> int (card (dom (ph_ptrs h))) < 2 ^ 31 - 1"

text \<open>What giving up the reference of pointer \<open>p\<close> leaves, the pointer itself taken away.\<close>

definition gives_up :: "ptr_heap \<Rightarrow> nat \<Rightarrow> ptr_heap \<Rightarrow> bool" where
  "gives_up h p h' \<longleftrightarrow> ph_ptrs h' = ph_ptrs h \<and> ptr_inv (h'\<lparr>ph_ptrs := (ph_ptrs h)(p := None)\<rparr>)
     \<and> (\<forall>d. managed h d \<longrightarrow> d \<in> ph_data h' \<longrightarrow> managed h' d) \<and> ph_data h' \<subseteq> ph_data h \<and> ph_next h' = ph_next h
     \<and> (\<forall>d. d \<in> ph_data h \<longrightarrow> d \<notin> ph_data h' \<longrightarrow> managed h d)"

lemma released_null:
  assumes inv: "ptr_inv h" and p: "ph_ptrs h p = Some sp" and None: "sp_location sp = None"
  shows "gives_up h p h"
proof -
  let ?h = "h\<lparr>ph_ptrs := (ph_ptrs h)(p := None)\<rparr>"
  have r: "refs ?h l = refs h l" for l using None p by (auto simp: refs_def)
  have "ptr_inv ?h"
    unfolding ptr_inv_def r using inv by (auto simp: ptr_inv_def)
  then show ?thesis by (simp add: gives_up_def)
qed

lemma released_shared:
  assumes inv: "ptr_inv h" and p: "ph_ptrs h p = Some sp" and Some: "sp_location sp = Some l"
    and s: "ph_storages h l = Some s" and False: "refs h l - {p} \<noteq> {}"
  shows "gives_up h p (h\<lparr>ph_storages := (ph_storages h)(l \<mapsto> s\<lparr>st_count := int (card (refs h l - {p}))\<rparr>)\<rparr>)"
proof -
  let ?R = "refs h l - {p}"
  let ?s = "s\<lparr>st_count := int (card ?R)\<rparr>"
  let ?h1 = "h\<lparr>ph_storages := (ph_storages h)(l \<mapsto> ?s)\<rparr>"
  let ?h = "?h1\<lparr>ph_ptrs := (ph_ptrs h)(p := None)\<rparr>"
  have r: "refs ?h k = (if k = l then ?R else refs h k)" for k using Some p by (auto simp: refs_def)
  have old: "\<exists>t'. ph_storages h k = Some t' \<and> st_data t' = st_data t" if "ph_storages ?h k = Some t" for k t
    using that s by (auto split: if_splits)
  have loc: "location_data k ?h1 = location_data k h" for k
    using s by (auto simp: location_data_def split: option.splits)
  have "ptr_inv ?h"
  proof (rule ptr_invI)
    show "finite (dom (ph_ptrs ?h))" using ptr_invD(1) [OF inv] by simp
    show "location_data (sp_location sq) ?h = Inr (sp_data sq)" if "ph_ptrs ?h q = Some sq" for q sq
      using that ptr_invD(2) [OF inv, of q sq] loc by (simp split: if_splits)
    show "st_count t = int (card (refs ?h k))" if "ph_storages ?h k = Some t" for k t
      using that ptr_invD(3) [OF inv, of k t] unfolding r by (auto split: if_splits)
    show "refs ?h k \<noteq> {}" if "ph_storages ?h k = Some t" for k t
      using that ptr_invD(4) [OF inv, of k t] False unfolding r by (auto split: if_splits)
    show "d \<in> ph_data ?h" if "ph_storages ?h k = Some t" "st_data t = Some d" for k t d
      using old [OF that(1)] ptr_invD(5) [OF inv] that(2) by auto
    show "k = k'" if "ph_storages ?h k = Some t" "ph_storages ?h k' = Some t'" "st_data t = Some d" "st_data t' = Some d" for k k' t t' d
      using old [OF that(1)] old [OF that(2)] ptr_invD(6) [OF inv] that(3,4) by metis
    show "ph_storages ?h k = None" if "ph_next ?h \<le> k" for k
      using that ptr_invD(7) [OF inv, of k] s by auto
  qed
  moreover have "managed ?h1 d" if m: "managed h d" for d
  proof -
    obtain k t where "ph_storages h k = Some t" "st_data t = Some d" using m by (auto simp: managed_def)
    then show ?thesis unfolding managed_def using s by (intro exI [of _ k]) auto
  qed
  ultimately show ?thesis by (auto simp: gives_up_def)
qed

lemma released_last:
  assumes inv: "ptr_inv h" and p: "ph_ptrs h p = Some sp" and Some: "sp_location sp = Some l"
    and s: "ph_storages h l = Some s" and True: "refs h l - {p} = {}"
  shows "\<exists>h'. storage_delete l (h\<lparr>ph_storages := (ph_storages h)(l \<mapsto> s\<lparr>st_count := 0\<rparr>)\<rparr>) = Inr h' \<and> gives_up h p h'"
proof -
  let ?R = "refs h l - {p}"
  have only: "q = p" if "ph_ptrs h q = Some sq" "sp_location sq = Some l" for q sq
    using that True by (auto simp: refs_def)
  let ?h1 = "h\<lparr>ph_storages := (ph_storages h)(l \<mapsto> s\<lparr>st_count := 0\<rparr>)\<rparr>"
  let ?D = "ph_data h - {d. st_data s = Some d}"
  let ?h2 = "h\<lparr>ph_storages := (ph_storages h)(l := None), ph_data := ?D\<rparr>"
  let ?h = "?h2\<lparr>ph_ptrs := (ph_ptrs h)(p := None)\<rparr>"
  have del: "storage_delete l ?h1 = Inr ?h2"
    using ptr_invD(5) [OF inv s] by (auto simp: storage_delete_def split: option.splits)
  have r: "refs ?h k = (if k = l then {} else refs h k)" for k using Some p True by (auto simp: refs_def)
  have loc: "location_data (sp_location sq) ?h = Inr (sp_data sq)" if "ph_ptrs ?h q = Some sq" for q sq
  proof -
    have q: "q \<noteq> p" "ph_ptrs h q = Some sq" using that by (auto split: if_splits)
    then have "sp_location sq \<noteq> Some l" using only by blast
    then show ?thesis using ptr_invD(2) [OF inv q(2)] by (auto simp: location_data_def split: option.splits)
  qed
  have other: "d \<in> ?D" if "ph_storages h k = Some t" "k \<noteq> l" "st_data t = Some d" for k t d
    using ptr_invD(5) [OF inv that(1,3)] ptr_invD(6) [OF inv that(1) s that(3)] that(2) by auto
  have old: "ph_storages h k = Some t \<and> k \<noteq> l" if "ph_storages ?h k = Some t" for k t
    using that by (auto split: if_splits)
  have "ptr_inv ?h"
  proof (rule ptr_invI)
    show "finite (dom (ph_ptrs ?h))" using ptr_invD(1) [OF inv] by simp
    show "location_data (sp_location sq) ?h = Inr (sp_data sq)" if "ph_ptrs ?h q = Some sq" for q sq
      by (rule loc [OF that])
    show "st_count t = int (card (refs ?h k))" "refs ?h k \<noteq> {}" if "ph_storages ?h k = Some t" for k t
      using old [OF that] ptr_invD(3,4) [OF inv, of k t] unfolding r by auto
    show "d \<in> ph_data ?h" if "ph_storages ?h k = Some t" "st_data t = Some d" for k t d
      using old [OF that(1)] other that(2) by auto
    show "k = k'" if "ph_storages ?h k = Some t" "ph_storages ?h k' = Some t'" "st_data t = Some d" "st_data t' = Some d" for k k' t t' d
      using old [OF that(1)] old [OF that(2)] ptr_invD(6) [OF inv] that(3,4) by metis
    show "ph_storages ?h k = None" if "ph_next ?h \<le> k" for k
      using that ptr_invD(7) [OF inv, of k] by auto
  qed
  moreover have "managed ?h2 d" if m: "managed h d" "d \<in> ?D" for d
  proof -
    obtain k t where "ph_storages h k = Some t" "st_data t = Some d" using m(1) by (auto simp: managed_def)
    then show ?thesis unfolding managed_def using s m(2) by (intro exI [of _ k]) auto
  qed
  moreover have "managed h d" if "d \<in> ph_data h" "d \<notin> ?D" for d using that s unfolding managed_def by auto
  ultimately show ?thesis using del by (auto simp: gives_up_def)
qed

lemma released:
  assumes inv: "ptr_inv h" and sm: "small h" and p: "ph_ptrs h p = Some sp"
  shows "\<exists>n h'. RemoveReference (sp_location sp) h = Inr (n, h') \<and> gives_up h p h'"
proof (cases "sp_location sp")
  case None
  then show ?thesis using released_null [OF inv p None] by (simp add: RemoveReference_def)
next
  case (Some l)
  obtain s where s: "ph_storages h l = Some s" "st_data s = sp_data sp" using location_live [OF inv p Some] .
  let ?R = "refs h l - {p}"
  have pl: "p \<in> refs h l" using p Some by (auto simp: refs_def)
  have c: "st_count s = int (card (refs h l))" using ptr_invD(3) [OF inv s(1)] .
  have "st_count s - 1 = int (card ?R)"
    using card_Suc_Diff1 [OF refs_finite [OF inv] pl] c by simp
  moreover have "int_range (int (card ?R))"
    using refs_card_le [OF inv, of l] sm card_Diff1_le [of "refs h l" p] unfolding small_def int_range_def by linarith
  ultimately have n: "wrap32 (st_count s - 1) = int (card ?R)" by simp
  show ?thesis
  proof (cases "?R = {}")
    case False
    then have "card ?R \<noteq> 0" using refs_finite [OF inv, of l] by simp
    then show ?thesis
      using released_shared [OF inv p Some s(1) False] Some s(1) n by (simp add: RemoveReference_def Let_def)
  next
    case True
    then show ?thesis
      using released_last [OF inv p Some s(1) True] Some s(1) n unfolding True by (auto simp: RemoveReference_def Let_def)
  qed
qed

lemma taken:
  assumes inv: "ptr_inv (h\<lparr>ph_ptrs := P\<rparr>)" and P: "P p = None" "int (card (dom P)) < 2 ^ 31 - 1"
    and d: "location_data location h = Inr d"
  shows "\<exists>n h'. AddReference location h = Inr (n, h') \<and> location_data location h' = Inr d
    \<and> ptr_inv (h'\<lparr>ph_ptrs := P(p \<mapsto> \<lparr>sp_data = d, sp_location = location\<rparr>)\<rparr>)
    \<and> ph_data h' = ph_data h \<and> (\<forall>x. managed h x \<longrightarrow> managed h' x) \<and> ph_ptrs h' = ph_ptrs h"
proof (cases location)
  case None
  let ?g = "h\<lparr>ph_ptrs := P\<rparr>" and ?h = "h\<lparr>ph_ptrs := P(p \<mapsto> \<lparr>sp_data = d, sp_location = location\<rparr>)\<rparr>"
  have r: "refs ?h l = refs ?g l" for l using None P(1) by (auto simp: refs_def)
  have "ptr_inv ?h"
  proof (rule ptr_invI)
    show "finite (dom (ph_ptrs ?h))" using ptr_invD(1) [OF inv] by simp
    show "location_data (sp_location sq) ?h = Inr (sp_data sq)" if "ph_ptrs ?h q = Some sq" for q sq
      using that ptr_invD(2) [OF inv, of q sq] d by (auto split: if_splits)
    show "st_count t = int (card (refs ?h k))" "refs ?h k \<noteq> {}" if "ph_storages ?h k = Some t" for k t
      using that ptr_invD(3,4) [OF inv, of k t] r [of k] by simp_all
    show "x \<in> ph_data ?h" if "ph_storages ?h k = Some t" "st_data t = Some x" for k t x
      using ptr_invD(5) [OF inv, of k t x] that by simp
    show "k = k'" if "ph_storages ?h k = Some t" "ph_storages ?h k' = Some t'" "st_data t = Some x" "st_data t' = Some x" for k k' t t' x
      using ptr_invD(6) [OF inv, of k t k' t' x] that by simp
    show "ph_storages ?h k = None" if "ph_next ?h \<le> k" for k
      using that ptr_invD(7) [OF inv, of k] by simp
  qed
  then show ?thesis using d by (intro exI [of _ 0] exI [of _ h]) (simp add: None AddReference_def)
next
  case (Some l)
  let ?g = "h\<lparr>ph_ptrs := P\<rparr>"
  obtain s where s: "ph_storages h l = Some s" "st_data s = d"
    using d Some by (auto simp: location_data_def split: option.splits)
  have new: "p \<notin> refs ?g l" using P(1) by (auto simp: refs_def)
  have c: "st_count s = int (card (refs ?g l))" using ptr_invD(3) [OF inv, of l s] s(1) by simp
  have "card (refs ?g l) \<le> card (dom P)" using refs_card_le [OF inv, of l] by simp
  then have n: "wrap32 (st_count s + 1) = int (card (insert p (refs ?g l)))"
    using P(2) new refs_finite [OF inv, of l] c by (simp add: int_range_def)
  let ?h1 = "h\<lparr>ph_storages := (ph_storages h)(l \<mapsto> s\<lparr>st_count := int (card (insert p (refs ?g l)))\<rparr>)\<rparr>"
  let ?h = "?h1\<lparr>ph_ptrs := P(p \<mapsto> \<lparr>sp_data = d, sp_location = location\<rparr>)\<rparr>"
  have r: "refs ?h k = (if k = l then insert p (refs ?g k) else refs ?g k)" for k
    using Some P(1) by (auto simp: refs_def)
  have old: "\<exists>t'. ph_storages ?g k = Some t' \<and> st_data t' = st_data t" if "ph_storages ?h k = Some t" for k t
    using that s(1) by (auto split: if_splits)
  have loc: "location_data k ?h1 = location_data k h" for k
    using s(1) by (auto simp: location_data_def split: option.splits)
  have "ptr_inv ?h"
  proof (rule ptr_invI)
    show "finite (dom (ph_ptrs ?h))" using ptr_invD(1) [OF inv] by simp
    show "location_data (sp_location sq) ?h = Inr (sp_data sq)" if "ph_ptrs ?h q = Some sq" for q sq
      using that ptr_invD(2) [OF inv, of q sq] loc d by (auto split: if_splits)
    show "st_count t = int (card (refs ?h k))" if "ph_storages ?h k = Some t" for k t
      using that ptr_invD(3) [OF inv, of k t] unfolding r by (auto split: if_splits)
    show "refs ?h k \<noteq> {}" if "ph_storages ?h k = Some t" for k t
      using that ptr_invD(4) [OF inv, of k t] unfolding r by (auto split: if_splits)
    show "x \<in> ph_data ?h" if "ph_storages ?h k = Some t" "st_data t = Some x" for k t x
      using old [OF that(1)] ptr_invD(5) [OF inv] that(2) by auto
    show "k = k'" if "ph_storages ?h k = Some t" "ph_storages ?h k' = Some t'" "st_data t = Some x" "st_data t' = Some x" for k k' t t' x
      using old [OF that(1)] old [OF that(2)] ptr_invD(6) [OF inv] that(3,4) by metis
    show "ph_storages ?h k = None" if "ph_next ?h \<le> k" for k
      using that ptr_invD(7) [OF inv, of k] s(1) by auto
  qed
  moreover have "managed ?h1 x" if m: "managed h x" for x
  proof -
    obtain k t where "ph_storages h k = Some t" "st_data t = Some x" using m by (auto simp: managed_def)
    then show ?thesis unfolding managed_def using s by (intro exI [of _ k]) auto
  qed
  ultimately show ?thesis
    using Some s n d loc by (intro exI [of _ "int (card (insert p (refs ?g l)))"] exI [of _ ?h1]) (auto simp: AddReference_def Let_def)
qed

section \<open>Programs with smart pointers\<close>

datatype ptr_op =
    OpNull nat | OpRaw nat "nat option" | OpCopy nat nat | OpDelete nat | OpAssign nat nat

definition ptr_exec :: "ptr_op \<Rightarrow> ptr_heap \<Rightarrow> ptr_heap res" where
  "ptr_exec x h =
     (case x of
        OpNull p \<Rightarrow> Inr (SmartPtr_null p h)
      | OpRaw p d \<Rightarrow> SmartPtr_of_raw p d h
      | OpCopy p q \<Rightarrow> SmartPtr_copy p q h
      | OpDelete p \<Rightarrow> SmartPtr_delete p h
      | OpAssign p q \<Rightarrow> SmartPtr_assign p q h)"

text \<open>
  What a caller has to see to: a pointer object is built once, used while it is alive, and raw
  data are alive and not already managed.
\<close>

definition op_allowed :: "ptr_heap \<Rightarrow> ptr_op \<Rightarrow> bool" where
  "op_allowed h x =
     (case x of
        OpNull p \<Rightarrow> ph_ptrs h p = None
      | OpRaw p d \<Rightarrow> ph_ptrs h p = None \<and> (\<forall>a. d = Some a \<longrightarrow> a \<in> ph_data h \<and> \<not> managed h a)
      | OpCopy p q \<Rightarrow> ph_ptrs h p = None \<and> ph_ptrs h q \<noteq> None
      | OpDelete p \<Rightarrow> ph_ptrs h p \<noteq> None
      | OpAssign p q \<Rightarrow> ph_ptrs h p \<noteq> None \<and> ph_ptrs h q \<noteq> None)"

text \<open>Data are freed exactly when no storage holds them any more.\<close>

definition ptr_good :: "ptr_heap \<Rightarrow> ptr_heap \<Rightarrow> bool" where
  "ptr_good h h' \<longleftrightarrow> ptr_inv h' \<and> (\<forall>d. managed h d \<longrightarrow> d \<in> ph_data h' \<longrightarrow> managed h' d)"

lemma allocated:
  assumes inv: "ptr_inv h" and p: "ph_ptrs h p = None"
    and d: "\<And>a. d = Some a \<Longrightarrow> a \<in> ph_data h \<and> \<not> managed h a"
  shows "\<exists>h'. SmartPtr_of_raw p d h = Inr h' \<and> ptr_good h h'"
proof -
  let ?l = "ph_next h"
  let ?h = "h\<lparr>ph_storages := (ph_storages h)(?l \<mapsto> \<lparr>st_count = 1, st_data = d\<rparr>), ph_next := Suc ?l,
    ph_ptrs := (ph_ptrs h)(p \<mapsto> \<lparr>sp_data = d, sp_location = Some ?l\<rparr>)\<rparr>"
  have run: "SmartPtr_of_raw p d h = Inr ?h"
    by (simp add: SmartPtr_of_raw_def MakeInstanceDirect_def SmartPtr_of_storage_def AddReference_def point_to_def
        location_data_def Let_def int_range_def)
  have fresh: "ph_storages h ?l = None" using ptr_invD(7) [OF inv] by blast
  have nobody: "sp_location sq \<noteq> Some ?l" if "ph_ptrs h q = Some sq" for q sq
    using ptr_invD(2) [OF inv that] fresh by (auto simp: location_data_def)
  then have r: "refs ?h k = (if k = ?l then {p} else refs h k)" for k
    using p by (auto simp: refs_def)
  have "ptr_inv ?h"
  proof (rule ptr_invI)
    show "finite (dom (ph_ptrs ?h))" using ptr_invD(1) [OF inv] by simp
    show "location_data (sp_location sq) ?h = Inr (sp_data sq)" if q: "ph_ptrs ?h q = Some sq" for q sq
    proof (cases "q = p")
      case True
      then show ?thesis using q by (auto simp: location_data_def)
    next
      case False
      then show ?thesis
        using q ptr_invD(2) [OF inv, of q sq] nobody [of q sq] by (auto simp: location_data_def split: option.splits)
    qed
    show "st_count t = int (card (refs ?h k))" "refs ?h k \<noteq> {}" if "ph_storages ?h k = Some t" for k t
      using that ptr_invD(3,4) [OF inv, of k t] unfolding r by (auto split: if_splits)
    show "x \<in> ph_data ?h" if "ph_storages ?h k = Some t" "st_data t = Some x" for k t x
      using that ptr_invD(5) [OF inv, of k t x] d by (auto split: if_splits)
    show "k = k'" if "ph_storages ?h k = Some t" "ph_storages ?h k' = Some t'" "st_data t = Some x" "st_data t' = Some x" for k k' t t' x
      using that ptr_invD(6) [OF inv, of k t k' t' x] d [of x] by (auto simp: managed_def split: if_splits)
    show "ph_storages ?h k = None" if "ph_next ?h \<le> k" for k
      using that ptr_invD(7) [OF inv, of k] by simp
  qed
  moreover have "managed ?h x" if m: "managed h x" for x
  proof -
    obtain k t where "ph_storages h k = Some t" "st_data t = Some x" using m by (auto simp: managed_def)
    then show ?thesis unfolding managed_def using fresh by (intro exI [of _ k]) auto
  qed
  ultimately show ?thesis using run by (auto simp: ptr_good_def)
qed

lemma pointed_to:
  assumes inv: "ptr_inv h" and sm: "small h" and p: "ph_ptrs h p = None" and loc: "location_data location h = Inr d"
  shows "\<exists>h'. SmartPtr_of_storage p location h = Inr h' \<and> ptr_good h h'"
proof -
  have same: "h\<lparr>ph_ptrs := ph_ptrs h\<rparr> = h" by simp
  obtain n h1 where h1: "AddReference location h = Inr (n, h1)" "location_data location h1 = Inr d"
      "ptr_inv (h1\<lparr>ph_ptrs := (ph_ptrs h)(p \<mapsto> \<lparr>sp_data = d, sp_location = location\<rparr>)\<rparr>)"
      "\<forall>x. managed h x \<longrightarrow> managed h1 x" "ph_ptrs h1 = ph_ptrs h"
    using taken [of "ph_ptrs h" h p location d] inv p sm loc unfolding same small_def by blast
  then show ?thesis
    by (auto simp: SmartPtr_of_storage_def point_to_def ptr_good_def managed_def)
qed

lemma retargeted:
  assumes inv: "ptr_inv h" and sm: "small h" and p: "ph_ptrs h p = Some sp" and q: "ph_ptrs h q = Some sq" and "p \<noteq> q"
  shows "\<exists>h'. SmartPtr_retarget p (sp_location sq) h = Inr h' \<and> ptr_good h h'"
proof (cases "sp_location sq = sp_location sp")
  case True
  then show ?thesis using inv p by (simp add: SmartPtr_retarget_def get_ptr_def ptr_good_def)
next
  case False
  obtain n h1 where h1: "RemoveReference (sp_location sp) h = Inr (n, h1)" "gives_up h p h1"
    using released [OF inv sm p] by blast
  let ?P = "(ph_ptrs h)(p := None)"
  have inv1: "ptr_inv (h1\<lparr>ph_ptrs := ?P\<rparr>)" using h1(2) by (simp add: gives_up_def)
  have "ph_ptrs (h1\<lparr>ph_ptrs := ?P\<rparr>) q = Some sq" using q assms(5) by simp
  then have loc: "location_data (sp_location sq) h1 = Inr (sp_data sq)" using ptr_invD(2) [OF inv1] by simp
  have "card (dom ?P) \<le> card (dom (ph_ptrs h))" using ptr_invD(1) [OF inv] by (intro card_mono) auto
  then have "int (card (dom ?P)) < 2 ^ 31 - 1" using sm by (simp add: small_def)
  then obtain m h2 where h2: "AddReference (sp_location sq) h1 = Inr (m, h2)" "location_data (sp_location sq) h2 = Inr (sp_data sq)"
      "ptr_inv (h2\<lparr>ph_ptrs := ?P(p \<mapsto> \<lparr>sp_data = sp_data sq, sp_location = sp_location sq\<rparr>)\<rparr>)"
      "ph_data h2 = ph_data h1" "\<forall>x. managed h1 x \<longrightarrow> managed h2 x" "ph_ptrs h2 = ph_ptrs h1"
    using taken [OF inv1, of p "sp_location sq" "sp_data sq"] loc by auto
  have "ph_ptrs h1 = ph_ptrs h" using h1(2) by (simp add: gives_up_def)
  then show ?thesis
    using p False h1 h2
    by (auto simp: SmartPtr_retarget_def get_ptr_def point_to_def ptr_good_def managed_def gives_up_def)
qed

lemma ptr_exec_good:
  assumes inv: "ptr_inv h" and sm: "small h" and ok: "op_allowed h x"
  shows "\<exists>h'. ptr_exec x h = Inr h' \<and> ptr_good h h'"
proof (cases x)
  case (OpNull p)
  have "SmartPtr_of_storage p None h = Inr (SmartPtr_null p h)"
    by (simp add: SmartPtr_of_storage_def AddReference_def point_to_def location_data_def SmartPtr_null_def)
  with pointed_to [OF inv sm, of p None None] OpNull ok show ?thesis
    by (simp add: ptr_exec_def op_allowed_def location_data_def)
next
  case (OpRaw p d)
  with allocated [OF inv, of p d] ok show ?thesis by (simp add: ptr_exec_def op_allowed_def)
next
  case (OpCopy p q)
  with ok obtain sq where "ph_ptrs h q = Some sq" "ph_ptrs h p = None" by (auto simp: op_allowed_def)
  with pointed_to [OF inv sm, of p "sp_location sq" "sp_data sq"] ptr_invD(2) [OF inv] OpCopy show ?thesis
    by (simp add: ptr_exec_def SmartPtr_copy_def get_ptr_def)
next
  case (OpDelete p)
  with ok obtain sp where p: "ph_ptrs h p = Some sp" by (auto simp: op_allowed_def)
  obtain n h1 where "RemoveReference (sp_location sp) h = Inr (n, h1)" "gives_up h p h1"
    using released [OF inv sm p] by blast
  then show ?thesis
    using OpDelete p by (auto simp: ptr_exec_def SmartPtr_delete_def get_ptr_def ptr_good_def gives_up_def managed_def)
next
  case (OpAssign p q)
  with ok obtain sp sq where pq: "ph_ptrs h p = Some sp" "ph_ptrs h q = Some sq" by (auto simp: op_allowed_def)
  show ?thesis
  proof (cases "p = q")
    case True
    then show ?thesis using OpAssign inv by (simp add: ptr_exec_def SmartPtr_assign_def ptr_good_def)
  next
    case False
    with retargeted [OF inv sm pq False] OpAssign pq show ?thesis
      by (simp add: ptr_exec_def SmartPtr_assign_def get_ptr_def)
  qed
qed

section \<open>Properties\<close>

text \<open>
  C24. Every allowed operation on smart pointers runs without a fault (nothing is read or freed
  after it was freed), keeps every count equal to the number of pointers to its storage, and
  frees the data of a pointer exactly when the last pointer to them goes away.
\<close>

theorem pointers_free_data_once:
  assumes "ptr_inv h" and "small h" and "op_allowed h x"
  shows "\<exists>h'. ptr_exec x h = Inr h' \<and> ptr_inv h' \<and> (\<forall>d. pointed h d \<longrightarrow> (d \<in> ph_data h' \<longleftrightarrow> pointed h' d))"
proof -
  obtain h' where h': "ptr_exec x h = Inr h'" "ptr_good h h'" using ptr_exec_good [OF assms] by blast
  then have inv: "ptr_inv h'" by (simp add: ptr_good_def)
  have keep: "managed h' d" if "managed h d" "d \<in> ph_data h'" for d using h'(2) that by (simp add: ptr_good_def)
  have "d \<in> ph_data h' \<longleftrightarrow> pointed h' d" if "pointed h d" for d
  proof
    show "pointed h' d" if "d \<in> ph_data h'"
      using managed_pointed(1) [OF inv keep] pointed_managed [OF assms(1) \<open>pointed h d\<close>] that by simp
    show "d \<in> ph_data h'" if "pointed h' d" using managed_pointed(2) [OF inv pointed_managed [OF inv that]] .
  qed
  with h'(1) inv show ?thesis by blast
qed

definition no_pointers :: ptr_heap where
  "no_pointers = \<lparr>ph_storages = Map.empty, ph_next = 0, ph_data = {5}, ph_ptrs = Map.empty\<rparr>"

theorem pointers_free_data_once_witness:
  "\<exists>h1. ptr_exec (OpRaw 0 (Some 5)) no_pointers = Inr h1 \<and> ptr_inv h1
    \<and> (\<exists>h2. ptr_exec (OpDelete 0) h1 = Inr h2 \<and> 5 \<notin> ph_data h2)"
proof -
  have "ptr_inv no_pointers" by (simp add: ptr_inv_def no_pointers_def)
  moreover have "small no_pointers" by (simp add: small_def no_pointers_def)
  moreover have "op_allowed no_pointers (OpRaw 0 (Some 5))" by (simp add: op_allowed_def no_pointers_def managed_def)
  ultimately obtain h1 where h1: "ptr_exec (OpRaw 0 (Some 5)) no_pointers = Inr h1" "ptr_inv h1"
    using pointers_free_data_once by blast
  then have "h1 = no_pointers\<lparr>ph_storages := [0 \<mapsto> \<lparr>st_count = 1, st_data = Some 5\<rparr>], ph_next := 1,
      ph_ptrs := [0 \<mapsto> \<lparr>sp_data = Some 5, sp_location = Some 0\<rparr>]\<rparr>"
    by (simp add: ptr_exec_def SmartPtr_of_raw_def MakeInstanceDirect_def SmartPtr_of_storage_def AddReference_def point_to_def
        location_data_def Let_def int_range_def no_pointers_def)
  then have "\<exists>h2. ptr_exec (OpDelete 0) h1 = Inr h2 \<and> 5 \<notin> ph_data h2"
    by (simp add: ptr_exec_def SmartPtr_delete_def get_ptr_def RemoveReference_def storage_delete_def Let_def no_pointers_def int_range_def)
  with h1 show ?thesis by blast
qed

end
