(* ===== verification/FPEqual.thy ===== *)
theory FPEqual
  imports Prelude "HOL-Library.Word"
begin

unbundle bit_operations_syntax

text \<open>
  \<open>TSP/inc/FPEqual.h\<close>: comparison of floating-point numbers up to some units in the last place,
  on the bit patterns of IEEE single and double precision. \<open>int\<close> and \<open>long long\<close> arithmetic
  faults when it overflows.
\<close>

section \<open>Single precision\<close>

definition float_magnitude :: "32 word \<Rightarrow> 32 word" where
  "float_magnitude x = x AND 0x7FFFFFFF"

text \<open>\<open>x == y\<close> of two floats: never for NaNs, always for the two zeros.\<close>

definition float_same :: "32 word \<Rightarrow> 32 word \<Rightarrow> bool" where
  "float_same x y \<longleftrightarrow> float_magnitude x \<le> 0x7F800000 \<and> float_magnitude y \<le> 0x7F800000
     \<and> (x = y \<or> float_magnitude x = 0 \<and> float_magnitude y = 0)"

text \<open>\<open>0x80000000\<close> is an \<open>unsigned int\<close>: the subtraction wraps.\<close>

definition float_ordered :: "32 word \<Rightarrow> 32 word" where
  "float_ordered x = (if sint x < 0 then 0x80000000 - x else x)"

definition FloatsEqual :: "32 word \<Rightarrow> 32 word \<Rightarrow> int \<Rightarrow> bool res" where
  "FloatsEqual x y ulpTolerance =
     (if x AND 0x80000000 \<noteq> y AND 0x80000000 then Inr (float_same x y)
      else rbind (chk (sint (float_ordered x) - sint (float_ordered y))) (\<lambda>d.
           rbind (chk \<bar>d\<bar>) (\<lambda>a. Inr (a \<le> ulpTolerance))))"

section \<open>Double precision\<close>

definition double_magnitude :: "64 word \<Rightarrow> 64 word" where
  "double_magnitude x = x AND 0x7FFFFFFFFFFFFFFF"

definition double_same :: "64 word \<Rightarrow> 64 word \<Rightarrow> bool" where
  "double_same x y \<longleftrightarrow> double_magnitude x \<le> 0x7FF0000000000000 \<and> double_magnitude y \<le> 0x7FF0000000000000
     \<and> (x = y \<or> double_magnitude x = 0 \<and> double_magnitude y = 0)"

definition chk64 :: "int \<Rightarrow> int res" where
  "chk64 x = (if - (2 ^ 63) \<le> x \<and> x < 2 ^ 63 then Inr x else Inl IntOverflow)"

text \<open>The same constant, converted to \<open>long long\<close>: the subtraction is signed.\<close>

definition double_ordered :: "64 word \<Rightarrow> int res" where
  "double_ordered x = (if sint x < 0 then chk64 (0x80000000 - sint x) else Inr (sint x))"

definition DoublesEqual :: "64 word \<Rightarrow> 64 word \<Rightarrow> int \<Rightarrow> bool res" where
  "DoublesEqual x y ulpTolerance =
     (if x AND 0x8000000000000000 \<noteq> y AND 0x8000000000000000 then Inr (double_same x y)
      else rbind (double_ordered x) (\<lambda>a. rbind (double_ordered y) (\<lambda>b. rbind (chk64 (a - b)) (\<lambda>r.
           rbind (if r < 0 then chk64 (- r) else Inr r) (\<lambda>r'. Inr (r' \<le> ulpTolerance))))))"

section \<open>Signs and magnitudes\<close>

lemma mod_once:
  fixes u n :: int
  assumes "0 \<le> u" and "u < 2 * n"
  shows "u mod n = (if n \<le> u then u - n else u)"
proof (cases "n \<le> u")
  case True
  have "u mod n = (u - n) mod n" by (rule minus_mod_self2 [symmetric])
  with True assms show ?thesis by (simp only: mod_pos_pos_trivial if_True)
next
  case False
  with assms show ?thesis by (simp add: mod_pos_pos_trivial)
qed

lemma sint32: "sint (x :: 32 word) = (if 2 ^ 31 \<le> uint x then uint x - 2 ^ 32 else uint x)"
proof -
  have "sint x = (uint x + 2 ^ 31) mod 2 ^ 32 - 2 ^ 31"
    by (simp add: sint_uint signed_take_bit_eq_take_bit_shift take_bit_eq_mod)
  moreover have "0 \<le> uint x" "uint x < 2 ^ 32" using uint_lt2p [of x] by simp_all
  ultimately show ?thesis using mod_once [of "uint x + 2 ^ 31" "2 ^ 32"] by simp
qed

lemma sint64: "sint (x :: 64 word) = (if 2 ^ 63 \<le> uint x then uint x - 2 ^ 64 else uint x)"
proof -
  have "sint x = (uint x + 2 ^ 63) mod 2 ^ 64 - 2 ^ 63"
    by (simp add: sint_uint signed_take_bit_eq_take_bit_shift take_bit_eq_mod)
  moreover have "0 \<le> uint x" "uint x < 2 ^ 64" using uint_lt2p [of x] by simp_all
  ultimately show ?thesis using mod_once [of "uint x + 2 ^ 63" "2 ^ 64"] by simp
qed

lemma magnitude32: "uint (float_magnitude x) = (if 2 ^ 31 \<le> uint x then uint x - 2 ^ 31 else uint x)"
proof -
  have "uint (float_magnitude x) = take_bit 31 (uint x)"
    unfolding take_bit_eq_mask float_magnitude_def unsigned_and_eq by (simp add: mask_eq_exp_minus_1)
  moreover have "0 \<le> uint x" "uint x < 2 * 2 ^ 31" using uint_lt2p [of x] by simp_all
  ultimately show ?thesis using mod_once [of "uint x" "2 ^ 31"] by (simp only: take_bit_eq_mod)
qed

lemma magnitude64: "uint (double_magnitude x) = (if 2 ^ 63 \<le> uint x then uint x - 2 ^ 63 else uint x)"
proof -
  have "uint (double_magnitude x) = take_bit 63 (uint x)"
    unfolding take_bit_eq_mask double_magnitude_def unsigned_and_eq by (simp add: mask_eq_exp_minus_1)
  moreover have "0 \<le> uint x" "uint x < 2 * 2 ^ 63" using uint_lt2p [of x] by simp_all
  ultimately show ?thesis using mod_once [of "uint x" "2 ^ 63"] by (simp only: take_bit_eq_mod)
qed

text \<open>The two sign tests of the code agree: the masked bit and the sign of the integer.\<close>

lemma sign_bit:
  fixes x :: "'a :: len word"
  assumes "n = LENGTH('a) - Suc 0"
  shows "x AND push_bit n 1 = (if sint x < 0 then push_bit n 1 else 0)"
proof -
  have "bit (x AND push_bit n 1) i = bit (if bit x n then push_bit n 1 else 0 :: 'a word) i" for i
    by (auto simp: bit_and_iff bit_exp_iff)
  then have "x AND push_bit n 1 = (if bit x n then push_bit n 1 else 0)" by (rule bit_eqI)
  with bit_last_iff [of x] assms show ?thesis by simp
qed

lemma sign_bit32: "x AND 0x80000000 = (if sint x < 0 then 0x80000000 else 0)" for x :: "32 word"
  using sign_bit [of 31 x] by (simp add: push_bit_eq_mult)

lemma sign_bit64: "x AND 0x8000000000000000 = (if sint x < 0 then 0x8000000000000000 else 0)" for x :: "64 word"
  using sign_bit [of 63 x] by (simp add: push_bit_eq_mult)

lemma float_ordered_sint:
  "sint (float_ordered x) = (if sint x < 0 then - uint (float_magnitude x) else uint (float_magnitude x))"
proof (cases "sint x < 0")
  case True
  then have u: "2 ^ 31 \<le> uint x" by (simp add: sint32 split: if_splits)
  have "uint x < 2 ^ 32" using uint_lt2p [of x] by simp
  moreover have "uint (0x80000000 - x) = (2 ^ 31 - uint x) mod 2 ^ 32" by (simp add: uint_word_ariths)
  moreover have "(2 ^ 31 - uint x) mod 2 ^ 32 = (2 ^ 31 - uint x + 2 ^ 32) mod 2 ^ 32" by (rule mod_add_self2 [symmetric])
  ultimately show ?thesis
    using True u mod_once [of "2 ^ 31 - uint x + 2 ^ 32" "2 ^ 32"] by (simp add: float_ordered_def sint32 magnitude32)
next
  case False
  then show ?thesis using uint_lt2p [of x] by (simp add: float_ordered_def sint32 magnitude32 split: if_splits)
qed

lemma double_ordered_Inr:
  "0 \<le> sint x \<Longrightarrow> double_ordered x = Inr (uint (double_magnitude x))"
  "sint x < 0 \<Longrightarrow> double_ordered x = (if 2 ^ 31 < uint (double_magnitude x)
     then Inr (2 ^ 63 + 2 ^ 31 - uint (double_magnitude x)) else Inl IntOverflow)"
  using uint_lt2p [of x] by (auto simp: double_ordered_def sint64 magnitude64 chk64_def split: if_splits)

lemma chk_near:
  assumes "0 \<le> a" and "a < 2 ^ 31" and "0 \<le> b" and "b < 2 ^ 31"
  shows "rbind (chk (a - b)) (\<lambda>d. rbind (chk \<bar>d\<bar>) f) = f \<bar>a - b\<bar>"
proof -
  have "int_range (a - b)" "int_range \<bar>a - b\<bar>" using assms by (auto simp: int_range_def)
  then show ?thesis by (simp add: chk_ok)
qed

section \<open>Properties\<close>

text \<open>
  C28. For two floats of the same sign the comparison is the distance of their magnitudes in
  units in the last place, without overflow; for different signs it is \<open>==\<close>.
\<close>

theorem FloatsEqual_is_ulp_distance:
  "FloatsEqual x y ulpTolerance =
     Inr (if (sint x < 0) = (sint y < 0)
          then \<bar>uint (float_magnitude x) - uint (float_magnitude y)\<bar> \<le> ulpTolerance else float_same x y)"
proof -
  have m: "0 \<le> uint (float_magnitude z)" "uint (float_magnitude z) < 2 ^ 31" for z
    using uint_lt2p [of z] by (auto simp: magnitude32)
  show ?thesis
    unfolding FloatsEqual_def sign_bit32 float_ordered_sint
    using chk_near [OF m m, of x y "\<lambda>a. Inr (a \<le> ulpTolerance)"] chk_near [OF m m, of y x "\<lambda>a. Inr (a \<le> ulpTolerance)"]
      abs_minus_commute [of "uint (float_magnitude x)" "uint (float_magnitude y)"] by auto
qed

text \<open>
  For doubles the constant is too short: two negative doubles of which one is within \<open>2 ^ 31\<close>
  units of zero (such as the negative zero) overflow a \<open>long long\<close>. Otherwise the comparison is
  the distance of the magnitudes too.
\<close>

theorem DoublesEqual_overflows_near_zero:
  assumes "(sint x < 0) = (sint y < 0)"
  shows "DoublesEqual x y ulpTolerance =
    (if sint x < 0 \<and> (uint (double_magnitude x) \<le> 2 ^ 31 \<or> uint (double_magnitude y) \<le> 2 ^ 31) then Inl IntOverflow
     else Inr (\<bar>uint (double_magnitude x) - uint (double_magnitude y)\<bar> \<le> ulpTolerance))"
proof -
  have m: "0 \<le> uint (double_magnitude z)" "uint (double_magnitude z) < 2 ^ 63" for z
    using uint_lt2p [of z] by (auto simp: magnitude64)
  define a b where "a = uint (double_magnitude x)" and "b = uint (double_magnitude y)"
  have ab: "0 \<le> a" "a < 2 ^ 63" "0 \<le> b" "b < 2 ^ 63" using m [of x] m [of y] by (simp_all add: a_def b_def)
  show ?thesis
    using assms ab unfolding DoublesEqual_def sign_bit64 a_def [symmetric] b_def [symmetric]
    by (cases "sint x < 0") (auto simp: double_ordered_Inr chk64_def simp flip: a_def b_def)
qed

theorem DoublesEqual_overflows_near_zero_witness:
  "DoublesEqual 0x8000000000000000 0x8000000000000000 10 = Inl IntOverflow"
  using DoublesEqual_overflows_near_zero [of "0x8000000000000000" "0x8000000000000000" 10]
  by (simp add: sint64 magnitude64)

end
