(* ===== verification/Catalogue.thy ===== *)
theory Catalogue
  imports HashMap "HOL-Library.Word"
begin

text \<open>
  \<open>TSP/inc/Catalogue.h\<close>: the catalogues of the library's operations, a client of the hash map of
  \<open>HashMap\<close>. Names are the strings they point to: the map keeps the pointer its caller passes,
  which the callers in the library take from string literals. User data have addresses; the
  catalogue owns those it holds, and freeing dead data is a fault. The lock around every method
  is in \<open>Locks\<close>.
\<close>

section \<open>Entries\<close>

record entry =
  ce_name :: "string option"
  ce_nameLength :: int
  ce_data :: "nat option"

definition entry_new :: "string option \<Rightarrow> nat option \<Rightarrow> entry" where
  "entry_new name d =
     (case name of Some s \<Rightarrow> \<lparr>ce_name = Some s, ce_nameLength = int (length s), ce_data = d\<rparr>
                 | None \<Rightarrow> \<lparr>ce_name = None, ce_nameLength = 0, ce_data = None\<rparr>)"

definition entry_SetName :: "string option \<Rightarrow> entry \<Rightarrow> entry" where
  "entry_SetName name e =
     (case name of Some s \<Rightarrow> e\<lparr>ce_name := Some s, ce_nameLength := int (length s)\<rparr> | None \<Rightarrow> e)"

definition entry_SetData :: "nat option \<Rightarrow> entry \<Rightarrow> entry" where
  "entry_SetData d e = e\<lparr>ce_data := d\<rparr>"

text \<open>The destructor frees the data.\<close>

definition entry_delete :: "entry \<Rightarrow> nat set \<Rightarrow> nat set res" where
  "entry_delete e live =
     (case ce_data e of None \<Rightarrow> Inr live | Some d \<Rightarrow> if d \<in> live then Inr (live - {d}) else Inl Dangling)"

section \<open>The hash function\<close>

text \<open>A \<open>char\<close> is signed and widened to \<open>size_t\<close>; \<open>ldiv\<close> cuts towards zero.\<close>

definition char_sum :: "string \<Rightarrow> 64 word" where
  "char_sum key = fold (\<lambda>c t. t + scast (word_of_nat (of_char c) :: 8 word)) key 0"

definition scatter :: "int \<Rightarrow> int" where
  "scatter t =
     (let r = 16807 * c_mod t 127773 - 2836 * c_div t 127773 in if r < 0 then r + 2147483647 else r)"

definition key_hash :: "string option \<Rightarrow> 64 word" where
  "key_hash key = (case key of None \<Rightarrow> 0 | Some s \<Rightarrow> word_of_int (scatter (sint (char_sum s))))"

section \<open>The catalogue\<close>

record catalogue =
  ct_entries :: "(string, entry) hash_map"
  ct_live :: "nat set"

definition catalogue_new :: "nat set \<Rightarrow> catalogue" where
  "catalogue_new live = \<lparr>ct_entries = [], ct_live = live\<rparr>"

definition catalogue_Register :: "string option \<Rightarrow> nat option \<Rightarrow> bool \<Rightarrow> catalogue \<Rightarrow> (bool \<times> catalogue) res" where
  "catalogue_Register name d replace c =
     (case name of None \<Rightarrow> Inr (False, c) | Some k \<Rightarrow>
       let it = hm_find (ct_entries c) k; exists = it \<noteq> None
       in if exists \<and> \<not> replace then Inr (False, c)
          else rbind (case it of
                        None \<Rightarrow> Inr c
                      | Some e \<Rightarrow> rbind (entry_delete e (ct_live c)) (\<lambda>live.
                          Inr \<lparr>ct_entries = hm_erase k (ct_entries c), ct_live = live\<rparr>))
               (\<lambda>c1. Inr (hm_find (ct_entries c1) k = None,
                  c1\<lparr>ct_entries := hm_insert k (entry_new name d) (ct_entries c1)\<rparr>)))"

definition catalogue_Unregister :: "string \<Rightarrow> catalogue \<Rightarrow> (bool \<times> catalogue) res" where
  "catalogue_Unregister name c =
     (case hm_find (ct_entries c) name of
        None \<Rightarrow> Inr (False, c)
      | Some e \<Rightarrow> rbind (entry_delete e (ct_live c)) (\<lambda>live.
          Inr (True, \<lparr>ct_entries = hm_erase name (ct_entries c), ct_live = live\<rparr>)))"

definition catalogue_GetEntry :: "string \<Rightarrow> catalogue \<Rightarrow> entry option" where
  "catalogue_GetEntry name c = hm_find (ct_entries c) name"

definition catalogue_GetEntryData :: "string \<Rightarrow> catalogue \<Rightarrow> nat option" where
  "catalogue_GetEntryData name c = Option.bind (hm_find (ct_entries c) name) ce_data"

text \<open>\<open>GetKeys\<close>: the names in the order of the iteration, copied to arrays of the stored length.\<close>

definition catalogue_GetKeys ::
  "((string, entry) hash_map \<Rightarrow> (string, entry) hash_map) \<Rightarrow> catalogue \<Rightarrow> (string list \<times> int) res" where
  "catalogue_GetKeys ord c =
     rbind (rmap (\<lambda>(k, e). case ce_name e of None \<Rightarrow> Inl NullDeref
        | Some s \<Rightarrow> if length s < nat (ce_nameLength e + 1) then Inr s else Inl BufferOverflow) (ord (ct_entries c)))
       (\<lambda>names. Inr (names, int (length (ct_entries c))))"

definition catalogue_GetCount :: "catalogue \<Rightarrow> int" where
  "catalogue_GetCount c = int (length (ct_entries c))"

definition catalogue_IsExist :: "string \<Rightarrow> catalogue \<Rightarrow> bool" where
  "catalogue_IsExist name c \<longleftrightarrow> hm_find (ct_entries c) name \<noteq> None"

definition catalogue_delete :: "((string, entry) hash_map \<Rightarrow> (string, entry) hash_map) \<Rightarrow> catalogue \<Rightarrow> nat set res" where
  "catalogue_delete ord c = rfold (\<lambda>(k, e) live. entry_delete e live) (ord (ct_entries c)) (ct_live c)"

text \<open>The global instance: \<open>FreeInstance\<close> leaves the pointer as it is.\<close>

datatype catalogue_instance = NullInstance | Instance catalogue | FreedInstance

definition MakeInstance :: "nat set \<Rightarrow> catalogue_instance \<Rightarrow> catalogue_instance" where
  "MakeInstance live i = (if i = NullInstance then Instance (catalogue_new live) else i)"

definition FreeInstance ::
  "((string, entry) hash_map \<Rightarrow> (string, entry) hash_map) \<Rightarrow> catalogue_instance \<Rightarrow> catalogue_instance res" where
  "FreeInstance ord i =
     (case i of
        NullInstance \<Rightarrow> Inr NullInstance
      | Instance c \<Rightarrow> rbind (catalogue_delete ord c) (\<lambda>_. Inr FreedInstance)
      | FreedInstance \<Rightarrow> Inl Dangling)"

section \<open>Ownership\<close>

text \<open>Every entry has its name and, as no other, live data of its own.\<close>

definition catalogue_owns :: "catalogue \<Rightarrow> bool" where
  "catalogue_owns c \<longleftrightarrow> hm_inv (ct_entries c)
     \<and> (\<forall>k e. hm_find (ct_entries c) k = Some e \<longrightarrow> ce_name e = Some k \<and> ce_nameLength e = int (length k)
          \<and> (\<forall>d. ce_data e = Some d \<longrightarrow> d \<in> ct_live c))
     \<and> (\<forall>k l e f d. hm_find (ct_entries c) k = Some e \<longrightarrow> hm_find (ct_entries c) l = Some f
          \<longrightarrow> ce_data e = Some d \<longrightarrow> ce_data f = Some d \<longrightarrow> k = l)"

definition owned :: "catalogue \<Rightarrow> nat set" where
  "owned c = {d. \<exists>k e. hm_find (ct_entries c) k = Some e \<and> ce_data e = Some d}"

text \<open>Data that may be handed over: alive and not of another entry.\<close>

definition fresh_data :: "catalogue \<Rightarrow> nat option \<Rightarrow> bool" where
  "fresh_data c d \<longleftrightarrow> (\<forall>x. d = Some x \<longrightarrow> x \<in> ct_live c \<and> x \<notin> owned c)"

lemma catalogue_ownsD:
  assumes "catalogue_owns c"
  shows "hm_inv (ct_entries c)"
    and "hm_find (ct_entries c) k = Some e \<Longrightarrow> ce_name e = Some k \<and> ce_nameLength e = int (length k)"
    and "hm_find (ct_entries c) k = Some e \<Longrightarrow> ce_data e = Some d \<Longrightarrow> d \<in> ct_live c"
    and "hm_find (ct_entries c) k = Some e \<Longrightarrow> hm_find (ct_entries c) l = Some f \<Longrightarrow> ce_data e = Some d
      \<Longrightarrow> ce_data f = Some d \<Longrightarrow> k = l"
  using assms unfolding catalogue_owns_def by blast+

text \<open>Removing one entry with its data.\<close>

lemma entry_removed:
  assumes own: "catalogue_owns c" and e: "hm_find (ct_entries c) k = Some e"
  shows "\<exists>live. entry_delete e (ct_live c) = Inr live \<and> live = ct_live c - {d. ce_data e = Some d}
    \<and> catalogue_owns \<lparr>ct_entries = hm_erase k (ct_entries c), ct_live = live\<rparr>
    \<and> owned \<lparr>ct_entries = hm_erase k (ct_entries c), ct_live = live\<rparr> = owned c - {d. ce_data e = Some d}"
proof -
  let ?live = "ct_live c - {d. ce_data e = Some d}"
  let ?c = "\<lparr>ct_entries = hm_erase k (ct_entries c), ct_live = ?live\<rparr>"
  note D = catalogue_ownsD [OF own]
  have find: "hm_find (ct_entries ?c) = (hm_find (ct_entries c))(k := None)" using hm.find_erase [OF D(1)] by simp
  have "entry_delete e (ct_live c) = Inr ?live" using D(3) [OF e] by (auto simp: entry_delete_def split: option.splits)
  moreover have "catalogue_owns ?c"
    unfolding catalogue_owns_def find using hm.inv_erase [OF D(1)] D(2-4) e by (auto split: if_splits)
  moreover have "owned ?c = owned c - {d. ce_data e = Some d}"
  proof (rule set_eqI)
    fix x
    have "x \<in> owned ?c \<longleftrightarrow> (\<exists>l f. l \<noteq> k \<and> hm_find (ct_entries c) l = Some f \<and> ce_data f = Some x)"
      unfolding owned_def find by auto
    also have "\<dots> \<longleftrightarrow> x \<in> owned c \<and> ce_data e \<noteq> Some x"
      using D(4) [OF e] e unfolding owned_def mem_Collect_eq by (metis option.inject)
    finally show "x \<in> owned ?c \<longleftrightarrow> x \<in> owned c - {d. ce_data e = Some d}" by simp
  qed
  ultimately show ?thesis by blast
qed

lemma entry_added:
  assumes own: "catalogue_owns c" and k: "hm_find (ct_entries c) k = None" and d: "fresh_data c d"
  defines "c' \<equiv> c\<lparr>ct_entries := hm_insert k (entry_new (Some k) d) (ct_entries c)\<rparr>"
  shows "catalogue_owns c'" and "hm_find (ct_entries c') = (hm_find (ct_entries c))(k \<mapsto> entry_new (Some k) d)"
proof -
  note D = catalogue_ownsD [OF own]
  show find: "hm_find (ct_entries c') = (hm_find (ct_entries c))(k \<mapsto> entry_new (Some k) d)"
    using hm.find_ins_fresh [OF D(1) k] by (simp add: c'_def)
  have "hm_inv (ct_entries c')" using hm.inv_ins [OF D(1)] by (simp add: c'_def)
  moreover have "ct_live c' = ct_live c" by (simp add: c'_def)
  ultimately show "catalogue_owns c'"
    unfolding catalogue_owns_def find using D(2-4) d by (auto simp: entry_new_def owned_def fresh_data_def)
qed

lemma registered:
  assumes own: "catalogue_owns c" and d: "fresh_data c d" and new: "replace \<or> hm_find (ct_entries c) k = None"
  shows "\<exists>c'. catalogue_Register (Some k) d replace c = Inr (True, c') \<and> catalogue_owns c'
    \<and> hm_find (ct_entries c') = (hm_find (ct_entries c))(k \<mapsto> entry_new (Some k) d)
    \<and> ct_live c' = ct_live c - {x. catalogue_GetEntryData k c = Some x}"
proof (cases "hm_find (ct_entries c) k")
  case None
  with entry_added [OF own None d] show ?thesis by (simp add: catalogue_Register_def catalogue_GetEntryData_def)
next
  case (Some e)
  obtain live where l: "entry_delete e (ct_live c) = Inr live" "live = ct_live c - {x. ce_data e = Some x}"
      "catalogue_owns \<lparr>ct_entries = hm_erase k (ct_entries c), ct_live = live\<rparr>"
      "owned \<lparr>ct_entries = hm_erase k (ct_entries c), ct_live = live\<rparr> = owned c - {x. ce_data e = Some x}"
    using entry_removed [OF own Some] by blast
  let ?c = "\<lparr>ct_entries = hm_erase k (ct_entries c), ct_live = live\<rparr>"
  have find: "hm_find (ct_entries ?c) = (hm_find (ct_entries c))(k := None)"
    using hm.find_erase [OF catalogue_ownsD(1) [OF own]] by simp
  have "fresh_data ?c d" using d l(2,4) Some by (auto simp: fresh_data_def owned_def)
  with entry_added [OF l(3), of k d] find Some new l(1,2) show ?thesis
    by (simp add: catalogue_Register_def catalogue_GetEntryData_def)
qed

lemma unregistered:
  assumes own: "catalogue_owns c"
  shows "\<exists>c'. catalogue_Unregister k c = Inr (catalogue_IsExist k c, c') \<and> catalogue_owns c'
    \<and> hm_find (ct_entries c') = (hm_find (ct_entries c))(k := None)
    \<and> ct_live c' = ct_live c - {x. catalogue_GetEntryData k c = Some x}"
proof (cases "hm_find (ct_entries c) k")
  case None
  with own show ?thesis
    by (auto simp: catalogue_Unregister_def catalogue_IsExist_def catalogue_GetEntryData_def fun_upd_idem)
next
  case (Some e)
  from entry_removed [OF own Some] hm.find_erase [OF catalogue_ownsD(1) [OF own], of k] Some show ?thesis
    by (auto simp: catalogue_Unregister_def catalogue_IsExist_def catalogue_GetEntryData_def)
qed

text \<open>The destructor visits every entry once, in whatever order.\<close>

lemma deleted_entries:
  assumes "\<forall>(k, e) \<in> set es. \<forall>d. ce_data e = Some d \<longrightarrow> d \<in> live"
    and "distinct (map fst es)"
    and "\<forall>k e l f d. (k, e) \<in> set es \<longrightarrow> (l, f) \<in> set es \<longrightarrow> ce_data e = Some d \<longrightarrow> ce_data f = Some d \<longrightarrow> k = l"
  shows "rfold (\<lambda>(k, e) live. entry_delete e live) es live = Inr (live - {d. \<exists>(k, e) \<in> set es. ce_data e = Some d})"
  using assms
proof (induction es arbitrary: live)
  case Nil
  then show ?case by simp
next
  case (Cons x es)
  obtain k e where x: "x = (k, e)" by (cases x)
  let ?live = "live - {d. ce_data e = Some d}"
  have del: "entry_delete e live = Inr ?live" using Cons.prems(1) x by (auto simp: entry_delete_def split: option.splits)
  have own: "ce_data f \<noteq> Some d" if "(l, f) \<in> set es" "ce_data e = Some d" for l f d
  proof
    assume "ce_data f = Some d"
    with Cons.prems(3) that x have "k = l" by (meson list.set_intros)
    with Cons.prems(2) that(1) x show False by force
  qed
  have "rfold (\<lambda>(k, e) live. entry_delete e live) es ?live = Inr (?live - {d. \<exists>(k, e) \<in> set es. ce_data e = Some d})"
  proof (rule Cons.IH)
    show "\<forall>(l, f) \<in> set es. \<forall>d. ce_data f = Some d \<longrightarrow> d \<in> ?live" using Cons.prems(1) own by fastforce
    show "distinct (map fst es)" using Cons.prems(2) by simp
    show "\<forall>k e l f d. (k, e) \<in> set es \<longrightarrow> (l, f) \<in> set es \<longrightarrow> ce_data e = Some d \<longrightarrow> ce_data f = Some d \<longrightarrow> k = l"
      using Cons.prems(3) by (meson list.set_intros(2))
  qed
  moreover have "?live - {d. \<exists>(k, e) \<in> set es. ce_data e = Some d} = live - {d. \<exists>(k, e) \<in> set (x # es). ce_data e = Some d}"
    using x by auto
  ultimately show ?case using del x by simp
qed

lemma catalogue_deleted:
  assumes own: "catalogue_owns c" and ord: "iteration_order ord"
  shows "catalogue_delete ord c = Inr (ct_live c - owned c)"
proof -
  note D = catalogue_ownsD [OF own]
  have m: "mset (ord (ct_entries c)) = mset (ct_entries c)" using ord by (simp add: iteration_order_def)
  have s: "set (ord (ct_entries c)) = set (ct_entries c)" using mset_eq_setD [OF m] .
  have "mset (map fst (ord (ct_entries c))) = mset (map fst (ct_entries c))" using m by simp
  from mset_eq_imp_distinct_iff [OF this] have "distinct (map fst (ord (ct_entries c)))" using D(1) by (simp add: hm_inv_def)
  moreover have f: "(k, e) \<in> set (ord (ct_entries c)) \<longleftrightarrow> hm_find (ct_entries c) k = Some e" for k e
    using hm_find_Some_iff [OF D(1)] s by simp
  ultimately have "catalogue_delete ord c = Inr (ct_live c - {d. \<exists>(k, e) \<in> set (ord (ct_entries c)). ce_data e = Some d})"
    unfolding catalogue_delete_def using D(3,4) by (intro deleted_entries) auto
  moreover have "{d. \<exists>(k, e) \<in> set (ord (ct_entries c)). ce_data e = Some d} = owned c"
    using f by (auto simp: owned_def)
  ultimately show ?thesis by simp
qed

section \<open>The hash of a name\<close>

lemma scatter_park_miller:
  assumes "0 \<le> t" and "t < 2147483647"
  shows "scatter t = 16807 * t mod 2147483647"
proof -
  define q r where "q = t div 127773" and "r = t mod 127773"
  have t: "t = 127773 * q + r" "0 \<le> r" "r < 127773" "0 \<le> q" "q \<le> 16807" using assms by (auto simp: q_def r_def)
  define x where "x = 16807 * r - 2836 * q"
  have "16807 * t = x + q * 2147483647" using t(1) by (simp add: x_def)
  then have m: "16807 * t mod 2147483647 = x mod 2147483647" by (simp only: mod_mult_self1)
  have b: "- 2147483647 < x" "x < 2147483647" using t by (simp_all add: x_def)
  have s: "scatter t = (if x < 0 then x + 2147483647 else x)"
    using assms(1) by (simp add: scatter_def Let_def c_mod_nonneg c_div_nonneg x_def q_def r_def)
  show ?thesis
  proof (cases "x < 0")
    case True
    have "x mod 2147483647 = (x + 2147483647) mod 2147483647" by simp
    also have "\<dots> = x + 2147483647" using True b by (intro mod_pos_pos_trivial) simp_all
    finally show ?thesis using True s m by simp
  next
    case False
    then show ?thesis using b s m by (simp add: mod_pos_pos_trivial)
  qed
qed

lemma ascii_scast: "k < 128 \<Longrightarrow> scast (word_of_nat k :: 8 word) = (word_of_nat k :: 64 word)"
  by (simp add: scast_eq sint_uint unsigned_of_nat take_bit_nat_eq_self signed_take_bit_int_eq_self)

lemma char_sum_ascii:
  assumes "\<forall>c \<in> set key. (of_char c :: nat) < 128"
  shows "fold (\<lambda>c t. t + scast (word_of_nat (of_char c) :: 8 word)) key (word_of_nat n :: 64 word)
    = word_of_nat (n + sum_list (map of_char key))"
  using assms
proof (induction key arbitrary: n)
  case Nil
  then show ?case by simp
next
  case (Cons c key)
  then have "word_of_nat n + scast (word_of_nat (of_char c) :: 8 word) = (word_of_nat (n + of_char c) :: 64 word)"
    using ascii_scast [of "of_char c"] by simp
  with Cons.IH [of "n + of_char c"] Cons.prems show ?case by (simp add: add.assoc)
qed

section \<open>Properties\<close>

text \<open>
  Registering live data that no entry holds yet succeeds exactly when the name is new or may be
  replaced. Then looking the name up gives these data, every other name is as before, data that
  were replaced are freed, and the catalogue owns its data again.
\<close>

theorem register_then_lookup:
  assumes "catalogue_owns c" and "fresh_data c (Some d)"
  shows "\<exists>r c'. catalogue_Register (Some k) (Some d) replace c = Inr (r, c') \<and> catalogue_owns c'
    \<and> (r \<longleftrightarrow> replace \<or> \<not> catalogue_IsExist k c)
    \<and> (\<forall>l. catalogue_GetEntryData l c' = (if r \<and> l = k then Some d else catalogue_GetEntryData l c))
    \<and> ct_live c' = ct_live c - (if r then {x. catalogue_GetEntryData k c = Some x} else {})"
proof (cases "replace \<or> hm_find (ct_entries c) k = None")
  case True
  obtain c' where c': "catalogue_Register (Some k) (Some d) replace c = Inr (True, c')" "catalogue_owns c'"
      "hm_find (ct_entries c') = (hm_find (ct_entries c))(k \<mapsto> entry_new (Some k) (Some d))"
      "ct_live c' = ct_live c - {x. catalogue_GetEntryData k c = Some x}"
    using registered [OF assms True] by blast
  have "replace \<or> \<not> catalogue_IsExist k c" using True by (simp add: catalogue_IsExist_def)
  moreover have "\<forall>l. catalogue_GetEntryData l c' = (if l = k then Some d else catalogue_GetEntryData l c)"
    unfolding catalogue_GetEntryData_def c'(3) by (simp add: entry_new_def)
  ultimately show ?thesis using c'(1,2,4) by (intro exI [of _ True] exI [of _ c']) simp
next
  case False
  then show ?thesis
    using assms(1) by (intro exI [of _ False] exI [of _ c]) (auto simp: catalogue_Register_def catalogue_IsExist_def Let_def)
qed

lemma empty_catalogue: "catalogue_owns (catalogue_new live)" "owned (catalogue_new live) = {}"
  by (simp_all add: catalogue_owns_def owned_def catalogue_new_def hm_inv_def hm_find_def)

theorem register_then_lookup_witness:
  "\<exists>c'. catalogue_Register (Some ''a'') (Some 7) False (catalogue_new {7}) = Inr (True, c')
    \<and> catalogue_GetEntryData ''a'' c' = Some 7"
  using register_then_lookup [OF empty_catalogue(1), of "{7}" 7 "''a''" False] empty_catalogue
  by (auto simp: catalogue_new_def catalogue_IsExist_def hm_find_def fresh_data_def)

text \<open>
  The abstract directory: names with the data they stand for. A registration fails when the name
  is taken and may not be replaced; removing a name tells whether it was there.
\<close>

datatype catalogue_call = CallRegister string "nat option" bool | CallUnregister string

fun catalogue_calls :: "catalogue_call list \<Rightarrow> catalogue \<Rightarrow> (bool list \<times> catalogue) res" where
  "catalogue_calls [] c = Inr ([], c)"
| "catalogue_calls (x # xs) c =
     rbind (case x of CallRegister k d replace \<Rightarrow> catalogue_Register (Some k) d replace c
                    | CallUnregister k \<Rightarrow> catalogue_Unregister k c)
       (\<lambda>(b, c1). rbind (catalogue_calls xs c1) (\<lambda>(bs, c2). Inr (b # bs, c2)))"

fun directory_calls :: "catalogue_call list \<Rightarrow> (string \<rightharpoonup> nat option) \<Rightarrow> bool list \<times> (string \<rightharpoonup> nat option)" where
  "directory_calls [] m = ([], m)"
| "directory_calls (CallRegister k d replace # xs) m =
     (let b = replace \<or> k \<notin> dom m; (bs, m') = directory_calls xs (if b then m(k \<mapsto> d) else m) in (b # bs, m'))"
| "directory_calls (CallUnregister k # xs) m =
     (let (bs, m') = directory_calls xs (m(k := None)) in ((k \<in> dom m) # bs, m'))"

definition directory_of :: "catalogue \<Rightarrow> string \<rightharpoonup> nat option" where
  "directory_of c k = map_option ce_data (catalogue_GetEntry k c)"

text \<open>The data a sequence of calls hands over.\<close>

fun given :: "catalogue_call list \<Rightarrow> nat list" where
  "given [] = []"
| "given (CallRegister k d replace # xs) = (case d of None \<Rightarrow> [] | Some x \<Rightarrow> [x]) @ given xs"
| "given (CallUnregister k # xs) = given xs"

definition handed_over :: "catalogue \<Rightarrow> nat list \<Rightarrow> bool" where
  "handed_over c ds \<longleftrightarrow> distinct ds \<and> set ds \<subseteq> ct_live c - owned c"

lemma IsExist_directory: "catalogue_IsExist k c \<longleftrightarrow> k \<in> dom (directory_of c)"
  by (auto simp: catalogue_IsExist_def directory_of_def catalogue_GetEntry_def)

lemma directory_of_upd:
  "hm_find (ct_entries c') = (hm_find (ct_entries c))(k \<mapsto> entry_new (Some k) d) \<Longrightarrow> directory_of c' = (directory_of c)(k \<mapsto> d)"
  "hm_find (ct_entries c') = (hm_find (ct_entries c))(k := None) \<Longrightarrow> directory_of c' = (directory_of c)(k := None)"
  by (auto simp: directory_of_def catalogue_GetEntry_def entry_new_def fun_eq_iff)

lemma owned_directory: "owned c = {x. \<exists>k. directory_of c k = Some (Some x)}"
  by (auto simp: owned_def directory_of_def catalogue_GetEntry_def)

lemma GetEntryData_directory: "catalogue_GetEntryData k c = Some x \<longleftrightarrow> directory_of c k = Some (Some x)"
  by (cases "hm_find (ct_entries c) k") (auto simp: catalogue_GetEntryData_def directory_of_def catalogue_GetEntry_def)

lemma register_step:
  fixes replace :: bool and k :: string
  assumes own: "catalogue_owns c" and ds: "handed_over c ((case d of None \<Rightarrow> [] | Some x \<Rightarrow> [x]) @ ds)"
  defines "b \<equiv> replace \<or> k \<notin> dom (directory_of c)"
  shows "\<exists>c'. catalogue_Register (Some k) d replace c = Inr (b, c') \<and> catalogue_owns c' \<and> handed_over c' ds
    \<and> directory_of c' = (if b then (directory_of c)(k \<mapsto> d) else directory_of c)"
proof (cases b)
  case True
  have f: "fresh_data c d" using ds by (auto simp: fresh_data_def handed_over_def)
  have "replace \<or> hm_find (ct_entries c) k = None"
    using True IsExist_directory [of k c] by (auto simp: b_def catalogue_IsExist_def)
  from registered [OF own f this] obtain c' where c': "catalogue_Register (Some k) d replace c = Inr (True, c')" "catalogue_owns c'"
      "hm_find (ct_entries c') = (hm_find (ct_entries c))(k \<mapsto> entry_new (Some k) d)"
      "ct_live c' = ct_live c - {x. catalogue_GetEntryData k c = Some x}" by blast
  note dir = directory_of_upd(1) [OF c'(3)]
  have "owned c' \<subseteq> owned c \<union> set_option d" unfolding owned_directory dir by (auto split: if_splits)
  moreover have "ct_live c - owned c \<subseteq> ct_live c'" unfolding c'(4) owned_directory GetEntryData_directory by auto
  ultimately have "handed_over c' ds" using ds unfolding handed_over_def by (cases d) auto
  with c'(1,2) dir True show ?thesis by auto
next
  case False
  then have "hm_find (ct_entries c) k \<noteq> None" "\<not> replace"
    using IsExist_directory [of k c] by (auto simp: b_def catalogue_IsExist_def)
  then have "catalogue_Register (Some k) d replace c = Inr (False, c)" by (simp add: catalogue_Register_def)
  with False own ds show ?thesis by (auto simp: handed_over_def)
qed

lemma unregister_step:
  assumes own: "catalogue_owns c" and ds: "handed_over c ds"
  shows "\<exists>c'. catalogue_Unregister k c = Inr (k \<in> dom (directory_of c), c') \<and> catalogue_owns c' \<and> handed_over c' ds
    \<and> directory_of c' = (directory_of c)(k := None)"
proof -
  obtain c' where c': "catalogue_Unregister k c = Inr (catalogue_IsExist k c, c')" "catalogue_owns c'"
      "hm_find (ct_entries c') = (hm_find (ct_entries c))(k := None)"
      "ct_live c' = ct_live c - {x. catalogue_GetEntryData k c = Some x}"
    using unregistered [OF own] by blast
  note dir = directory_of_upd(2) [OF c'(3)]
  have "owned c' \<subseteq> owned c" unfolding owned_directory dir by (auto split: if_splits)
  moreover have "ct_live c - owned c \<subseteq> ct_live c'" unfolding c'(4) owned_directory GetEntryData_directory by auto
  ultimately have "handed_over c' ds" using ds unfolding handed_over_def by auto
  with c'(1,2) dir show ?thesis by (auto simp: IsExist_directory)
qed


definition sample_calls :: "catalogue_call list" where
  "sample_calls = [CallRegister ''a'' (Some 7) False, CallRegister ''a'' (Some 8) False, CallUnregister ''b'', CallUnregister ''a'']"


text \<open>
  The destructor frees the data of every entry once, in whatever order the map iterates.
  \<open>FreeInstance\<close> leaves the global pointer at the destroyed catalogue: a later \<open>MakeInstance\<close> does
  nothing, and freeing once more destroys it a second time.
\<close>

theorem free_instance_leaves_dangling:
  assumes "catalogue_owns c" and "iteration_order ord"
  shows "catalogue_delete ord c = Inr (ct_live c - owned c)
    \<and> (\<exists>i. FreeInstance ord (Instance c) = Inr i \<and> MakeInstance live i = i \<and> FreeInstance ord (MakeInstance live i) = Inl Dangling)"
  using catalogue_deleted [OF assms] by (simp add: FreeInstance_def MakeInstance_def)

theorem free_instance_leaves_dangling_witness:
  "\<exists>i. FreeInstance rev (Instance (catalogue_new {})) = Inr i \<and> FreeInstance rev i = Inl Dangling"
  using free_instance_leaves_dangling [OF empty_catalogue(1) iteration_order_rev, of "{}" "{}"] by (auto simp: MakeInstance_def)

text \<open>
  The hash of an ASCII name of less than \<open>2 ^ 24\<close> characters is one step of the minimal standard
  generator from the sum of its characters: \<open>16807 * sum mod (2 ^ 31 - 1)\<close>.
\<close>

theorem key_hash_is_minimal_standard:
  assumes "\<forall>c \<in> set key. (of_char c :: nat) < 128" and "length key < 2 ^ 24"
  shows "uint (key_hash (Some key)) = 16807 * int (sum_list (map of_char key)) mod 2147483647"
proof -
  let ?n = "sum_list (map of_char key) :: nat"
  have "?n \<le> length key * 127"
    using assms(1) by (induction key) auto
  then have n: "int ?n < 2147483647" using assms(2) by simp
  have "char_sum key = word_of_nat ?n"
    using char_sum_ascii [OF assms(1), of 0] by (simp add: char_sum_def)
  then have "sint (char_sum key) = int ?n"
    using n by (simp add: signed_of_nat signed_take_bit_int_eq_self)
  then have h: "key_hash (Some key) = word_of_int (16807 * int ?n mod 2147483647)"
    using scatter_park_miller [of "int ?n"] n by (simp add: key_hash_def)
  have "0 \<le> 16807 * int ?n mod 2147483647" "16807 * int ?n mod 2147483647 < 2147483647" by simp_all
  then show ?thesis unfolding h by (simp add: uint_word_of_int mod_pos_pos_trivial)
qed

theorem key_hash_is_minimal_standard_witness:
  "uint (key_hash (Some ''GaSwapMutation'')) = 16807 * 1428 mod 2147483647"
  using key_hash_is_minimal_standard [of "''GaSwapMutation''"] by simp

end
