(* ===== verification/OperationPair.thy ===== *)
theory OperationPair
  imports Prelude
begin

text \<open>
  \<open>GaOperationParametersPair\<close> of \<open>TSP/inc/Operation.h\<close>: an operation, which the pair only points to,
  and a clone of its parameters, which the pair owns. Parameter objects live in a heap;
  \<open>Clone\<close> allocates a copy. A reference is an address, \<open>None\<close> for the reference to nothing that
  the code guards against with \<open>&parameters ? ...\<close>.
\<close>

section \<open>The pair\<close>

record 'p param_heap =
  pm_objects :: "nat \<Rightarrow> 'p option"
  pm_next :: nat

record 'o operation_pair =
  op_operation :: "'o option"
  op_parameters :: "nat option"

definition param_clone :: "nat \<Rightarrow> 'p param_heap \<Rightarrow> (nat \<times> 'p param_heap) res" where
  "param_clone a h =
     (case pm_objects h a of None \<Rightarrow> Inl Dangling
      | Some x \<Rightarrow> Inr (pm_next h, h\<lparr>pm_objects := (pm_objects h)(pm_next h \<mapsto> x), pm_next := Suc (pm_next h)\<rparr>))"

definition param_delete :: "nat \<Rightarrow> 'p param_heap \<Rightarrow> 'p param_heap res" where
  "param_delete a h =
     (if pm_objects h a = None then Inl Dangling else Inr (h\<lparr>pm_objects := (pm_objects h)(a := None)\<rparr>))"

text \<open>\<open>x ? x->Clone() : 0\<close> and \<open>if( x ) delete x\<close>.\<close>

definition clone_or_null :: "nat option \<Rightarrow> 'p param_heap \<Rightarrow> (nat option \<times> 'p param_heap) res" where
  "clone_or_null x h = (case x of None \<Rightarrow> Inr (None, h) | Some a \<Rightarrow> rbind (param_clone a h) (\<lambda>(b, h'). Inr (Some b, h')))"

definition delete_if :: "nat option \<Rightarrow> 'p param_heap \<Rightarrow> 'p param_heap res" where
  "delete_if x h = (case x of None \<Rightarrow> Inr h | Some a \<Rightarrow> param_delete a h)"

definition pair_new :: "'o option \<Rightarrow> nat option \<Rightarrow> 'p param_heap \<Rightarrow> ('o operation_pair \<times> 'p param_heap) res" where
  "pair_new operation parameters h =
     rbind (clone_or_null parameters h) (\<lambda>(x, h'). Inr (\<lparr>op_operation = operation, op_parameters = x\<rparr>, h'))"

definition pair_copy :: "'o operation_pair \<Rightarrow> 'p param_heap \<Rightarrow> ('o operation_pair \<times> 'p param_heap) res" where
  "pair_copy rhs h =
     rbind (clone_or_null (op_parameters rhs) h) (\<lambda>(x, h'). Inr (\<lparr>op_operation = op_operation rhs, op_parameters = x\<rparr>, h'))"

definition pair_default :: "'o operation_pair" where
  "pair_default = \<lparr>op_operation = None, op_parameters = None\<rparr>"

definition pair_delete :: "'o operation_pair \<Rightarrow> 'p param_heap \<Rightarrow> 'p param_heap res" where
  "pair_delete s h = delete_if (op_parameters s) h"

definition pair_GetOperation :: "'o operation_pair \<Rightarrow> 'o res" where
  "pair_GetOperation s = (case op_operation s of None \<Rightarrow> Inl NullDeref | Some x \<Rightarrow> Inr x)"

definition pair_GetParameters :: "'o operation_pair \<Rightarrow> nat res" where
  "pair_GetParameters s = (case op_parameters s of None \<Rightarrow> Inl NullDeref | Some x \<Rightarrow> Inr x)"

definition pair_SetParameters ::
  "nat option \<Rightarrow> 'o operation_pair \<Rightarrow> 'p param_heap \<Rightarrow> ('o operation_pair \<times> 'p param_heap) res" where
  "pair_SetParameters parameters s h =
     rbind (delete_if (op_parameters s) h) (\<lambda>h1.
     rbind (clone_or_null parameters h1) (\<lambda>(x, h2). Inr (s\<lparr>op_parameters := x\<rparr>, h2)))"

definition pair_SetOperation ::
  "'o option \<Rightarrow> nat option \<Rightarrow> 'o operation_pair \<Rightarrow> 'p param_heap \<Rightarrow> ('o operation_pair \<times> 'p param_heap) res" where
  "pair_SetOperation operation parameters s h = pair_SetParameters parameters (s\<lparr>op_operation := operation\<rparr>) h"

definition pair_HasOperation :: "'o operation_pair \<Rightarrow> bool" where
  "pair_HasOperation s \<longleftrightarrow> op_operation s \<noteq> None"

definition pair_HasParameters :: "'o operation_pair \<Rightarrow> bool" where
  "pair_HasParameters s \<longleftrightarrow> op_parameters s \<noteq> None"

text \<open>The class declares no assignment: the one of the compiler copies both pointers.\<close>

definition pair_assign :: "'o operation_pair \<Rightarrow> 'o operation_pair \<Rightarrow> 'o operation_pair" where
  "pair_assign s rhs = rhs"

section \<open>Ownership\<close>

definition heap_ok :: "'p param_heap \<Rightarrow> bool" where
  "heap_ok h \<longleftrightarrow> (\<forall>a \<ge> pm_next h. pm_objects h a = None)"

text \<open>A pair owns live parameters, which are not those of the caller.\<close>

definition pair_owns :: "'o operation_pair \<Rightarrow> 'p param_heap \<Rightarrow> bool" where
  "pair_owns s h \<longleftrightarrow> (\<forall>a. op_parameters s = Some a \<longrightarrow> pm_objects h a \<noteq> None)"

lemma param_cloned:
  assumes "heap_ok h" and "pm_objects h a = Some x"
  shows "\<exists>h'. param_clone a h = Inr (pm_next h, h') \<and> heap_ok h' \<and> pm_objects h' = (pm_objects h)(pm_next h \<mapsto> x)
    \<and> pm_objects h (pm_next h) = None"
  using assms by (auto simp: param_clone_def heap_ok_def)

lemma delete_if_ok:
  assumes "heap_ok h" and "pair_owns s h"
  shows "\<exists>h'. delete_if (op_parameters s) h = Inr h' \<and> heap_ok h' \<and> pm_next h' = pm_next h
    \<and> pm_objects h' = (\<lambda>a. if op_parameters s = Some a then None else pm_objects h a)"
  using assms by (auto simp: delete_if_def param_delete_def pair_owns_def heap_ok_def split: option.splits)

section \<open>Properties\<close>

text \<open>
  Setting parameters of which the pair is not the owner leaves the pair with a copy of their
  value in an object of its own, frees the parameters it had and touches no other object.
\<close>

theorem set_parameters_clones:
  assumes "heap_ok h" and "pair_owns s h" and "pm_objects h a = Some x" and "op_parameters s \<noteq> Some a"
  shows "\<exists>b s' h'. pair_SetParameters (Some a) s h = Inr (s', h') \<and> op_parameters s' = Some b \<and> pm_objects h b = None
    \<and> op_operation s' = op_operation s \<and> heap_ok h'
    \<and> pm_objects h' = (\<lambda>c. if c = b then Some x else if op_parameters s = Some c then None else pm_objects h c)"
proof -
  obtain h1 where h1: "delete_if (op_parameters s) h = Inr h1" "heap_ok h1" "pm_next h1 = pm_next h"
      "pm_objects h1 = (\<lambda>a. if op_parameters s = Some a then None else pm_objects h a)"
    using delete_if_ok [OF assms(1,2)] by blast
  have "pm_objects h1 a = Some x" using h1(4) assms(3,4) by simp
  then obtain h2 where h2: "param_clone a h1 = Inr (pm_next h, h2)" "heap_ok h2"
      "pm_objects h2 = (pm_objects h1)(pm_next h \<mapsto> x)"
    using param_cloned [OF h1(2)] h1(3) by auto
  have "pm_objects h (pm_next h) = None" using assms(1) by (simp add: heap_ok_def)
  with h1 h2 show ?thesis
    by (intro exI [of _ "pm_next h"] exI [of _ "s\<lparr>op_parameters := Some (pm_next h)\<rparr>"] exI [of _ h2])
      (auto simp: pair_SetParameters_def clone_or_null_def)
qed

definition two_params :: "int param_heap" where
  "two_params = \<lparr>pm_objects = [0 \<mapsto> 10, 1 \<mapsto> 20], pm_next = 2\<rparr>"

theorem set_parameters_clones_witness:
  "\<exists>b s' h'. pair_SetParameters (Some 1) \<lparr>op_operation = Some (), op_parameters = Some 0\<rparr> two_params = Inr (s', h')
    \<and> op_parameters s' = Some b \<and> pm_objects h' b = Some 20 \<and> pm_objects h' 0 = None"
proof -
  let ?s = "\<lparr>op_operation = Some (), op_parameters = Some (0 :: nat)\<rparr>"
  have "heap_ok two_params" "pair_owns ?s two_params" "pm_objects two_params 1 = Some 20" "op_parameters ?s \<noteq> Some 1"
    by (simp_all add: heap_ok_def pair_owns_def two_params_def)
  from set_parameters_clones [OF this] obtain b s' h' where r: "pair_SetParameters (Some 1) ?s two_params = Inr (s', h')"
      "op_parameters s' = Some b" "pm_objects two_params b = None"
      "pm_objects h' = (\<lambda>c. if c = b then Some 20 else if op_parameters ?s = Some c then None else pm_objects two_params c)" by blast
  have "pm_objects two_params 0 \<noteq> None" by (simp add: two_params_def)
  with r(3) have "b \<noteq> 0" by metis
  with r show ?thesis by (intro exI [of _ b] exI [of _ s'] exI [of _ h']) simp
qed

text \<open>
  A pair deletes its parameters before it clones the new ones: handing a pair its own
  parameters, \<open>pair.SetParameters( pair.GetParameters() )\<close>, clones an object that is already freed.
\<close>

theorem set_own_parameters_dangles:
  assumes "pair_GetParameters s = Inr a"
  shows "pair_SetParameters (Some a) s h = Inl Dangling"
  using assms
  by (auto simp: pair_SetParameters_def pair_GetParameters_def delete_if_def param_delete_def clone_or_null_def param_clone_def
      split: option.splits)

theorem set_own_parameters_dangles_witness:
  "pair_SetParameters (Some 0) \<lparr>op_operation = Some (), op_parameters = Some 0\<rparr> two_params = Inl Dangling"
  by (rule set_own_parameters_dangles) (simp add: pair_GetParameters_def)

end
