(* ===== verification/Parameters.thy ===== *)
theory Parameters
  imports Chromosomes
begin

text \<open>
  The parameter classes of the genetic operations and stop criteria (\<open>PopulationOperations.h\<close>,
  \<open>SelectionOperations.h\<close>, \<open>CouplingOperations.h\<close>, \<open>ReplacementOperations.h\<close>,
  \<open>ScalingOperations.h\<close>, \<open>CrossoverOperations.h\<close>, \<open>MutationOperations.h\<close>, \<open>StopCriterias.h\<close>,
  \<open>MultithreadingAlgorithm.h\<close>, \<open>SimpleAlgorithm.h\<close>, \<open>BinaryChromosome.h\<close> in \<open>TSP/inc\<close>), and what
  every operation says about its parameters: those it makes and those it accepts. A derived
  class is an extended record; a cast to a class an object does not have is \<open>BadCast\<close>. The
  operations themselves are compiled.
\<close>

section \<open>Selection\<close>

record selection_params =
  sp_selectionSize :: int

definition SetSelectionSize :: "int \<Rightarrow> 'm selection_params_scheme \<Rightarrow> 'm selection_params_scheme" where
  "SetSelectionSize n p = p\<lparr>sp_selectionSize := if n < 0 then 0 else n\<rparr>"

definition SelectionParams_default :: selection_params where
  "SelectionParams_default = \<lparr>sp_selectionSize = 0\<rparr>"

definition SelectionParams_new :: "int \<Rightarrow> selection_params" where
  "SelectionParams_new selectionSize = SetSelectionSize selectionSize SelectionParams_default"

record duplicates_params = selection_params +
  sd_duplicates :: bool

definition DuplicatesParams_new :: "bool \<Rightarrow> int \<Rightarrow> duplicates_params" where
  "DuplicatesParams_new duplicates selectionSize =
     selection_params.extend (SelectionParams_new selectionSize) \<lparr>sd_duplicates = duplicates\<rparr>"

definition DuplicatesParams_default :: duplicates_params where
  "DuplicatesParams_default = selection_params.extend SelectionParams_default \<lparr>sd_duplicates = False\<rparr>"

definition SetDuplicates :: "bool \<Rightarrow> 'm duplicates_params_scheme \<Rightarrow> 'm duplicates_params_scheme" where
  "SetDuplicates duplicates p = p\<lparr>sd_duplicates := duplicates\<rparr>"

record random_best_params = duplicates_params +
  rb_groupSize :: int

definition RandomBestParams_new :: "int \<Rightarrow> bool \<Rightarrow> int \<Rightarrow> random_best_params" where
  "RandomBestParams_new selectionSize duplicates groupSize =
     duplicates_params.extend (DuplicatesParams_new duplicates selectionSize) \<lparr>rb_groupSize = groupSize\<rparr>"

definition RandomBestParams_default :: random_best_params where
  "RandomBestParams_default = duplicates_params.extend DuplicatesParams_default \<lparr>rb_groupSize = 4\<rparr>"

definition SetGroupSize :: "int \<Rightarrow> 'm random_best_params_scheme \<Rightarrow> 'm random_best_params_scheme" where
  "SetGroupSize n p = p\<lparr>rb_groupSize := n\<rparr>"

record tournament_params = duplicates_params +
  to_numberOfSelections :: int

definition TournamentParams_new :: "int \<Rightarrow> bool \<Rightarrow> int \<Rightarrow> tournament_params" where
  "TournamentParams_new selectionSize duplicates numberOfSelections =
     duplicates_params.extend (DuplicatesParams_new duplicates selectionSize) \<lparr>to_numberOfSelections = numberOfSelections\<rparr>"

definition TournamentParams_default :: tournament_params where
  "TournamentParams_default = duplicates_params.extend DuplicatesParams_default \<lparr>to_numberOfSelections = 1\<rparr>"

definition SetNumberOfSelections :: "int \<Rightarrow> 'm tournament_params_scheme \<Rightarrow> 'm tournament_params_scheme" where
  "SetNumberOfSelections n p = p\<lparr>to_numberOfSelections := n\<rparr>"

section \<open>Coupling and replacement\<close>

record coupling_params =
  cp_numberOfOffsprings :: int
  cp_checkForDuplicates :: bool

definition SetNumberOfOffsprings :: "int \<Rightarrow> 'm coupling_params_scheme \<Rightarrow> 'm coupling_params_scheme" where
  "SetNumberOfOffsprings n p = p\<lparr>cp_numberOfOffsprings := if n < 0 then 0 else n\<rparr>"

definition SetCheckForDuplicates :: "bool \<Rightarrow> 'm coupling_params_scheme \<Rightarrow> 'm coupling_params_scheme" where
  "SetCheckForDuplicates check p = p\<lparr>cp_checkForDuplicates := check\<rparr>"

definition CouplingParams_default :: coupling_params where
  "CouplingParams_default = \<lparr>cp_numberOfOffsprings = 2, cp_checkForDuplicates = False\<rparr>"

definition CouplingParams_new :: "int \<Rightarrow> bool \<Rightarrow> coupling_params" where
  "CouplingParams_new numberOfOffsprings checkForDuplicates =
     SetNumberOfOffsprings numberOfOffsprings \<lparr>cp_numberOfOffsprings = 0, cp_checkForDuplicates = checkForDuplicates\<rparr>"

record multiple_coupling_params = coupling_params +
  mc_offspringsPerParentPair :: int

definition MultipleCouplingParams_new :: "int \<Rightarrow> bool \<Rightarrow> int \<Rightarrow> multiple_coupling_params" where
  "MultipleCouplingParams_new numberOfOffsprings checkForDuplicates n =
     coupling_params.extend (CouplingParams_new numberOfOffsprings checkForDuplicates) \<lparr>mc_offspringsPerParentPair = n\<rparr>"

definition MultipleCouplingParams_default :: multiple_coupling_params where
  "MultipleCouplingParams_default = coupling_params.extend CouplingParams_default \<lparr>mc_offspringsPerParentPair = 1\<rparr>"

definition SetOffspringsPerParentPair :: "int \<Rightarrow> 'm multiple_coupling_params_scheme \<Rightarrow> 'm multiple_coupling_params_scheme" where
  "SetOffspringsPerParentPair n p = p\<lparr>mc_offspringsPerParentPair := n\<rparr>"

record replacement_params =
  rp_replacementSize :: int

definition SetReplacementSize :: "int \<Rightarrow> 'm replacement_params_scheme \<Rightarrow> 'm replacement_params_scheme" where
  "SetReplacementSize n p = p\<lparr>rp_replacementSize := if n < 0 then 0 else n\<rparr>"

definition ReplacementParams_default :: replacement_params where
  "ReplacementParams_default = \<lparr>rp_replacementSize = 0\<rparr>"

definition ReplacementParams_new :: "int \<Rightarrow> replacement_params" where
  "ReplacementParams_new replacementSize = SetReplacementSize replacementSize ReplacementParams_default"

record elitism_params = replacement_params +
  el_elitism :: int

definition ElitismParams_new :: "int \<Rightarrow> int \<Rightarrow> elitism_params" where
  "ElitismParams_new replacementSize elitism =
     replacement_params.extend (ReplacementParams_new replacementSize) \<lparr>el_elitism = elitism\<rparr>"

definition ElitismParams_default :: elitism_params where
  "ElitismParams_default = replacement_params.extend ReplacementParams_default \<lparr>el_elitism = 0\<rparr>"

definition SetElitism :: "int \<Rightarrow> 'm elitism_params_scheme \<Rightarrow> 'm elitism_params_scheme" where
  "SetElitism elitism p = p\<lparr>el_elitism := elitism\<rparr>"

section \<open>Scaling, stop criteria, algorithms and binary chromosomes\<close>

record scale_params =
  sf_factor :: cnum

definition ScaleFactorParams_new :: "cnum \<Rightarrow> scale_params" where
  "ScaleFactorParams_new factor = \<lparr>sf_factor = factor\<rparr>"

definition ScaleFactorParams_default :: scale_params where
  "ScaleFactorParams_default = \<lparr>sf_factor = Num 1\<rparr>"

definition SetFactor :: "cnum \<Rightarrow> scale_params \<Rightarrow> scale_params" where
  "SetFactor factor p = p\<lparr>sf_factor := factor\<rparr>"

datatype GaStatValueType =
    GSV_BEST_FITNESS | GSV_BEST_FITNESS_SCALED | GSV_AVG_FITNESS | GSV_AVG_FITNESS_SCALED | GSV_WORST_FITNESS
  | GSV_WORST_FITNESS_SCALED | GSV_TOTAL_FITNESS | GSV_TOTAL_FITNESS_SCALED | GSV_POPULATION_SIZE

datatype GaFitnessCriteriaComparison =
  GFC_LESS_THEN | GFC_MORE_THEN | GFC_EQUALS_TO | GFC_LESS_THEN_EQUALS_TO | GFC_MORE_THEN_EQUALS_TO

record generation_params =
  gp_numberOfGenerations :: int

definition GenerationParams_new :: "int \<Rightarrow> generation_params" where
  "GenerationParams_new numberOfGeneration = \<lparr>gp_numberOfGenerations = numberOfGeneration\<rparr>"

definition GenerationParams_default :: generation_params where
  "GenerationParams_default = \<lparr>gp_numberOfGenerations = 1000\<rparr>"

definition SetNumberOfGeneration :: "int \<Rightarrow> generation_params \<Rightarrow> generation_params" where
  "SetNumberOfGeneration number p = p\<lparr>gp_numberOfGenerations := number\<rparr>"

record fitness_params =
  fp_fitnessLimit :: cnum
  fp_comparison :: GaFitnessCriteriaComparison
  fp_valueType :: GaStatValueType

definition FitnessParams_new :: "cnum \<Rightarrow> GaFitnessCriteriaComparison \<Rightarrow> GaStatValueType \<Rightarrow> fitness_params" where
  "FitnessParams_new fitnessLimit comparison valueType =
     \<lparr>fp_fitnessLimit = fitnessLimit, fp_comparison = comparison, fp_valueType = valueType\<rparr>"

definition FitnessParams_default :: fitness_params where
  "FitnessParams_default = \<lparr>fp_fitnessLimit = Num 1, fp_comparison = GFC_EQUALS_TO, fp_valueType = GSV_BEST_FITNESS_SCALED\<rparr>"

definition SetFitnessLimit :: "cnum \<Rightarrow> fitness_params \<Rightarrow> fitness_params" where
  "SetFitnessLimit limit p = p\<lparr>fp_fitnessLimit := limit\<rparr>"

definition FitnessParams_SetComparison :: "GaFitnessCriteriaComparison \<Rightarrow> fitness_params \<Rightarrow> fitness_params" where
  "FitnessParams_SetComparison comparison p = p\<lparr>fp_comparison := comparison\<rparr>"

definition FitnessParams_SetValueType :: "GaStatValueType \<Rightarrow> fitness_params \<Rightarrow> fitness_params" where
  "FitnessParams_SetValueType type p = p\<lparr>fp_valueType := type\<rparr>"

record progress_params =
  pp_requiredProgress :: cnum
  pp_absolute :: bool
  pp_comparison :: GaFitnessCriteriaComparison
  pp_valueType :: GaStatValueType
  pp_historyDepth :: int
  pp_current :: int

definition ProgressParams_new ::
  "cnum \<Rightarrow> bool \<Rightarrow> GaFitnessCriteriaComparison \<Rightarrow> GaStatValueType \<Rightarrow> int \<Rightarrow> progress_params" where
  "ProgressParams_new progress absolute comparison valueType historyDepth =
     \<lparr>pp_requiredProgress = progress, pp_absolute = absolute, pp_comparison = comparison, pp_valueType = valueType,
      pp_historyDepth = historyDepth, pp_current = 0\<rparr>"

definition ProgressParams_default :: progress_params where
  "ProgressParams_default =
     \<lparr>pp_requiredProgress = Num 0, pp_absolute = True, pp_comparison = GFC_EQUALS_TO, pp_valueType = GSV_BEST_FITNESS_SCALED,
      pp_historyDepth = 10, pp_current = 0\<rparr>"

definition SetRequiredProgress :: "cnum \<Rightarrow> progress_params \<Rightarrow> progress_params" where
  "SetRequiredProgress progress p = p\<lparr>pp_requiredProgress := progress\<rparr>"

definition SetHistoryDepth :: "int \<Rightarrow> progress_params \<Rightarrow> progress_params" where
  "SetHistoryDepth depth p = p\<lparr>pp_historyDepth := depth\<rparr>"

definition SetAbsolute :: "bool \<Rightarrow> progress_params \<Rightarrow> progress_params" where
  "SetAbsolute absolute p = p\<lparr>pp_absolute := absolute\<rparr>"

definition ProgressParams_SetComparison :: "GaFitnessCriteriaComparison \<Rightarrow> progress_params \<Rightarrow> progress_params" where
  "ProgressParams_SetComparison comparison p = p\<lparr>pp_comparison := comparison\<rparr>"

definition ProgressParams_SetValueType :: "GaStatValueType \<Rightarrow> progress_params \<Rightarrow> progress_params" where
  "ProgressParams_SetValueType type p = p\<lparr>pp_valueType := type\<rparr>"

text \<open>\<open>_current\<close>, the generations without progress, is \<open>mutable\<close>: the criterion writes it on a constant object.\<close>

definition ProgressParams_SetCurrent :: "int \<Rightarrow> progress_params \<Rightarrow> progress_params" where
  "ProgressParams_SetCurrent current p = p\<lparr>pp_current := current\<rparr>"

record workers_params =
  wp_numberOfWorkers :: int

definition WorkersParams_new :: "int \<Rightarrow> workers_params" where
  "WorkersParams_new numberOfWorkers = \<lparr>wp_numberOfWorkers = numberOfWorkers\<rparr>"

definition WorkersParams_default :: workers_params where
  "WorkersParams_default = \<lparr>wp_numberOfWorkers = 1\<rparr>"

definition SetNumberOfWorkers :: "int \<Rightarrow> 'm workers_params_scheme \<Rightarrow> 'm workers_params_scheme" where
  "SetNumberOfWorkers workers p = p\<lparr>wp_numberOfWorkers := workers\<rparr>"

record simple_params = workers_params +
  sa_elitism :: int

definition SimpleParams_new :: "int \<Rightarrow> int \<Rightarrow> simple_params" where
  "SimpleParams_new elitism numberOfWorkers = workers_params.extend (WorkersParams_new numberOfWorkers) \<lparr>sa_elitism = elitism\<rparr>"

definition SimpleParams_default :: simple_params where
  "SimpleParams_default = workers_params.extend WorkersParams_default \<lparr>sa_elitism = 0\<rparr>"

definition SimpleParams_SetElitism :: "int \<Rightarrow> simple_params \<Rightarrow> simple_params" where
  "SimpleParams_SetElitism elitism p = p\<lparr>sa_elitism := elitism\<rparr>"

record binary_params = GaChromosomeParams +
  bp_probabilityOfSetState :: cnum

definition BinaryParams_new :: "cnum \<Rightarrow> cnum \<Rightarrow> int \<Rightarrow> bool \<Rightarrow> cnum \<Rightarrow> int \<Rightarrow> binary_params" where
  "BinaryParams_new p mp ms improving cp points =
     GaChromosomeParams.extend \<lparr>mutationProbability = mp, mutationSize = ms, improvingOnlyMutations = improving,
       crossoverProbability = cp, numberOfCrossoverPoints = points\<rparr> \<lparr>bp_probabilityOfSetState = p\<rparr>"

definition BinaryParams_default :: binary_params where
  "BinaryParams_default = GaChromosomeParams.extend GaChromosomeParams_default \<lparr>bp_probabilityOfSetState = round32 (1 / 2)\<rparr>"

definition SetProbabilityOfSetState :: "cnum \<Rightarrow> binary_params \<Rightarrow> binary_params" where
  "SetProbabilityOfSetState probability p = p\<lparr>bp_probabilityOfSetState := probability\<rparr>"

section \<open>Parameter objects\<close>

text \<open>An object with its dynamic class.\<close>

datatype ga_params =
    PChromosome GaChromosomeParams | PBinary binary_params
  | PSelection selection_params | PDuplicates duplicates_params | PRandomBest random_best_params | PTournament tournament_params
  | PCoupling coupling_params | PMultipleCoupling multiple_coupling_params
  | PReplacement replacement_params | PElitism elitism_params | PScale scale_params
  | PGeneration generation_params | PFitness fitness_params | PProgress progress_params
  | PWorkers workers_params | PSimple simple_params

text \<open>\<open>Clone\<close> is virtual; \<open>GaBinaryChromosomeParams\<close> inherits the one of \<open>GaChromosomeParams\<close>.\<close>

fun params_Clone :: "ga_params \<Rightarrow> ga_params" where
  "params_Clone (PBinary p) = PChromosome (GaChromosomeParams.truncate p)"
| "params_Clone x = x"

text \<open>Casts of \<open>const GaParameters&\<close> to a class: its own objects and those of derived classes.\<close>

fun as_chromosome :: "ga_params \<Rightarrow> GaChromosomeParams res" where
  "as_chromosome (PChromosome p) = Inr p"
| "as_chromosome (PBinary p) = Inr (GaChromosomeParams.truncate p)"
| "as_chromosome x = Inl BadCast"

fun as_selection :: "ga_params \<Rightarrow> selection_params res" where
  "as_selection (PSelection p) = Inr p"
| "as_selection (PDuplicates p) = Inr (selection_params.truncate p)"
| "as_selection (PRandomBest p) = Inr (selection_params.truncate p)"
| "as_selection (PTournament p) = Inr (selection_params.truncate p)"
| "as_selection x = Inl BadCast"

fun as_random_best :: "ga_params \<Rightarrow> random_best_params res" where
  "as_random_best (PRandomBest p) = Inr p"
| "as_random_best x = Inl BadCast"

fun as_tournament :: "ga_params \<Rightarrow> tournament_params res" where
  "as_tournament (PTournament p) = Inr p"
| "as_tournament x = Inl BadCast"

fun as_coupling :: "ga_params \<Rightarrow> coupling_params res" where
  "as_coupling (PCoupling p) = Inr p"
| "as_coupling (PMultipleCoupling p) = Inr (coupling_params.truncate p)"
| "as_coupling x = Inl BadCast"

fun as_multiple_coupling :: "ga_params \<Rightarrow> multiple_coupling_params res" where
  "as_multiple_coupling (PMultipleCoupling p) = Inr p"
| "as_multiple_coupling x = Inl BadCast"

fun as_replacement :: "ga_params \<Rightarrow> replacement_params res" where
  "as_replacement (PReplacement p) = Inr p"
| "as_replacement (PElitism p) = Inr (replacement_params.truncate p)"
| "as_replacement x = Inl BadCast"

fun as_scale :: "ga_params \<Rightarrow> scale_params res" where
  "as_scale (PScale p) = Inr p"
| "as_scale x = Inl BadCast"

fun as_generation :: "ga_params \<Rightarrow> generation_params res" where
  "as_generation (PGeneration p) = Inr p"
| "as_generation x = Inl BadCast"

fun as_progress :: "ga_params \<Rightarrow> progress_params res" where
  "as_progress (PProgress p) = Inr p"
| "as_progress x = Inl BadCast"

end
