(* ===== verification/Operations.thy ===== *)
theory Operations
  imports Parameters OperationPair
begin

text \<open>
  What the genetic operations and stop criteria of \<open>TSP/inc\<close> define in their headers: the
  parameters they make and the check of parameters handed to them. The bodies of the operations
  are compiled.
\<close>

section \<open>The operations\<close>

record ga_operation =
  make_parameters :: "ga_params option"
  check_parameters :: "ga_params \<Rightarrow> bool res"

definition check_with :: "(ga_params \<Rightarrow> 'p res) \<Rightarrow> ('p \<Rightarrow> bool) \<Rightarrow> ga_params \<Rightarrow> bool res" where
  "check_with cast ok x = rbind (cast x) (\<lambda>p. Inr (ok p))"

definition check_none :: "ga_params \<Rightarrow> bool res" where
  "check_none x = Inr True"

text \<open>Selections.\<close>

definition GaSelectBest :: ga_operation where
  "GaSelectBest = \<lparr>make_parameters = Some (PSelection SelectionParams_default),
     check_parameters = check_with as_selection (\<lambda>p. 0 < sp_selectionSize p)\<rparr>"

definition GaSelectRandom :: ga_operation where
  "GaSelectRandom = \<lparr>make_parameters = Some (PDuplicates DuplicatesParams_default),
     check_parameters = check_with as_selection (\<lambda>p. 0 < sp_selectionSize p)\<rparr>"

definition GaSelectRandomBest :: ga_operation where
  "GaSelectRandomBest = \<lparr>make_parameters = Some (PRandomBest RandomBestParams_default),
     check_parameters = check_with as_random_best (\<lambda>p. 0 < sp_selectionSize p \<and> sp_selectionSize p \<le> rb_groupSize p)\<rparr>"

definition GaSelectRouletteWheel :: ga_operation where
  "GaSelectRouletteWheel = \<lparr>make_parameters = Some (PDuplicates DuplicatesParams_default),
     check_parameters = check_with as_selection (\<lambda>p. 0 < sp_selectionSize p)\<rparr>"

definition GaSelectTournament :: ga_operation where
  "GaSelectTournament = \<lparr>make_parameters = Some (PTournament TournamentParams_default),
     check_parameters = check_with as_tournament (\<lambda>p. 0 < sp_selectionSize p \<and> 0 < to_numberOfSelections p)\<rparr>"

definition GaSelectWorst :: ga_operation where
  "GaSelectWorst = \<lparr>make_parameters = Some (PSelection SelectionParams_default),
     check_parameters = check_with as_selection (\<lambda>p. 0 < sp_selectionSize p)\<rparr>"

text \<open>Couplings.\<close>

definition GaSimpleCoupling :: ga_operation where
  "GaSimpleCoupling = \<lparr>make_parameters = Some (PCoupling CouplingParams_default),
     check_parameters = check_with as_coupling (\<lambda>p. 0 < cp_numberOfOffsprings p)\<rparr>"

definition GaCrossCoupling :: ga_operation where
  "GaCrossCoupling = \<lparr>make_parameters = Some (PMultipleCoupling MultipleCouplingParams_default),
     check_parameters = check_with as_multiple_coupling (\<lambda>p. 0 < cp_numberOfOffsprings p \<and> 0 < mc_offspringsPerParentPair p)\<rparr>"

definition GaInverseCoupling :: ga_operation where
  "GaInverseCoupling = \<lparr>make_parameters = Some (PMultipleCoupling MultipleCouplingParams_default),
     check_parameters = check_with as_multiple_coupling (\<lambda>p. 0 < cp_numberOfOffsprings p \<and> 0 < mc_offspringsPerParentPair p)\<rparr>"

definition GaRandomCoupling :: ga_operation where
  "GaRandomCoupling = \<lparr>make_parameters = Some (PMultipleCoupling MultipleCouplingParams_default),
     check_parameters = check_with as_multiple_coupling (\<lambda>p. 0 < cp_numberOfOffsprings p \<and> 0 < mc_offspringsPerParentPair p)\<rparr>"

definition GaBestAlwaysCoupling :: ga_operation where
  "GaBestAlwaysCoupling = \<lparr>make_parameters = Some (PMultipleCoupling MultipleCouplingParams_default),
     check_parameters = check_with as_multiple_coupling (\<lambda>p. 0 < cp_numberOfOffsprings p \<and> 0 < mc_offspringsPerParentPair p)\<rparr>"

text \<open>Replacements.\<close>

definition GaReplaceWorst :: ga_operation where
  "GaReplaceWorst = \<lparr>make_parameters = Some (PReplacement ReplacementParams_default),
     check_parameters = check_with as_replacement (\<lambda>p. 0 < rp_replacementSize p)\<rparr>"

definition GaReplaceRandom :: ga_operation where
  "GaReplaceRandom = \<lparr>make_parameters = Some (PElitism ElitismParams_default),
     check_parameters = check_with as_replacement (\<lambda>p. 0 < rp_replacementSize p)\<rparr>"

definition GaReplaceParents :: ga_operation where
  "GaReplaceParents = \<lparr>make_parameters = Some (PElitism ElitismParams_default),
     check_parameters = check_with as_replacement (\<lambda>p. 0 < rp_replacementSize p)\<rparr>"

definition GaReplaceBest :: ga_operation where
  "GaReplaceBest = \<lparr>make_parameters = Some (PReplacement ReplacementParams_default),
     check_parameters = check_with as_replacement (\<lambda>p. 0 < rp_replacementSize p)\<rparr>"

text \<open>Scalings.\<close>

definition GaWindowScaling :: ga_operation where
  "GaWindowScaling = \<lparr>make_parameters = None,
     check_parameters = check_none\<rparr>"

definition GaExponentialScaling :: ga_operation where
  "GaExponentialScaling = \<lparr>make_parameters = Some (PScale ScaleFactorParams_default),
     check_parameters = check_none\<rparr>"

definition GaLinearScaling :: ga_operation where
  "GaLinearScaling = \<lparr>make_parameters = Some (PScale ScaleFactorParams_default),
     check_parameters = check_with as_scale (\<lambda>p. flt (Num 0) (sf_factor p) \<and> fle (sf_factor p) (Num 1))\<rparr>"

definition GaNormalizationScaling :: ga_operation where
  "GaNormalizationScaling = \<lparr>make_parameters = None,
     check_parameters = check_none\<rparr>"

text \<open>Crossovers.\<close>

definition GaMultiValueCrossover :: ga_operation where
  "GaMultiValueCrossover = \<lparr>make_parameters = Some (PChromosome GaChromosomeParams_default),
     check_parameters = check_none\<rparr>"

definition GaAddCrossover :: ga_operation where
  "GaAddCrossover = \<lparr>make_parameters = Some (PChromosome GaChromosomeParams_default),
     check_parameters = check_with as_chromosome (\<lambda>p. 0 < numberOfCrossoverPoints p)\<rparr>"

definition GaSubCrossover :: ga_operation where
  "GaSubCrossover = \<lparr>make_parameters = Some (PChromosome GaChromosomeParams_default),
     check_parameters = check_none\<rparr>"

definition GaMidpointCrossover :: ga_operation where
  "GaMidpointCrossover = \<lparr>make_parameters = Some (PChromosome GaChromosomeParams_default),
     check_parameters = check_none\<rparr>"

text \<open>Mutations.\<close>

definition GaFlipMutation :: ga_operation where
  "GaFlipMutation = \<lparr>make_parameters = Some (PChromosome GaChromosomeParams_default),
     check_parameters = check_with as_chromosome (\<lambda>p. 0 < mutationSize p)\<rparr>"

definition GaInvertMutation :: ga_operation where
  "GaInvertMutation = \<lparr>make_parameters = Some (PChromosome GaChromosomeParams_default),
     check_parameters = check_with as_chromosome (\<lambda>p. 0 < mutationSize p)\<rparr>"

definition GaSwapMutation :: ga_operation where
  "GaSwapMutation = \<lparr>make_parameters = Some (PChromosome GaChromosomeParams_default),
     check_parameters = check_with as_chromosome (\<lambda>p. 0 < mutationSize p)\<rparr>"

text \<open>Stop criteria.\<close>

definition fabs :: "cnum \<Rightarrow> cnum" where
  "fabs x = (if flt x (Num 0) then fneg x else x)"

definition GaGenerationCriteria :: ga_operation where
  "GaGenerationCriteria = \<lparr>make_parameters = Some (PGeneration GenerationParams_default),
     check_parameters = check_with as_generation (\<lambda>p. 0 < gp_numberOfGenerations p)\<rparr>"

definition GaFitnessCriteria :: ga_operation where
  "GaFitnessCriteria = \<lparr>make_parameters = Some (PFitness FitnessParams_default),
     check_parameters = check_none\<rparr>"

definition GaFitnessProgressCriteria :: ga_operation where
  "GaFitnessProgressCriteria = \<lparr>make_parameters = Some (PProgress ProgressParams_default),
     check_parameters = check_with as_progress (\<lambda>p. 0 < pp_historyDepth p \<and> flt (Num 0) (fabs (pp_requiredProgress p)))\<rparr>"

datatype operation_class =
    Class_GaSelectBest | Class_GaSelectRandom | Class_GaSelectRandomBest | Class_GaSelectRouletteWheel
  | Class_GaSelectTournament | Class_GaSelectWorst | Class_GaSimpleCoupling | Class_GaCrossCoupling
  | Class_GaInverseCoupling | Class_GaRandomCoupling | Class_GaBestAlwaysCoupling | Class_GaReplaceWorst
  | Class_GaReplaceRandom | Class_GaReplaceParents | Class_GaReplaceBest | Class_GaWindowScaling
  | Class_GaExponentialScaling | Class_GaLinearScaling | Class_GaNormalizationScaling | Class_GaMultiValueCrossover
  | Class_GaAddCrossover | Class_GaSubCrossover | Class_GaMidpointCrossover | Class_GaFlipMutation
  | Class_GaInvertMutation | Class_GaSwapMutation | Class_GaGenerationCriteria | Class_GaFitnessCriteria
  | Class_GaFitnessProgressCriteria

fun operation_of :: "operation_class \<Rightarrow> ga_operation" where
  "operation_of Class_GaSelectBest = GaSelectBest"
| "operation_of Class_GaSelectRandom = GaSelectRandom"
| "operation_of Class_GaSelectRandomBest = GaSelectRandomBest"
| "operation_of Class_GaSelectRouletteWheel = GaSelectRouletteWheel"
| "operation_of Class_GaSelectTournament = GaSelectTournament"
| "operation_of Class_GaSelectWorst = GaSelectWorst"
| "operation_of Class_GaSimpleCoupling = GaSimpleCoupling"
| "operation_of Class_GaCrossCoupling = GaCrossCoupling"
| "operation_of Class_GaInverseCoupling = GaInverseCoupling"
| "operation_of Class_GaRandomCoupling = GaRandomCoupling"
| "operation_of Class_GaBestAlwaysCoupling = GaBestAlwaysCoupling"
| "operation_of Class_GaReplaceWorst = GaReplaceWorst"
| "operation_of Class_GaReplaceRandom = GaReplaceRandom"
| "operation_of Class_GaReplaceParents = GaReplaceParents"
| "operation_of Class_GaReplaceBest = GaReplaceBest"
| "operation_of Class_GaWindowScaling = GaWindowScaling"
| "operation_of Class_GaExponentialScaling = GaExponentialScaling"
| "operation_of Class_GaLinearScaling = GaLinearScaling"
| "operation_of Class_GaNormalizationScaling = GaNormalizationScaling"
| "operation_of Class_GaMultiValueCrossover = GaMultiValueCrossover"
| "operation_of Class_GaAddCrossover = GaAddCrossover"
| "operation_of Class_GaSubCrossover = GaSubCrossover"
| "operation_of Class_GaMidpointCrossover = GaMidpointCrossover"
| "operation_of Class_GaFlipMutation = GaFlipMutation"
| "operation_of Class_GaInvertMutation = GaInvertMutation"
| "operation_of Class_GaSwapMutation = GaSwapMutation"
| "operation_of Class_GaGenerationCriteria = GaGenerationCriteria"
| "operation_of Class_GaFitnessCriteria = GaFitnessCriteria"
| "operation_of Class_GaFitnessProgressCriteria = GaFitnessProgressCriteria"

lemmas operation_defs = GaSelectBest_def GaSelectRandom_def GaSelectRandomBest_def GaSelectRouletteWheel_def
  GaSelectTournament_def GaSelectWorst_def GaSimpleCoupling_def GaCrossCoupling_def
  GaInverseCoupling_def GaRandomCoupling_def GaBestAlwaysCoupling_def GaReplaceWorst_def
  GaReplaceRandom_def GaReplaceParents_def GaReplaceBest_def GaWindowScaling_def
  GaExponentialScaling_def GaLinearScaling_def GaNormalizationScaling_def GaMultiValueCrossover_def
  GaAddCrossover_def GaSubCrossover_def GaMidpointCrossover_def GaFlipMutation_def
  GaInvertMutation_def GaSwapMutation_def GaGenerationCriteria_def GaFitnessCriteria_def
  GaFitnessProgressCriteria_def
  check_with_def check_none_def

section \<open>Own parameters\<close>

text \<open>The dynamic class of an object, as a number.\<close>

fun class_of :: "ga_params \<Rightarrow> nat" where
  "class_of (PChromosome x) = 0"
| "class_of (PBinary x) = 1"
| "class_of (PSelection x) = 2"
| "class_of (PDuplicates x) = 3"
| "class_of (PRandomBest x) = 4"
| "class_of (PTournament x) = 5"
| "class_of (PCoupling x) = 6"
| "class_of (PMultipleCoupling x) = 7"
| "class_of (PReplacement x) = 8"
| "class_of (PElitism x) = 9"
| "class_of (PScale x) = 10"
| "class_of (PGeneration x) = 11"
| "class_of (PFitness x) = 12"
| "class_of (PProgress x) = 13"
| "class_of (PWorkers x) = 14"
| "class_of (PSimple x) = 15"

lemmas default_params_defs =
  SelectionParams_default_def DuplicatesParams_default_def RandomBestParams_default_def TournamentParams_default_def
  CouplingParams_default_def MultipleCouplingParams_default_def ReplacementParams_default_def ElitismParams_default_def
  ScaleFactorParams_default_def GenerationParams_default_def FitnessParams_default_def ProgressParams_default_def
  GaChromosomeParams_default_def
  selection_params.defs duplicates_params.defs random_best_params.defs tournament_params.defs coupling_params.defs
  multiple_coupling_params.defs replacement_params.defs elitism_params.defs

definition refuses_default :: "operation_class set" where
  "refuses_default =
     {Class_GaSelectBest, Class_GaSelectRandom, Class_GaSelectRandomBest, Class_GaSelectRouletteWheel, Class_GaSelectTournament,
      Class_GaSelectWorst, Class_GaReplaceWorst, Class_GaReplaceRandom, Class_GaReplaceParents, Class_GaReplaceBest,
      Class_GaFitnessProgressCriteria}"

text \<open>
  C38. Checking never casts an object of the class an operation makes to a class it does not
  have. The parameters an operation makes itself are accepted by the couplings, scalings,
  crossovers, mutations and two stop criteria, but refused by every selection, every replacement
  and the progress criterion, whose default size or progress is 0.
\<close>

theorem operations_check_own_parameters:
  assumes "make_parameters (operation_of k) = Some p"
  shows "check_parameters (operation_of k) p = Inr (k \<notin> refuses_default)
    \<and> (class_of p = class_of q \<longrightarrow> (\<exists>b. check_parameters (operation_of k) q = Inr b))"
proof
  show "check_parameters (operation_of k) p = Inr (k \<notin> refuses_default)"
    using assms by (cases k) (auto simp: operation_defs default_params_defs refuses_default_def fle_def fabs_def)
  show "class_of p = class_of q \<longrightarrow> (\<exists>b. check_parameters (operation_of k) q = Inr b)"
    using assms by (cases k; cases q) (auto simp: operation_defs)
qed

theorem operations_check_own_parameters_witness:
  "check_parameters GaSelectTournament (PTournament TournamentParams_default) = Inr False
    \<and> check_parameters GaSimpleCoupling (PCoupling CouplingParams_default) = Inr True"
  using operations_check_own_parameters [of Class_GaSelectTournament "PTournament TournamentParams_default"]
    operations_check_own_parameters [of Class_GaSimpleCoupling "PCoupling CouplingParams_default"]
  by (simp add: GaSelectTournament_def GaSimpleCoupling_def refuses_default_def)

end
