(* ===== verification/Configuration.thy ===== *)
theory Configuration
  imports Operations Catalogue MultiValue
begin

text \<open>
  The configuration of a population (\<open>Population.h\<close>) and the set-up of the search in \<open>TSP::TSP\<close>
  (\<open>TspAlgorithm.cpp\<close>), which looks the operations up in the catalogues of the library and hands
  each of them its parameters. Operations are addresses; the record \<open>tsp_library\<close> holds the
  catalogues and the class of each operation, as the compiled \<open>GaInitialize\<close> leaves them. The
  constructors of the population and of the algorithm, and \<open>BindPopulation\<close>, are compiled.
\<close>

section \<open>Class \<open>GaPopulationParameters\<close>\<close>

record population_params =
  po_populationSize :: int
  po_resizable :: bool
  po_sorting :: bool
  po_usingScaledFitness :: bool
  po_bestTrackCount :: int
  po_worstTrackCount :: int

definition SetPopulationSize :: "int \<Rightarrow> population_params \<Rightarrow> population_params" where
  "SetPopulationSize n p = p\<lparr>po_populationSize := if 2 \<le> n then n else 2\<rparr>"

definition SetResizable :: "bool \<Rightarrow> population_params \<Rightarrow> population_params" where
  "SetResizable resizable p = p\<lparr>po_resizable := resizable\<rparr>"

definition SetSorting :: "bool \<Rightarrow> population_params \<Rightarrow> population_params" where
  "SetSorting sorting p = p\<lparr>po_sorting := sorting\<rparr>"

definition SetUsingScaledFitness :: "bool \<Rightarrow> population_params \<Rightarrow> population_params" where
  "SetUsingScaledFitness useScaledFitness p = p\<lparr>po_usingScaledFitness := useScaledFitness\<rparr>"

section \<open>Class \<open>GaPopulationConfiguration\<close>\<close>

type_synonym params_heap = "ga_params param_heap"
type_synonym ga_pair = "nat operation_pair"

record configuration =
  pc_selection :: ga_pair
  pc_replacement :: ga_pair
  pc_scaling :: ga_pair
  pc_coupling :: ga_pair
  pc_parameters :: population_params
  pc_populations :: "nat list"
  pc_sortingComparator :: "nat option"

text \<open>Members are initialised in the order of their declaration.\<close>

definition configuration_new ::
  "population_params \<Rightarrow> nat option \<Rightarrow> nat option \<Rightarrow> nat option \<Rightarrow> nat option \<Rightarrow> nat option \<Rightarrow> nat option \<Rightarrow> nat option
   \<Rightarrow> nat option \<Rightarrow> nat option \<Rightarrow> params_heap \<Rightarrow> (configuration \<times> params_heap) res" where
  "configuration_new populationParams sortComparator selectionOperation selectionParams replacementOperation replacementParams
     couplingOperation couplingParams scalingOperation scalingParams h =
     rbind (pair_new selectionOperation selectionParams h) (\<lambda>(sel, h1).
     rbind (pair_new replacementOperation replacementParams h1) (\<lambda>(rep, h2).
     rbind (pair_new scalingOperation scalingParams h2) (\<lambda>(sca, h3).
     rbind (pair_new couplingOperation couplingParams h3) (\<lambda>(cou, h4).
       Inr (\<lparr>pc_selection = sel, pc_replacement = rep, pc_scaling = sca, pc_coupling = cou, pc_parameters = populationParams,
             pc_populations = [], pc_sortingComparator = sortComparator\<rparr>, h4)))))"

text \<open>The default constructor copies the default configuration, if there is one.\<close>

definition configuration_of_default :: "configuration option \<Rightarrow> params_heap \<Rightarrow> (configuration \<times> params_heap) res" where
  "configuration_of_default dflt h =
     (case dflt of None \<Rightarrow> Inl NullDeref | Some d \<Rightarrow>
        rbind (pair_copy (pc_selection d) h) (\<lambda>(sel, h1).
        rbind (pair_copy (pc_replacement d) h1) (\<lambda>(rep, h2).
        rbind (pair_copy (pc_scaling d) h2) (\<lambda>(sca, h3).
        rbind (pair_copy (pc_coupling d) h3) (\<lambda>(cou, h4).
          Inr (\<lparr>pc_selection = sel, pc_replacement = rep, pc_scaling = sca, pc_coupling = cou, pc_parameters = pc_parameters d,
                pc_populations = [], pc_sortingComparator = pc_sortingComparator d\<rparr>, h4))))))"

definition configuration_delete :: "configuration \<Rightarrow> params_heap \<Rightarrow> params_heap res" where
  "configuration_delete c h =
     rbind (pair_delete (pc_coupling c) h) (\<lambda>h1. rbind (pair_delete (pc_scaling c) h1) (\<lambda>h2.
     rbind (pair_delete (pc_replacement c) h2) (\<lambda>h3. pair_delete (pc_selection c) h3)))"

definition FreeDefault :: "configuration option \<Rightarrow> params_heap \<Rightarrow> (configuration option \<times> params_heap) res" where
  "FreeDefault dflt h =
     (case dflt of None \<Rightarrow> Inr (None, h) | Some d \<Rightarrow> rbind (configuration_delete d h) (\<lambda>h'. Inr (None, h')))"

definition UnbindPopulation :: "nat option \<Rightarrow> configuration \<Rightarrow> configuration" where
  "UnbindPopulation population c =
     (case population of None \<Rightarrow> c | Some p \<Rightarrow> c\<lparr>pc_populations := removeAll p (pc_populations c)\<rparr>)"

definition SetSelection :: "nat option \<Rightarrow> nat option \<Rightarrow> configuration \<Rightarrow> params_heap \<Rightarrow> (configuration \<times> params_heap) res" where
  "SetSelection operation parameters c h =
     rbind (pair_SetOperation operation parameters (pc_selection c) h) (\<lambda>(p, h'). Inr (c\<lparr>pc_selection := p\<rparr>, h'))"

definition SetReplacement :: "nat option \<Rightarrow> nat option \<Rightarrow> configuration \<Rightarrow> params_heap \<Rightarrow> (configuration \<times> params_heap) res" where
  "SetReplacement operation parameters c h =
     rbind (pair_SetOperation operation parameters (pc_replacement c) h) (\<lambda>(p, h'). Inr (c\<lparr>pc_replacement := p\<rparr>, h'))"

definition SetCoupling :: "nat option \<Rightarrow> nat option \<Rightarrow> configuration \<Rightarrow> params_heap \<Rightarrow> (configuration \<times> params_heap) res" where
  "SetCoupling operation parameters c h =
     rbind (pair_SetOperation operation parameters (pc_coupling c) h) (\<lambda>(p, h'). Inr (c\<lparr>pc_coupling := p\<rparr>, h'))"

definition SetSelectionParams :: "nat option \<Rightarrow> configuration \<Rightarrow> params_heap \<Rightarrow> (configuration \<times> params_heap) res" where
  "SetSelectionParams parameters c h =
     rbind (pair_SetParameters parameters (pc_selection c) h) (\<lambda>(p, h'). Inr (c\<lparr>pc_selection := p\<rparr>, h'))"

definition SetReplacementParams :: "nat option \<Rightarrow> configuration \<Rightarrow> params_heap \<Rightarrow> (configuration \<times> params_heap) res" where
  "SetReplacementParams parameters c h =
     rbind (pair_SetParameters parameters (pc_replacement c) h) (\<lambda>(p, h'). Inr (c\<lparr>pc_replacement := p\<rparr>, h'))"

definition SetCouplingParams :: "nat option \<Rightarrow> configuration \<Rightarrow> params_heap \<Rightarrow> (configuration \<times> params_heap) res" where
  "SetCouplingParams parameters c h =
     rbind (pair_SetParameters parameters (pc_coupling c) h) (\<lambda>(p, h'). Inr (c\<lparr>pc_coupling := p\<rparr>, h'))"

section \<open>The configuration of a population\<close>

text \<open>
  \<open>GaPopulation::SetConfiguration\<close> of the population at address \<open>this\<close>; \<open>bind\<close> is the compiled
  \<open>BindPopulation\<close>. The configurations live at addresses.
\<close>

record bindings =
  bi_configurations :: "nat \<rightharpoonup> configuration"
  bi_configuration :: "nat option"

definition SetConfiguration ::
  "(nat \<Rightarrow> bool \<Rightarrow> configuration \<Rightarrow> configuration) \<Rightarrow> nat \<Rightarrow> nat option \<Rightarrow> bindings \<Rightarrow> bindings res" where
  "SetConfiguration bind this new s =
     (if bi_configuration s = new then Inr s
      else case bi_configuration s of
        None \<Rightarrow> Inl NullDeref
      | Some a \<Rightarrow> (case bi_configurations s a of None \<Rightarrow> Inl Dangling | Some c \<Rightarrow>
          let s1 = \<lparr>bi_configurations = (bi_configurations s)(a \<mapsto> UnbindPopulation (Some this) c), bi_configuration = new\<rparr>
          in (case new of None \<Rightarrow> Inr s1
              | Some b \<Rightarrow> (case bi_configurations s1 b of None \<Rightarrow> Inl Dangling
                  | Some d \<Rightarrow> Inr (s1\<lparr>bi_configurations := (bi_configurations s1)(b \<mapsto> bind this True d)\<rparr>)))))"

text \<open>
  \<open>EndOfGeneration\<close>: the population is rescaled when the scaling has an operation that asks for it.
  The question, the rescaling and the copy of the statistics are compiled.
\<close>

definition rescale_if_needed ::
  "(nat \<Rightarrow> nat \<Rightarrow> 'p \<Rightarrow> bool) \<Rightarrow> ('p \<Rightarrow> 'p) \<Rightarrow> configuration \<Rightarrow> 'p \<Rightarrow> 'p res" where
  "rescale_if_needed need rescaleAll c p =
     (if pair_HasOperation (pc_scaling c)
      then rbind (pair_GetOperation (pc_scaling c)) (\<lambda>o'. rbind (pair_GetParameters (pc_scaling c)) (\<lambda>x.
        Inr (if need o' x p then rescaleAll p else p)))
      else Inr p)"

definition EndOfGeneration_from ::
  "(nat \<Rightarrow> nat \<Rightarrow> 'p \<Rightarrow> bool) \<Rightarrow> ('p \<Rightarrow> 'p) \<Rightarrow> ('p \<Rightarrow> 'p \<Rightarrow> 'p) \<Rightarrow> 'p \<Rightarrow> configuration \<Rightarrow> 'p \<Rightarrow> 'p res" where
  "EndOfGeneration_from need rescaleAll copyFrom previous c p =
     rbind (rescale_if_needed need rescaleAll c p) (\<lambda>p'. Inr (copyFrom previous p'))"

definition EndOfGeneration :: "(nat \<Rightarrow> nat \<Rightarrow> 'p \<Rightarrow> bool) \<Rightarrow> ('p \<Rightarrow> 'p) \<Rightarrow> configuration \<Rightarrow> 'p \<Rightarrow> 'p res" where
  "EndOfGeneration need rescaleAll c p = rescale_if_needed need rescaleAll c p"

section \<open>The set-up of the search\<close>

record tsp_library =
  lb_objects :: "nat \<rightharpoonup> operation_class"
  lb_selection :: catalogue
  lb_replacement :: catalogue
  lb_coupling :: catalogue
  lb_mutation :: catalogue
  lb_comparator :: catalogue
  lb_criteria :: catalogue

record 'g tsp =
  ts_ccb :: "(nat, nat, 'g) domain_block"
  ts_prototype :: "nat multi_value"
  ts_configuration :: configuration
  ts_workers :: workers_params
  ts_stopCriteria :: ga_pair

text \<open>A parameter object on the stack, and \<open>GaBaseAlgorithm::SetStopCriteria\<close>.\<close>

definition param_local :: "ga_params \<Rightarrow> params_heap \<Rightarrow> nat \<times> params_heap" where
  "param_local x h = (pm_next h, h\<lparr>pm_objects := (pm_objects h)(pm_next h \<mapsto> x), pm_next := Suc (pm_next h)\<rparr>)"

definition SetStopCriteria :: "nat option \<Rightarrow> nat option \<Rightarrow> ga_pair \<Rightarrow> params_heap \<Rightarrow> (ga_pair \<times> params_heap) res" where
  "SetStopCriteria criteria parameters stop h = pair_SetOperation criteria parameters stop h"

definition progress_criterion :: "tsp_library \<Rightarrow> int \<Rightarrow> ga_pair \<Rightarrow> params_heap \<Rightarrow> (ga_pair \<times> params_heap) res" where
  "progress_criterion L limit stop h =
     (let (critParam, h1) = param_local (PProgress (ProgressParams_new (Num 1) True GFC_LESS_THEN GSV_BEST_FITNESS limit)) h
      in rbind (SetStopCriteria (catalogue_GetEntryData ''GaFitnessProgressCriteria'' (lb_criteria L)) (Some critParam) stop h1)
           (\<lambda>(stop', h2). rbind (param_delete critParam h2) (\<lambda>h3. Inr (stop', h3))))"

text \<open>The configuration block of the chromosomes, without value sets.\<close>

definition TSP_block :: "tsp_library \<Rightarrow> nat \<Rightarrow> nat \<Rightarrow> (nat, nat, 'g) domain_block res" where
  "TSP_block L crossover fitness =
     domain_block_array None 0 (operations_block_new (Some crossover)
       (catalogue_GetEntryData ''GaSwapMutation'' (lb_mutation L)) (Some fitness)
       (catalogue_GetEntryData ''GaMinFitnessComparator'' (lb_comparator L))
       (Some \<lparr>mutationProbability = round32 (3 / 10), mutationSize = 2, improvingOnlyMutations = False,
              crossoverProbability = round32 (8 / 10), numberOfCrossoverPoints = 2\<rparr>))"

text \<open>
  \<open>ccb\<close> is the address of the configuration block, \<open>crossover\<close> and \<open>fitness\<close> those of the new
  operations, \<open>populationParams\<close> what the compiled constructor makes of its arguments.
\<close>

definition TSP_new ::
  "tsp_library \<Rightarrow> population_params \<Rightarrow> nat \<Rightarrow> nat \<Rightarrow> nat \<Rightarrow> int \<Rightarrow> params_heap \<Rightarrow> ('g tsp \<times> params_heap) res" where
  "TSP_new L populationParams ccb crossover fitness limit h =
     rbind (TSP_block L crossover fitness) (\<lambda>block.
     let (selectParams, h1) = param_local (PRandomBest (RandomBestParams_new 8 True 10)) h;
         (replaceParams, h2) = param_local (PElitism (ElitismParams_new 8 10)) h1;
         (couplingParams, h3) = param_local (PCoupling (CouplingParams_new 8 True)) h2
     in rbind (GetFitnessComparator block) (\<lambda>cmp.
        rbind (configuration_new populationParams (Some cmp)
          (catalogue_GetEntryData ''GaSelectRandomBest'' (lb_selection L)) (Some selectParams)
          (catalogue_GetEntryData ''GaReplaceRandom'' (lb_replacement L)) (Some replaceParams)
          (catalogue_GetEntryData ''GaSimpleCoupling'' (lb_coupling L)) (Some couplingParams) None None h3) (\<lambda>(cfg, h4).
        rbind (progress_criterion L limit pair_default h4) (\<lambda>(stop, h5).
        rbind (param_delete couplingParams h5) (\<lambda>h6. rbind (param_delete replaceParams h6) (\<lambda>h7.
        rbind (param_delete selectParams h7) (\<lambda>h8.
          Inr (\<lparr>ts_ccb = block, ts_prototype = mv_new ccb, ts_configuration = cfg,
                ts_workers = WorkersParams_new 1, ts_stopCriteria = stop\<rparr>, h8))))))))"

text \<open>\<open>TSP::smartInit\<close>: a new criterion with the current limit.\<close>

definition TSP_smartInit :: "tsp_library \<Rightarrow> int \<Rightarrow> 'g tsp \<Rightarrow> params_heap \<Rightarrow> ('g tsp \<times> params_heap) res" where
  "TSP_smartInit L limit t h =
     rbind (progress_criterion L limit (ts_stopCriteria t) h) (\<lambda>(stop, h'). Inr (t\<lparr>ts_stopCriteria := stop\<rparr>, h'))"

text \<open>
  \<open>TSP::~TSP\<close>: the algorithm with its criteria, the configuration with its pairs, and the objects of
  the block, which are reached through references. \<open>GaFinalize\<close> is compiled.
\<close>

definition TSP_delete :: "'g tsp \<Rightarrow> params_heap \<Rightarrow> params_heap res" where
  "TSP_delete t h =
     rbind (pair_delete (ts_stopCriteria t) h) (\<lambda>h1.
     rbind (configuration_delete (ts_configuration t) h1) (\<lambda>h2.
     rbind (GetCrossoverOperation (ts_ccb t)) (\<lambda>_. rbind (GetFitnessOperation (ts_ccb t)) (\<lambda>_.
       if pb_parameters (ts_ccb t) = None then Inl NullDeref else Inr h2))))"

section \<open>The set-up is accepted\<close>

definition registered :: "(nat \<rightharpoonup> operation_class) \<Rightarrow> catalogue \<Rightarrow> string \<Rightarrow> operation_class \<Rightarrow> bool" where
  "registered objects c name k \<longleftrightarrow> (\<exists>a. catalogue_GetEntryData name c = Some a \<and> objects a = Some k)"

definition library_registered :: "tsp_library \<Rightarrow> bool" where
  "library_registered L \<longleftrightarrow>
     registered (lb_objects L) (lb_selection L) ''GaSelectRandomBest'' Class_GaSelectRandomBest
   \<and> registered (lb_objects L) (lb_replacement L) ''GaReplaceRandom'' Class_GaReplaceRandom
   \<and> registered (lb_objects L) (lb_coupling L) ''GaSimpleCoupling'' Class_GaSimpleCoupling
   \<and> registered (lb_objects L) (lb_criteria L) ''GaFitnessProgressCriteria'' Class_GaFitnessProgressCriteria
   \<and> (\<exists>a. catalogue_GetEntryData ''GaMinFitnessComparator'' (lb_comparator L) = Some a)"

text \<open>Whether the operation of a pair accepts the parameters the pair holds.\<close>

definition pair_check :: "(nat \<rightharpoonup> operation_class) \<Rightarrow> params_heap \<Rightarrow> ga_pair \<Rightarrow> bool res" where
  "pair_check objects h p =
     rbind (pair_GetOperation p) (\<lambda>a. rbind (pair_GetParameters p) (\<lambda>b.
       case (objects a, pm_objects h b) of (Some k, Some x) \<Rightarrow> check_parameters (operation_of k) x | _ \<Rightarrow> Inl Dangling))"

definition live_params :: "params_heap \<Rightarrow> nat set" where
  "live_params h = {a. pm_objects h a \<noteq> None}"

text \<open>
  The pairs of the set-up accept their parameters, which are four live objects apart from the
  \<open>base\<close> of the other ones.
\<close>

definition tsp_pairs :: "'g tsp \<Rightarrow> ga_pair list" where
  "tsp_pairs t = [ts_stopCriteria t, pc_selection (ts_configuration t), pc_replacement (ts_configuration t), pc_coupling (ts_configuration t)]"

definition block_ok :: "(nat, nat, 'g) domain_block \<Rightarrow> bool" where
  "block_ok B \<longleftrightarrow> db_domains B = [] \<and> ob_crossover B \<noteq> None \<and> ob_fitness B \<noteq> None \<and> pb_parameters B \<noteq> None"

definition tsp_ok :: "tsp_library \<Rightarrow> nat set \<Rightarrow> int \<Rightarrow> params_heap \<Rightarrow> 'g tsp \<Rightarrow> bool" where
  "tsp_ok L base limit h t \<longleftrightarrow> heap_ok h \<and> block_ok (ts_ccb t) \<and> pc_scaling (ts_configuration t) = pair_default
     \<and> map (pair_check (lb_objects L) h) (tsp_pairs t) = [Inr (0 < limit), Inr True, Inr True, Inr True]
     \<and> (\<exists>as. map op_parameters (tsp_pairs t) = map Some as \<and> distinct as \<and> base \<inter> set as = {} \<and> live_params h = base \<union> set as)"

lemma criterion_set:
  assumes ok: "heap_ok h" "pair_owns stop h"
    and reg: "registered (lb_objects L) (lb_criteria L) ''GaFitnessProgressCriteria'' Class_GaFitnessProgressCriteria"
  shows "\<exists>stop' b h'. progress_criterion L limit stop h = Inr (stop', h') \<and> heap_ok h' \<and> op_parameters stop' = Some b
    \<and> pm_objects h b = None
    \<and> pm_objects h' = (\<lambda>a. if a = b then Some (PProgress (ProgressParams_new (Num 1) True GFC_LESS_THEN GSV_BEST_FITNESS limit))
         else if op_parameters stop = Some a then None else pm_objects h a)
    \<and> pair_check (lb_objects L) h' stop' = Inr (0 < limit)"
proof -
  let ?n = "pm_next h"
  let ?x = "PProgress (ProgressParams_new (Num 1) True GFC_LESS_THEN GSV_BEST_FITNESS limit)"
  obtain a where a: "catalogue_GetEntryData ''GaFitnessProgressCriteria'' (lb_criteria L) = Some a"
      "lb_objects L a = Some Class_GaFitnessProgressCriteria"
    using reg by (auto simp: registered_def)
  have fresh: "pm_objects h ?n = None" "pm_objects h (Suc ?n) = None" using ok(1) by (simp_all add: heap_ok_def)
  let ?h' = "h\<lparr>pm_objects := (\<lambda>a. if a = Suc ?n then Some ?x else if op_parameters stop = Some a then None else pm_objects h a),
    pm_next := Suc (Suc ?n)\<rparr>"
  let ?stop = "\<lparr>op_operation = Some a, op_parameters = Some (Suc ?n)\<rparr>"
  have "progress_criterion L limit stop h = Inr (?stop, ?h')"
  proof (cases "op_parameters stop")
    case None
    with fresh show ?thesis
      by (simp add: progress_criterion_def param_local_def SetStopCriteria_def pair_SetOperation_def pair_SetParameters_def
          delete_if_def param_delete_def clone_or_null_def param_clone_def a fun_eq_iff)
  next
    case (Some c)
    have "c \<noteq> ?n" "c \<noteq> Suc ?n" "pm_objects h c \<noteq> None" using ok(2) Some fresh by (auto simp: pair_owns_def)
    with Some fresh show ?thesis
      by (simp add: progress_criterion_def param_local_def SetStopCriteria_def pair_SetOperation_def pair_SetParameters_def
          delete_if_def param_delete_def clone_or_null_def param_clone_def a fun_eq_iff)
  qed
  moreover have "heap_ok ?h'" using ok(1) by (simp add: heap_ok_def)
  moreover have "pair_check (lb_objects L) ?h' ?stop = Inr (0 < limit)"
    by (simp add: pair_check_def pair_GetOperation_def pair_GetParameters_def a GaFitnessProgressCriteria_def check_with_def
        ProgressParams_new_def fabs_def)
  ultimately show ?thesis using fresh(2)
    by (intro exI [of _ ?stop] exI [of _ "Suc ?n"] exI [of _ ?h']) simp
qed


lemma configuration_built:
  assumes ok: "heap_ok h"
    and reg: "catalogue_GetEntryData ''GaSelectRandomBest'' (lb_selection L) = Some s"
      "catalogue_GetEntryData ''GaReplaceRandom'' (lb_replacement L) = Some r"
      "catalogue_GetEntryData ''GaSimpleCoupling'' (lb_coupling L) = Some c"
  defines "n \<equiv> pm_next h"
  defines "h3 \<equiv> snd (param_local (PCoupling (CouplingParams_new 8 True)) (snd (param_local (PElitism (ElitismParams_new 8 10))
    (snd (param_local (PRandomBest (RandomBestParams_new 8 True 10)) h)))))"
  shows "\<exists>h4. configuration_new pp cmp (Some s) (Some n) (Some r) (Some (Suc n)) (Some c) (Some (n + 2)) None None h3
      = Inr (\<lparr>pc_selection = \<lparr>op_operation = Some s, op_parameters = Some (n + 3)\<rparr>,
              pc_replacement = \<lparr>op_operation = Some r, op_parameters = Some (n + 4)\<rparr>,
              pc_scaling = \<lparr>op_operation = None, op_parameters = None\<rparr>,
              pc_coupling = \<lparr>op_operation = Some c, op_parameters = Some (n + 5)\<rparr>,
              pc_parameters = pp, pc_populations = [], pc_sortingComparator = cmp\<rparr>, h4)
    \<and> heap_ok h4
    \<and> pm_objects h4 = (pm_objects h)(n \<mapsto> PRandomBest (RandomBestParams_new 8 True 10), n + 1 \<mapsto> PElitism (ElitismParams_new 8 10),
        n + 2 \<mapsto> PCoupling (CouplingParams_new 8 True), n + 3 \<mapsto> PRandomBest (RandomBestParams_new 8 True 10),
        n + 4 \<mapsto> PElitism (ElitismParams_new 8 10), n + 5 \<mapsto> PCoupling (CouplingParams_new 8 True))"
proof -
  have n: "n + 2 = Suc (Suc n)" "n + 3 = Suc (Suc (Suc n))" "n + 4 = Suc (Suc (Suc (Suc n)))"
    "n + 5 = Suc (Suc (Suc (Suc (Suc n))))" "n + 1 = Suc n" by simp_all
  show ?thesis
    unfolding n using ok
    by (simp add: h3_def param_local_def configuration_new_def pair_new_def clone_or_null_def param_clone_def n_def heap_ok_def fun_eq_iff)
qed

lemma block_made:
  assumes "catalogue_GetEntryData ''GaMinFitnessComparator'' (lb_comparator L) = Some cmp"
  shows "\<exists>block. TSP_block L crossover fitness = Inr block \<and> GetFitnessComparator block = Inr cmp \<and> block_ok block"
  by (simp add: block_ok_def TSP_block_def domain_block_array_def GetFitnessComparator_def deref_op_def operations_block_new_def
      operations_block.defs assms)

lemma tsp_started:
  assumes reg: "library_registered L" and ok: "heap_ok h"
  shows "\<exists>(t :: 'g tsp) h'. TSP_new L pp ccb crossover fitness limit h = Inr (t, h') \<and> tsp_ok L (live_params h) limit h' t"
proof -
  obtain s r c cmp where e: "catalogue_GetEntryData ''GaSelectRandomBest'' (lb_selection L) = Some s"
      "catalogue_GetEntryData ''GaReplaceRandom'' (lb_replacement L) = Some r"
      "catalogue_GetEntryData ''GaSimpleCoupling'' (lb_coupling L) = Some c"
      "catalogue_GetEntryData ''GaMinFitnessComparator'' (lb_comparator L) = Some cmp"
    and k: "lb_objects L s = Some Class_GaSelectRandomBest" "lb_objects L r = Some Class_GaReplaceRandom"
      "lb_objects L c = Some Class_GaSimpleCoupling"
    and crit: "registered (lb_objects L) (lb_criteria L) ''GaFitnessProgressCriteria'' Class_GaFitnessProgressCriteria"
    using reg by (auto simp: library_registered_def registered_def)
  define n where "n = pm_next h"
  have fresh: "pm_objects h (n + i) = None" for i using ok by (simp add: heap_ok_def n_def)
  have fresh0: "pm_objects h n = None" "pm_objects h (Suc n) = None" "pm_objects h (Suc (Suc n)) = None"
    using fresh [of 0] fresh [of 1] fresh [of 2] by simp_all
  obtain h4 cfg where h4: "configuration_new pp (Some cmp) (Some s) (Some n) (Some r) (Some (Suc n)) (Some c) (Some (n + 2)) None None
        (snd (param_local (PCoupling (CouplingParams_new 8 True)) (snd (param_local (PElitism (ElitismParams_new 8 10))
          (snd (param_local (PRandomBest (RandomBestParams_new 8 True 10)) h)))))) = Inr (cfg, h4)"
    and cfg: "pc_selection cfg = \<lparr>op_operation = Some s, op_parameters = Some (n + 3)\<rparr>"
      "pc_replacement cfg = \<lparr>op_operation = Some r, op_parameters = Some (n + 4)\<rparr>"
      "pc_coupling cfg = \<lparr>op_operation = Some c, op_parameters = Some (n + 5)\<rparr>"
      "pc_scaling cfg = \<lparr>op_operation = None, op_parameters = None\<rparr>"
    and ok4: "heap_ok h4"
    and obj4: "pm_objects h4 = (pm_objects h)(n \<mapsto> PRandomBest (RandomBestParams_new 8 True 10), n + 1 \<mapsto> PElitism (ElitismParams_new 8 10),
        n + 2 \<mapsto> PCoupling (CouplingParams_new 8 True), n + 3 \<mapsto> PRandomBest (RandomBestParams_new 8 True 10),
        n + 4 \<mapsto> PElitism (ElitismParams_new 8 10), n + 5 \<mapsto> PCoupling (CouplingParams_new 8 True))"
    using configuration_built [OF ok e(1-3), of pp "Some cmp"] unfolding n_def by auto
  have "pair_owns pair_default h4" by (simp add: pair_owns_def pair_default_def)
  from criterion_set [OF ok4 this crit, of limit] obtain stop b h5
    where stop: "progress_criterion L limit pair_default h4 = Inr (stop, h5)" "op_parameters stop = Some b" "pm_objects h4 b = None"
      "pair_check (lb_objects L) h5 stop = Inr (0 < limit)" and ok5: "heap_ok h5"
      and obj: "pm_objects h5 = (\<lambda>a. if a = b then Some (PProgress (ProgressParams_new (Num 1) True GFC_LESS_THEN GSV_BEST_FITNESS limit))
         else if op_parameters (pair_default :: ga_pair) = Some a then None else pm_objects h4 a)"
    by blast
  have obj5: "pm_objects h5 = (pm_objects h4)(b \<mapsto> PProgress (ProgressParams_new (Num 1) True GFC_LESS_THEN GSV_BEST_FITNESS limit))"
    unfolding obj by (simp add: pair_default_def fun_eq_iff)
  have b: "b \<noteq> n" "b \<noteq> n + 1" "b \<noteq> n + 2" "b \<noteq> n + 3" "b \<noteq> n + 4" "b \<noteq> n + 5" "pm_objects h b = None"
    using stop(3) unfolding obj4 by (auto split: if_splits)
  define h6 where "h6 = h5\<lparr>pm_objects := (pm_objects h5)(n + 2 := None)\<rparr>"
  define h7 where "h7 = h6\<lparr>pm_objects := (pm_objects h6)(Suc n := None)\<rparr>"
  define h8 where "h8 = h7\<lparr>pm_objects := (pm_objects h7)(n := None)\<rparr>"
  have del: "param_delete (n + 2) h5 = Inr h6" "param_delete (Suc n) h6 = Inr h7" "param_delete n h7 = Inr h8"
    using b by (simp_all add: param_delete_def obj5 obj4 h6_def h7_def h8_def)
  obtain block :: "(nat, nat, 'g) domain_block" where block: "TSP_block L crossover fitness = Inr block" "GetFitnessComparator block = Inr cmp" "block_ok block"
    using block_made [OF e(4)] by blast
  let ?t = "\<lparr>ts_ccb = block, ts_prototype = mv_new ccb, ts_configuration = cfg, ts_workers = WorkersParams_new 1, ts_stopCriteria = stop\<rparr>"
  have "TSP_new L pp ccb crossover fitness limit h = Inr (?t, h8)"
    using h4 stop(1) del unfolding TSP_new_def n_def by (simp add: e block param_local_def)
  moreover have "tsp_ok L (live_params h) limit h8 ?t"
  proof -
    have ok8: "heap_ok h8" using ok5 by (simp add: h8_def h7_def h6_def heap_ok_def)
    have o8: "pm_objects h8 = (pm_objects h)(n + 3 \<mapsto> PRandomBest (RandomBestParams_new 8 True 10),
        n + 4 \<mapsto> PElitism (ElitismParams_new 8 10), n + 5 \<mapsto> PCoupling (CouplingParams_new 8 True),
        b \<mapsto> PProgress (ProgressParams_new (Num 1) True GFC_LESS_THEN GSV_BEST_FITNESS limit))"
      using b fresh0 by (auto simp: h8_def h7_def h6_def obj5 obj4 fun_eq_iff)
    have "pair_check (lb_objects L) h8 stop = Inr (0 < limit)"
      using stop(4) b by (auto simp: pair_check_def pair_GetParameters_def stop(2) o8 obj5 rbind_eq_Inr split: option.splits)
    moreover have "pair_check (lb_objects L) h8 (pc_selection cfg) = Inr True" "pair_check (lb_objects L) h8 (pc_replacement cfg) = Inr True"
      "pair_check (lb_objects L) h8 (pc_coupling cfg) = Inr True"
      using b by (simp_all add: pair_check_def pair_GetOperation_def pair_GetParameters_def cfg k o8 operation_defs
          RandomBestParams_new_def DuplicatesParams_new_def SelectionParams_new_def SetSelectionSize_def ElitismParams_new_def
          ReplacementParams_new_def SetReplacementSize_def CouplingParams_new_def SetNumberOfOffsprings_def default_params_defs)
    moreover have "live_params h8 = live_params h \<union> {b, n + 3, n + 4, n + 5}" unfolding live_params_def o8 by auto
    moreover have "live_params h \<inter> {b, n + 3, n + 4, n + 5} = {}" using fresh b(7) by (auto simp: live_params_def)
    ultimately show ?thesis
      using ok8 block(3) b unfolding tsp_ok_def
      by (simp add: tsp_pairs_def cfg stop(2) pair_default_def exI [of _ "[b, n + 3, n + 4, n + 5]"])
  qed
  ultimately show ?thesis by blast
qed


text \<open>A new criterion replaces the old one, which is freed.\<close>

lemma tsp_restarted:
  assumes reg: "library_registered L" and ok: "tsp_ok L base limit h t"
  shows "\<exists>t' h'. TSP_smartInit L limit' t h = Inr (t', h') \<and> tsp_ok L base limit' h' t'"
proof -
  obtain as where as: "map op_parameters (tsp_pairs t) = map Some as" "distinct as" "base \<inter> set as = {}" "live_params h = base \<union> set as"
    using ok by (auto simp: tsp_ok_def)
  then obtain a s r c where four: "as = [a, s, r, c]" by (auto simp: tsp_pairs_def)
  let ?stop = "ts_stopCriteria t"
  have a: "op_parameters ?stop = Some a" using as(1) by (simp add: tsp_pairs_def four)
  have "pair_owns ?stop h" using a as(4) by (auto simp: pair_owns_def four live_params_def)
  then obtain stop b h' where new: "progress_criterion L limit' ?stop h = Inr (stop, h')" "op_parameters stop = Some b"
      "pm_objects h b = None" "pair_check (lb_objects L) h' stop = Inr (0 < limit')" "heap_ok h'"
    and obj: "pm_objects h' = (\<lambda>x. if x = b then Some (PProgress (ProgressParams_new (Num 1) True GFC_LESS_THEN GSV_BEST_FITNESS limit'))
         else if op_parameters ?stop = Some x then None else pm_objects h x)"
    using criterion_set [of h ?stop L limit'] ok reg by (auto simp: tsp_ok_def library_registered_def)
  have notlive: "b \<notin> live_params h" using new(3) by (simp add: live_params_def)
  have b: "b \<notin> base" "b \<noteq> s" "b \<noteq> r" "b \<noteq> c" using notlive unfolding as(4) four by auto
  have same: "pm_objects h' x = pm_objects h x" if "x \<in> {s, r, c}" for x using that b as(2) by (auto simp: obj a four)
  have check: "pair_check (lb_objects L) h' p = pair_check (lb_objects L) h p" if "op_parameters p = Some x" "x \<in> {s, r, c}" for p x
  proof -
    have "pm_objects h' x = pm_objects h x" using same that(2) by blast
    then show ?thesis by (simp add: pair_check_def pair_GetParameters_def that(1) cong del: option.case_cong_weak)
  qed
  have "live_params h' = base \<union> set [b, s, r, c]"
  proof -
    have "live_params h' = insert b (live_params h - {a})" by (auto simp: live_params_def obj a)
    then show ?thesis using as(2-4) by (auto simp: four)
  qed
  moreover have "base \<inter> set [b, s, r, c] = {}" "distinct [b, s, r, c]" using as(2,3) b by (auto simp: four)
  moreover have "map (pair_check (lb_objects L) h') (tsp_pairs (t\<lparr>ts_stopCriteria := stop\<rparr>)) = [Inr (0 < limit'), Inr True, Inr True, Inr True]"
    using ok as(1) check new(4) by (simp add: tsp_ok_def tsp_pairs_def four)
  moreover have "map op_parameters (tsp_pairs (t\<lparr>ts_stopCriteria := stop\<rparr>)) = map Some [b, s, r, c]"
    using as(1) new(2) by (simp add: tsp_pairs_def four)
  ultimately have "\<exists>as. map op_parameters (tsp_pairs (t\<lparr>ts_stopCriteria := stop\<rparr>)) = map Some as \<and> distinct as
      \<and> base \<inter> set as = {} \<and> live_params h' = base \<union> set as"
    and "map (pair_check (lb_objects L) h') (tsp_pairs (t\<lparr>ts_stopCriteria := stop\<rparr>)) = [Inr (0 < limit'), Inr True, Inr True, Inr True]"
    by blast+
  then have "tsp_ok L base limit' h' (t\<lparr>ts_stopCriteria := stop\<rparr>)"
    using ok new(5) by (simp add: tsp_ok_def)
  then show ?thesis using new(1) by (simp add: TSP_smartInit_def)
qed

lemma tsp_restarted_often:
  assumes reg: "library_registered L" and "tsp_ok L base limit h t"
  shows "\<exists>t' h'. rfold (\<lambda>l (t, h). TSP_smartInit L l t h) limits (t, h) = Inr (t', h') \<and> tsp_ok L base (last (limit # limits)) h' t'"
  using assms(2)
proof (induction limits arbitrary: limit t h)
  case Nil
  then show ?case by simp
next
  case (Cons l ls)
  obtain t1 h1 where "TSP_smartInit L l t h = Inr (t1, h1)" "tsp_ok L base l h1 t1" using tsp_restarted [OF reg Cons.prems] by blast
  with Cons.IH [of l h1 t1] show ?case by simp
qed

lemma tsp_deleted:
  assumes ok: "tsp_ok L base limit h t"
  shows "\<exists>h'. TSP_delete t h = Inr h' \<and> live_params h' = base"
proof -
  obtain as where as: "map op_parameters (tsp_pairs t) = map Some as" "distinct as" "base \<inter> set as = {}" "live_params h = base \<union> set as"
    using ok by (auto simp: tsp_ok_def)
  then obtain a s r c where four: "as = [a, s, r, c]" by (auto simp: tsp_pairs_def)
  have live: "pm_objects h x \<noteq> None" if "x \<in> {a, s, r, c}" for x
  proof -
    have "x \<in> live_params h" using that unfolding as(4) four by auto
    then show ?thesis by (simp add: live_params_def)
  qed
  let ?h' = "h\<lparr>pm_objects := (pm_objects h)(a := None, c := None, r := None, s := None)\<rparr>"
  have "TSP_delete t h = Inr ?h'"
    using as(1,2) live ok unfolding four
    by (auto simp: TSP_delete_def configuration_delete_def pair_delete_def tsp_pairs_def tsp_ok_def block_ok_def pair_default_def
        delete_if_def param_delete_def GetCrossoverOperation_def GetFitnessOperation_def deref_op_def)
  moreover have "live_params ?h' = live_params h - {a, s, r, c}" by (auto simp: live_params_def)
  then have "live_params ?h' = base" using as(3,4) four by auto
  ultimately show ?thesis by blast
qed


definition sample_library :: tsp_library where
  "sample_library =
     (let cat = (\<lambda>name a. catalogue_new {}\<lparr>ct_entries := [(name, entry_new (Some name) (Some a))]\<rparr>)
      in \<lparr>lb_objects = [0 \<mapsto> Class_GaSelectRandomBest, 1 \<mapsto> Class_GaReplaceRandom, 2 \<mapsto> Class_GaSimpleCoupling,
            3 \<mapsto> Class_GaFitnessProgressCriteria],
          lb_selection = cat ''GaSelectRandomBest'' 0, lb_replacement = cat ''GaReplaceRandom'' 1,
          lb_coupling = cat ''GaSimpleCoupling'' 2, lb_mutation = cat ''GaSwapMutation'' 4,
          lb_comparator = cat ''GaMinFitnessComparator'' 5, lb_criteria = cat ''GaFitnessProgressCriteria'' 3\<rparr>)"

lemma sample_library_registered: "library_registered sample_library"
  by (simp add: library_registered_def registered_def sample_library_def Let_def catalogue_GetEntryData_def
      catalogue_new_def hm_find_def entry_new_def)


section \<open>Changing configurations\<close>

text \<open>
  A population that was given no configuration (\<open>NULL\<close>, which \<open>SetConfiguration\<close> allows) cannot be
  given another one: the method unbinds through the null pointer.
\<close>

lemma null_configuration_is_final:
  assumes "SetConfiguration bind this None s = Inr s1" and "bi_configuration s \<noteq> None"
  shows "SetConfiguration bind this (Some b) s1 = Inl NullDeref"
  using assms by (auto simp: SetConfiguration_def Let_def split: option.splits)

text \<open>Freeing the default configuration twice is harmless, as the pointer is reset.\<close>

lemma FreeDefault_twice:
  assumes "FreeDefault d h = Inr (d', h')"
  shows "FreeDefault d' h' = Inr (None, h')"
  using assms by (auto simp: FreeDefault_def rbind_eq_Inr split: option.splits)

end
