(* ===== verification/Observation.thy ===== *)
theory Observation
  imports Pipeline
begin

text \<open>
  Looking at a run does not change it: the program over a world with a log of the queries does what
  it does over the world itself. \<open>forget\<close> drops the log from a state; an action \<open>simulates\<close> another
  when dropping the log commutes with running it. This lets every run of the model be read
  together with what it has sent to the database.
\<close>

section \<open>States without the log\<close>

definition forget :: "('e \<times> 'l) program \<Rightarrow> 'e program" where
  "forget s =
     \<lparr>v_generation = v_generation s, v_fitness = v_fitness s, v_best = v_best s, v_relocation = v_relocation s,
      v_copy = v_copy s, v_orders = v_orders s, v_mutual = v_mutual s, v_routes = v_routes s,
      v_routesRelocated = v_routesRelocated s, v_deliveryDate = v_deliveryDate s, v_meridiemType = v_meridiemType s,
      v_meridiemFlag = v_meridiemFlag s, v_locationId = v_locationId s, v_vehicleNo = v_vehicleNo s,
      v_vehicleNumber = v_vehicleNumber s, v_completeLoad = v_completeLoad s, v_count = v_count s,
      v_searchStart = v_searchStart s, v_vehicleFlg = v_vehicleFlg s, v_vehiclePay = v_vehiclePay s,
      v_vehiclePayIndex = v_vehiclePayIndex s, p_world = p_world s, p_generationLimit = p_generationLimit s,
      p_subscribed = p_subscribed s, p_env = fst (p_env s)\<rparr>"

lemma forget_select [simp]:
  "v_best (forget s) = v_best s" "v_copy (forget s) = v_copy s" "v_orders (forget s) = v_orders s"
  "v_mutual (forget s) = v_mutual s" "v_count (forget s) = v_count s" "v_deliveryDate (forget s) = v_deliveryDate s"
  "v_meridiemType (forget s) = v_meridiemType s" "v_meridiemFlag (forget s) = v_meridiemFlag s"
  "v_locationId (forget s) = v_locationId s" "v_vehicleNo (forget s) = v_vehicleNo s" "p_world (forget s) = p_world s"
  "v_vehiclePayIndex (forget s) = v_vehiclePayIndex s" "p_generationLimit (forget s) = p_generationLimit s"
  "v_searchStart (forget s) = v_searchStart s" "p_env (forget s) = fst (p_env s)" "v_relocation (forget s) = v_relocation s"
  "v_vehicleNumber (forget s) = v_vehicleNumber s"
  by (simp_all add: forget_def)

lemma forget_update:
  "forget (s\<lparr>v_best := a\<rparr>) = (forget s)\<lparr>v_best := a\<rparr>"
  "forget (s\<lparr>v_generation := b\<rparr>) = (forget s)\<lparr>v_generation := b\<rparr>"
  "forget (s\<lparr>v_fitness := c\<rparr>) = (forget s)\<lparr>v_fitness := c\<rparr>"
  "forget (s\<lparr>v_copy := d\<rparr>) = (forget s)\<lparr>v_copy := d\<rparr>"
  "forget (s\<lparr>v_orders := e\<rparr>) = (forget s)\<lparr>v_orders := e\<rparr>"
  "forget (s\<lparr>v_mutual := f\<rparr>) = (forget s)\<lparr>v_mutual := f\<rparr>"
  "forget (s\<lparr>v_count := g\<rparr>) = (forget s)\<lparr>v_count := g\<rparr>"
  "forget (s\<lparr>v_completeLoad := h\<rparr>) = (forget s)\<lparr>v_completeLoad := h\<rparr>"
  "forget (s\<lparr>v_vehiclePayIndex := i\<rparr>) = (forget s)\<lparr>v_vehiclePayIndex := i\<rparr>"
  "forget (s\<lparr>p_world := j\<rparr>) = (forget s)\<lparr>p_world := j\<rparr>"
  "forget (s\<lparr>p_generationLimit := k\<rparr>) = (forget s)\<lparr>p_generationLimit := k\<rparr>"
  "forget (s\<lparr>v_relocation := l\<rparr>) = (forget s)\<lparr>v_relocation := l\<rparr>"
  "forget (s\<lparr>v_searchStart := m\<rparr>) = (forget s)\<lparr>v_searchStart := m\<rparr>"
  "forget (s\<lparr>p_env := n\<rparr>) = (forget s)\<lparr>p_env := fst n\<rparr>"
  by (simp_all add: forget_def)

section \<open>Simulation of actions\<close>

definition seen :: "('r \<times> ('e \<times> 'l) program) res \<Rightarrow> ('r \<times> 'e program) res" where
  "seen x = rbind x (\<lambda>(r, t). Inr (r, forget t))"

definition simulates :: "('e \<times> 'l, 'a) act \<Rightarrow> ('e, 'a) act \<Rightarrow> bool" where
  "simulates m m' \<longleftrightarrow> (\<forall>s. m' (forget s) = seen (m s))"

named_theorems sim_intros

lemma sim_abind [sim_intros]:
  assumes "simulates m m'" and "\<And>a. simulates (g a) (g' a)"
  shows "simulates (abind m g) (abind m' g')"
  unfolding simulates_def
proof
  fix s
  show "abind m' g' (forget s) = seen (abind m g s)"
  proof (cases "m s")
    case (Inl e)
    then have "m' (forget s) = Inl e" using assms(1) by (simp add: simulates_def seen_def)
    with Inl show ?thesis by (simp add: abind_Inl seen_def)
  next
    case (Inr p)
    obtain r t where p: "p = (r, t)" by (cases p)
    then have "m' (forget s) = Inr (r, forget t)" using assms(1) Inr by (simp add: simulates_def seen_def)
    with Inr p assms(2) show ?thesis by (cases r) (auto simp: abind_def simulates_def seen_def)
  qed
qed

lemma sim_plain [sim_intros]:
  "simulates (aret a) (aret a)" "simulates (aexit c) (aexit c)" "simulates (ares r) (ares r)"
  by (auto simp: simulates_def seen_def rbind_def split: sum.splits)

lemma sim_aget [sim_intros]: "(\<And>s. f' (forget s) = f s) \<Longrightarrow> simulates (aget f) (aget f')"
  by (simp add: simulates_def seen_def)

lemma sim_amodify [sim_intros]: "(\<And>s. h' (forget s) = forget (h s)) \<Longrightarrow> simulates (amodify h) (amodify h')"
  by (simp add: simulates_def seen_def)

lemma sim_afor [sim_intros]: "(\<And>x. simulates (f x) (f' x)) \<Longrightarrow> simulates (afor f xs) (afor f' xs)"
  by (induction xs) (auto intro!: sim_intros)

lemma sim_if [sim_intros]: "simulates m m' \<Longrightarrow> simulates n n' \<Longrightarrow> simulates (if b then m else n) (if b then m' else n')"
  by simp

lemma sim_db_connect [sim_intros]: "simulates (db_connect (logged A) c code) (db_connect A c code)"
  by (auto simp: simulates_def db_connect_def logged_def seen_def forget_update Let_def split_beta)

lemma sim_db_query [sim_intros]: "simulates (db_query (logged A) c code cap ps xs) (db_query A c code cap ps xs)"
  unfolding simulates_def
proof
  fix s
  show "db_query A c code cap ps xs (forget s) = seen (db_query (logged A) c code cap ps xs s)"
    by (cases "sprintf cap ps xs")
      (auto simp: db_query_def logged_def seen_def forget_update Let_def split_beta split: option.splits)
qed

lemma simD: "simulates m m' \<Longrightarrow> m' (forget s) = seen (m s)"
  unfolding simulates_def by blast

lemma sim_run:
  assumes "simulates m m'" and "m' (forget s) = Inr (r, t')"
  shows "\<exists>t. m s = Inr (r, t) \<and> forget t = t'"
  using simD [OF assms(1), of s] assms(2) by (cases "m s") (auto simp: seen_def)

section \<open>The steps\<close>

lemma sim_load: "simulates (OnLoadDeliveryData (logged A)) (OnLoadDeliveryData A)"
  unfolding OnLoadDeliveryData_def load_count_def load_orders_def load_order_def load_pay_def
    load_mutual_def load_row_def load_cell_def get_count_def set_order_def Let_def split_beta
  by (intro sim_intros) (simp_all add: order_args_def forget_update)

lemma sim_store: "simulates (OnVehicleDataInsert (logged A)) (OnVehicleDataInsert A)"
  unfolding OnVehicleDataInsert_def renumber_errors_def insert_stop_def insert_way_def load_way_def insert_last_def
    insert_single_def insert_duplicates_def insert_row_def renumber_def Let_def split_beta
  by (intro sim_intros) (simp_all add: insert_args_def guest_args_def vehicle_args_def)

lemma sim_set: "simulates OnSetDeliveryData OnSetDeliveryData"
  unfolding OnSetDeliveryData_def get_count_def set_city_def by (intro sim_intros) (simp_all add: forget_update)

lemma sim_relocation: "simulates OnRelocationDeliveryData OnRelocationDeliveryData"
  unfolding OnRelocationDeliveryData_def by (intro sim_intros) (simp_all add: forget_update)

section \<open>The search\<close>

lemma deliver_forget: "deliver ev (forget s) = forget (deliver ev s)"
  by (cases ev) (simp_all add: StatisticUpdate_def NewBestChromosome_def forget_update)

lemma deliver_all_forget: "fold deliver evs (forget s) = forget (fold deliver evs s)"
  by (induction evs arbitrary: s) (simp_all add: deliver_forget)

lemma deliver_env: "p_env (fold deliver evs s) = p_env s"
proof (induction evs arbitrary: s)
  case (Cons ev evs)
  then show ?case by (cases ev) (simp_all add: StatisticUpdate_def NewBestChromosome_def)
qed simp

lemma poll_forget: "poll A (forget s) = (case poll (logged A) s of (st, t) \<Rightarrow> (st, forget t))"
proof -
  obtain e l where s: "p_env s = (e, l)" by (cases "p_env s")
  obtain evs e1 where evs: "api_events A (p_world s) e = (evs, e1)" by (cases "api_events A (p_world s) e")
  let ?t = "fold deliver evs (s\<lparr>p_env := (e1, l)\<rparr>)"
  have "fold deliver evs ((forget s)\<lparr>p_env := e1\<rparr>) = forget ?t"
    using deliver_all_forget [of evs "s\<lparr>p_env := (e1, l)\<rparr>"] by (simp add: forget_update)
  moreover have "p_env ?t = (e1, l)" by (simp add: deliver_env)
  moreover obtain st e2 where "api_state A e1 = (st, e2)" by (cases "api_state A e1")
  ultimately show ?thesis
    by (simp add: poll_def logged_def s evs forget_update)
qed

lemma polled_forget: "(polled A ^^ k) (forget s) = forget ((polled (logged A) ^^ k) s)"
  by (induction k) (simp_all add: polled_def poll_forget split_beta)

lemma stopped_forget: "stopped_after A (forget s) k \<longleftrightarrow> stopped_after (logged A) s k"
  by (simp add: stopped_after_def polled_forget poll_forget split_beta)

lemma wait_forget: "wait_loop A (forget s) = map_option forget (wait_loop (logged A) s)"
  unfolding wait_loop_iff [of A "forget s"] wait_loop_iff [of "logged A" s] stopped_forget polled_forget by simp

lemma start_forget: "start_solving A (forget s) = forget (start_solving (logged A) s)"
  by (simp add: start_solving_def poll_forget split_beta Let_def logged_def forget_update)

lemma smartInit_forget: "smartInit A (forget s) = forget (smartInit (logged A) s)"
  by (simp add: smartInit_def logged_def split_beta forget_update)

lemma search_forget:
  "OnSearchDeliveryData A (forget s) = map_option (\<lambda>(c, t). (c, forget t)) (OnSearchDeliveryData (logged A) s)"
proof -
  let ?l = "smartInit (logged A) (s\<lparr>p_generationLimit := 70000\<rparr>)"
  have l: "smartInit A ((forget s)\<lparr>p_generationLimit := 70000\<rparr>) = forget ?l"
    by (metis smartInit_forget forget_update(11))
  show ?thesis
    by (simp add: OnSearchDeliveryData_def l start_forget wait_forget option.map_comp o_def)
qed

lemma search_run:
  assumes "OnSearchDeliveryData A (forget s) = Some (c, t')"
  shows "\<exists>t. OnSearchDeliveryData (logged A) s = Some (c, t) \<and> forget t = t'"
  using search_forget [of A s] assms by (cases "OnSearchDeliveryData (logged A) s") (auto split: prod.splits)

section \<open>The thread\<close>

lemma seen_returned: "simulates m m' \<Longrightarrow> returned m' (forget s) = seen (returned m s)"
  unfolding returned_def simulates_def
  by (cases "m s") (auto simp: seen_def split_beta)

lemma run_step_forget:
  assumes "\<And>s. f' (forget s) = map_option seen (f s)" and "r' = map_option seen r"
  shows "run_step f' r' = map_option seen (run_step f r)"
proof (cases r)
  case None
  with assms(2) show ?thesis by (simp add: run_step_def)
next
  case (Some x)
  show ?thesis
  proof (cases x)
    case (Inl e)
    with Some assms(2) show ?thesis by (simp add: run_step_def seen_def)
  next
    case (Inr p)
    obtain cs s where p: "p = (cs, s)" by (cases p)
    have "rbind (seen y) (\<lambda>(c, t). Inr (cs @ [c], t)) = seen (rbind y (\<lambda>(c, t). Inr (cs @ [c], t)))" for y :: "(int \<times> ('a \<times> 'b) program) res"
      by (cases y) (auto simp: seen_def)
    then show ?thesis
      using Some Inr p assms by (simp add: run_step_def seen_def option.map_comp o_def)
  qed
qed

lemma thread_forget:
  fixes A :: "'e env_api"
  shows "t_function A (forget s) = map_option seen (t_function (logged A) s)"
proof -
  have "map_option Inr (OnSearchDeliveryData A (forget s)) = map_option seen (map_option Inr (OnSearchDeliveryData (logged A) s))" for s :: "('e \<times> (nat \<times> string) list) program"
    by (simp add: search_forget option.map_comp o_def seen_def split_beta)
  then show ?thesis
    unfolding t_function_def
    by (intro run_step_forget) (simp_all add: seen_returned sim_load sim_set sim_relocation sim_store, simp add: seen_def)
qed

end
