(* ===== verification/Delivered.thy ===== *)
theory Delivered
  imports Observation Storing
begin

text \<open>
  The program from its first query to its last: what a day that completes has stored. The run is
  observed with a log of the queries (\<open>Observation\<close>).
\<close>

text \<open>
  C3. A day on which every step completes and a tour was found: the thread ends with the five
  codes of success, and every order is the destination of a stored row, which comes from the
  copy before it on the tour. (An order that shares its place with others is stored through the
  rows of that place and is not meant here, except for the depot.)
\<close>

theorem completed_day_is_stored:
  assumes load: "OnLoadDeliveryData (logged A) s = Inr (Inr (), t)" "v_mutual s = []" "v_copy s = []" "p_world s = empty_world"
    and set: "OnSetDeliveryData t = Inr (Inr (), u)"
    and evolves: "\<forall>code. notified (logged A) (p_world u) code \<longrightarrow> (\<exists>c. mv_values c = code
      \<and> evolved (ptr_distance (v_mutual u) (p_world u)) (GaRandomInteger_Generate_max R) B ord (p_world u) c)"
    and lib: "iteration_order ord" "unit_doubles R" "db_domains B = []"
    and n: "2 \<le> length (v_orders t)" "length (v_orders t) < 2 ^ 30"
    and search: "OnSearchDeliveryData (logged A) u = Some (c, s3)" "v_best s3 \<noteq> []"
    and relocation: "OnRelocationDeliveryData s3 = Inr (r, s4)"
    and store: "OnVehicleDataInsert (logged A) s4 = Inr (Inr (), z)"
    and order: "k \<in> set (v_orders t)" "f_accnoDuple (city_of_order k) = []"
  shows "t_function (logged A) s = Some (Inr ([0, 0, 0, 0, 0], z))
    \<and> (\<exists>j sql. j < length (v_copy s4) \<and> stop_query s4 j sql \<and> (1, sql) \<in> set (query_log z)
        \<and> cc_data (v_copy s4 ! (if Suc j = length (v_copy s4) then 0 else Suc j)) = city_of_order k)"
proof
  have found: "search_step (logged A) u s3" "c = 0" using search_search_step [OF search(1)] by simp_all
  from tour_delivered [OF load set evolves lib n found(1) search(2)] relocation
  have r: "r = Inr ()" and copies: "mset (map cc_data (v_copy s4)) = mset (map city_of_order (v_orders t))" by auto
  show "t_function (logged A) s = Some (Inr ([0, 0, 0, 0, 0], z))"
    using load(1) set search(1) relocation store unfolding t_function_Some by (simp add: returned_Inr found(2) r)
  have "city_of_order k \<in> set (map cc_data (v_copy s4))" using mset_eq_setD [OF copies] order(1) by simp
  then obtain i where i: "i < length (v_copy s4)" "cc_data (v_copy s4 ! i) = city_of_order k" by (auto simp: in_set_conv_nth)
  define j where "j = (if i = 0 then length (v_copy s4) - 1 else i - 1)"
  have j: "j < length (v_copy s4)" "(if Suc j = length (v_copy s4) then 0 else Suc j) = i" using i(1) by (auto simp: j_def)
  moreover have "Suc j = length (v_copy s4) \<or> f_accnoDuple (cc_data (v_copy s4 ! Suc j)) = []" using i order(2) by (auto simp: j_def)
  ultimately obtain sql where "stop_query s4 j sql" "(1, sql) \<in> set (query_log z)"
    using stop_stored [OF store j(1)] by blast
  with j i(2) show "\<exists>j sql. j < length (v_copy s4) \<and> stop_query s4 j sql \<and> (1, sql) \<in> set (query_log z)
      \<and> cc_data (v_copy s4 ! (if Suc j = length (v_copy s4) then 0 else Suc j)) = city_of_order k"
    by (intro exI [of _ j] exI [of _ sql]) simp
qed

text \<open>The rehearsed day, observed.\<close>

definition observed_day :: "(row list option list \<times> (nat \<times> string) list) program" where
  "observed_day = sample_program (day_script, [])"

lemma observed_start: "forget observed_day = sample_program day_script" "v_mutual observed_day = []" "v_copy observed_day = []"
  "p_world observed_day = empty_world"
  by (simp_all add: observed_day_def sample_program_def TSPView_new_def forget_def)

theorem completed_day_is_stored_witness:
  "\<exists>(s4 :: (row list option list \<times> (nat \<times> string) list) program) z j sql. t_function (logged tour_api) observed_day = Some (Inr ([0, 0, 0, 0, 0], z))
    \<and> stop_query s4 j sql \<and> (1, sql) \<in> set (query_log z)"
proof -
  obtain t where t: "OnLoadDeliveryData (logged tour_api) observed_day = Inr (Inr (), t)" "forget t = day_loaded"
    using sim_run [OF sim_load, of tour_api observed_day] day_load observed_start(1) by metis
  obtain u where u: "OnSetDeliveryData t = Inr (Inr (), u)" "forget u = day_set"
    using sim_run [OF sim_set, of t] day_set t(2) by metis
  obtain s3 where s3: "OnSearchDeliveryData (logged tour_api) u = Some (0, s3)" "forget s3 = day_found"
    using search_run [of tour_api u] day_search u(2) by metis
  obtain s4 where s4: "OnRelocationDeliveryData s3 = Inr (Inr (), s4)" "forget s4 = day_delivery"
    using sim_run [OF sim_relocation, of s3] day_relocation s3(2) by metis
  obtain z where z: "OnVehicleDataInsert (logged tour_api) s4 = Inr (Inr (), z)"
    using sim_run [OF sim_store, of tour_api s4] day_store s4(2) by metis
  have "p_world day_set = add_orders [day_order, day_order] empty_world" "v_orders day_loaded = [day_order, day_order]"
      "v_best day_found \<noteq> []"
    by (simp_all add: day_set_def day_loaded_def day_ordered_def day_found_def)
  then have w: "p_world u = add_orders [day_order, day_order] empty_world" "v_orders t = [day_order, day_order]" "v_best s3 \<noteq> []"
    unfolding u(2) [symmetric] t(2) [symmetric] s3(2) [symmetric] by simp_all
  have "\<forall>code. notified (logged tour_api) (p_world u) code \<longrightarrow> (\<exists>c. mv_values c = code
      \<and> evolved (ptr_distance (v_mutual u) (p_world u)) (GaRandomInteger_Generate_max sample_raw) sample_block (\<lambda>m. m) (p_world u) c)"
    using day_evolved unfolding w by (auto simp: notified_def logged_def tour_api_def script_api_def)
  moreover have "day_order \<in> set (v_orders t)" "2 \<le> length (v_orders t)" "length (v_orders t) < 2 ^ 30" unfolding w by simp_all
  moreover have "f_accnoDuple (city_of_order day_order) = []" by (simp add: city_of_order_def day_order_def no_text)
  moreover have "db_domains sample_block = []" by (simp add: sample_block_def)
  ultimately obtain j sql where "t_function (logged tour_api) observed_day = Some (Inr ([0, 0, 0, 0, 0], z))"
      "stop_query s4 j sql" "(1, sql) \<in> set (query_log z)"
    using completed_day_is_stored [OF t(1) observed_start(2-4) u(1) _ iteration_order_id sample_unit_doubles _ _ _ s3(1) w(3) s4(1) z, of sample_block day_order]
    by blast
  then show ?thesis by (intro exI [of _ s4] exI [of _ z] exI [of _ j] exI [of _ sql] conjI)
qed

end
