(* ===== verification/Vehicles.thy ===== *)
theory Vehicles
  imports Pipeline
begin

text \<open>
  Step 06 as a whole (\<open>TSPView::OnResearchDeliveryData\<close>): the segments of the delivery, the search of
  each vehicle over its segment, and what the stored routes hold together.
\<close>

section \<open>Segments\<close>

text \<open>The segments of the tour, half open, that end at \<open>bs\<close> when the first starts at \<open>a\<close>.\<close>

fun segments :: "nat \<Rightarrow> nat list \<Rightarrow> (nat \<times> nat) list" where
  "segments a [] = []"
| "segments a (b # bs) = (a, b) # segments b bs"

fun cuts_ok :: "nat \<Rightarrow> nat list \<Rightarrow> nat \<Rightarrow> bool" where
  "cuts_ok a [] n = True"
| "cuts_ok a (b # bs) n \<longleftrightarrow> a < b \<and> b \<le> n \<and> cuts_ok b bs n"

lemma length_segments [simp]: "length (segments a bs) = length bs"
  by (induction bs arbitrary: a) simp_all

lemma cuts_last: "cuts_ok a bs n \<Longrightarrow> a \<le> last (a # bs)"
proof (induction bs arbitrary: a)
  case (Cons b bs)
  then have "b \<le> last (b # bs)" by simp
  with Cons.prems show ?case by auto
qed simp

lemma segments_cover: "cuts_ok a bs n \<Longrightarrow> concat (map (\<lambda>(a, b). [a..<b]) (segments a bs)) = [a..<last (a # bs)]"
proof (induction bs arbitrary: a)
  case (Cons b bs)
  then have "concat (map (\<lambda>(a, b). [a..<b]) (segments b bs)) = [b..<last (b # bs)]" by simp
  with Cons.prems cuts_last [of b bs n] upt_add_eq_append [of a b "last (b # bs) - b"] show ?case by (simp del: last.simps add: last_ConsR)
qed simp

section \<open>Searching a segment\<close>

text \<open>What polling the algorithm leaves as it is, besides what \<open>search_step\<close> says.\<close>

definition vehicle_view :: "'e program \<Rightarrow> VectorMutualData list list \<times> RouteEachResult list list \<times> int list \<times> int \<times> int" where
  "vehicle_view s = (v_mutual s, v_routes s, v_vehicleFlg s, v_searchStart s, v_vehicleNumber s)"

lemma deliver_view: "vehicle_view (fold deliver evs s) = vehicle_view s"
proof (induction evs arbitrary: s)
  case (Cons ev evs)
  then show ?case by (cases ev) (simp_all add: StatisticUpdate_def NewBestChromosome_def vehicle_view_def)
qed simp

lemma poll_view: "vehicle_view (snd (poll A s)) = vehicle_view s"
  using deliver_view [of "fst (api_events A (p_world s) (p_env s))" "s\<lparr>p_env := snd (api_events A (p_world s) (p_env s))\<rparr>"]
  by (simp add: poll_def Let_def split_beta vehicle_view_def)

lemma polled_view: "vehicle_view ((polled A ^^ k) s) = vehicle_view s"
  by (induction k) (simp_all add: polled_def poll_view)

lemma started_and_waited:
  assumes "wait_loop A (start_solving A (smartInit A s)) = Some t"
  shows "search_step A s t \<and> vehicle_view t = vehicle_view s"
proof -
  let ?u = "smartInit A s"
  let ?s = "start_solving A ?u"
  obtain k where t: "t = (polled A ^^ k) ?s"
    using assms by (auto simp: wait_loop_iff simp del: funpow.simps split: if_splits)
  have "search_step A s ?s" using poll_search_step [of A ?u] by (simp add: start_solving_def Let_def split_beta search_step_def smartInit_def)
  moreover have "vehicle_view ?s = vehicle_view s" using poll_view [of A ?u]
    by (simp add: start_solving_def Let_def split_beta vehicle_view_def smartInit_def)
  ultimately show ?thesis unfolding t using search_step_trans polled_search_step polled_view by metis
qed

text \<open>The library notifies only chromosomes it evolved from the cities of the singleton.\<close>

definition evolves :: "'e env_api \<Rightarrow> VectorMutualData list list \<Rightarrow> 'g raw_gen \<Rightarrow> ('op, ptr, 'd) domain_block \<Rightarrow> city_order \<Rightarrow> bool" where
  "evolves A m R B ord \<longleftrightarrow> (\<forall>w code. cities_ok w \<and> no_null w \<and> notified A w code \<longrightarrow> (\<exists>c. mv_values c = code
     \<and> evolved (ptr_distance m w) (GaRandomInteger_Generate_max R) B ord w c))"

text \<open>The table covers the ids of the copies.\<close>

definition ids_covered :: "VectorMutualData list list \<Rightarrow> ChromosomeCopy list \<Rightarrow> bool" where
  "ids_covered m cs \<longleftrightarrow> (\<forall>c \<in> set cs. 1 \<le> cc_id c \<and> cc_id c \<le> int (length m)) \<and> (\<forall>row \<in> set m. length m \<le> length row)"

lemma vehicle_covered:
  assumes m: "ids_covered m cs" and cs: "cs \<noteq> []" "b \<le> length cs"
    and w: "cities_ok w" "no_null w" "w_cities w = []" "w_nextId w = 0"
  shows "matrix_covers m (add_all (vehicle_cities cs a b) w)"
  unfolding matrix_covers_def
proof (intro ballI allI impI)
  let ?es = "vehicle_cities cs a b"
  let ?w = "add_all ?es w"
  fix p q x y assume pq: "p \<in> snd ` set (w_cities ?w)" "q \<in> snd ` set (w_cities ?w)" and xy: "deref ?w p = Inr x" "deref ?w q = Inr y"
  have set: "snd ` set (w_cities ?w) = (\<lambda>i. Some (w_fresh w + i)) ` {0..<length ?es}"
    using add_all_ok [OF w(1,2), of ?es] w(3) by force
  have ids: "1 \<le> snd (?es ! i) \<and> snd (?es ! i) \<le> int (length m)" if "i < length ?es" for i
  proof -
    have "?es ! i \<in> set ?es" using that by simp
    moreover have "cs ! 0 \<in> set cs" "k < b \<Longrightarrow> cs ! k \<in> set cs" for k using cs by auto
    ultimately show ?thesis using m unfolding vehicle_cities_def ids_covered_def by fastforce
  qed
  obtain i j where "i < length ?es" "j < length ?es" "p = Some (w_fresh w + i)" "q = Some (w_fresh w + j)"
    using pq unfolding set by auto
  then have "1 \<le> city_originId x \<and> city_originId x \<le> int (length m)" "1 \<le> city_originId y \<and> city_originId y \<le> int (length m)"
    using add_all_city [OF w, of _ ?es] xy ids by auto
  moreover from this have "m ! nat (city_originId x - 1) \<in> set m" by (intro nth_mem) linarith
  then have "length m \<le> length (m ! nat (city_originId x - 1))" using m by (simp add: ids_covered_def)
  ultimately show "case matrix_index x y of (i, j) \<Rightarrow> 0 \<le> i \<and> i < int (length m) \<and> 0 \<le> j \<and> j < int (length (m ! nat i))"
    by (simp add: matrix_index_def)
qed

text \<open>A route over a segment: nothing, when no tour was notified, or the depot and the segment.\<close>

definition route_holds :: "ChromosomeCopy list \<Rightarrow> nat \<Rightarrow> nat \<Rightarrow> RouteEachResult list \<Rightarrow> bool" where
  "route_holds cs a b r \<longleftrightarrow> r = [] \<or> mset (map re_data r)
     = add_mset (depot_fields (cc_data (cs ! 0))) (mset (map (\<lambda>i. cc_data (cs ! i)) [a..<b]))"

lemma stored_tour:
  assumes w: "cities_ok w" "no_null w" "w_cities w = []" "w_nextId w = 0"
    and best: "mset best = mset (map snd (w_cities (add_all (vehicle_cities cs a b) w)))"
    and r: "rmap (\<lambda>p. rbind (deref (add_all (vehicle_cities cs a b) w) p) (\<lambda>c. Inr (route_of_city c))) best = Inr r"
  shows "route_holds cs a b r"
proof -
  let ?es = "vehicle_cities cs a b"
  let ?w = "add_all ?es w"
  define data where "data = (\<lambda>p. city_data (case deref ?w p of Inr c \<Rightarrow> c))"
  have same: "map re_data r = map data best"
  proof (rule nth_equalityI)
    show "length (map re_data r) = length (map data best)" using rmap_length [OF r] by simp
    fix i assume "i < length (map re_data r)"
    with rmap_length [OF r] rmap_nth [OF r, of i] show "map re_data r ! i = map data best ! i"
      by (auto simp: rbind_eq_Inr data_def route_of_city_def) (metis RouteEachResult.select_convs(2))
  qed
  have cs: "map snd (w_cities ?w) = map (\<lambda>i. Some (w_fresh w + i)) [0..<length ?es]"
    using add_all_ok [OF w(1,2), of ?es] w(3) by simp
  have "mset (map data best) = image_mset data (mset best)" by simp
  also have "\<dots> = mset (map (\<lambda>i. data (Some (w_fresh w + i))) [0..<length ?es])" unfolding best cs by (simp add: o_def flip: mset_map)
  also have "map (\<lambda>i. data (Some (w_fresh w + i))) [0..<length ?es] = map fst ?es"
    by (rule nth_equalityI) (use add_all_city [OF w, of _ ?es] in \<open>simp_all add: data_def\<close>)
  finally show ?thesis unfolding same [symmetric] by (simp add: route_holds_def vehicle_cities_def o_def)
qed

text \<open>What the search of a vehicle relies on, apart from its segment.\<close>

definition vehicle_ready :: "'e env_api \<Rightarrow> 'g raw_gen \<Rightarrow> ('op, ptr, 'd) domain_block \<Rightarrow> city_order \<Rightarrow> 'e program \<Rightarrow> bool" where
  "vehicle_ready A R B ord s \<longleftrightarrow> evolves A (v_mutual s) R B ord \<and> iteration_order ord \<and> unit_doubles R \<and> db_domains B = []
     \<and> ids_covered (v_mutual s) (v_copy s) \<and> cities_ok (p_world s) \<and> no_null (p_world s) \<and> v_copy s \<noteq> []
     \<and> length (v_copy s) + 1 < 2 ^ 30"

lemma vehicle_routed:
  assumes ready: "vehicle_ready A R B ord s" and ab: "a < b" "b \<le> length (v_copy s)"
    and search: "routeBestSearch A (int a) (int b - 1) s = Inr s1" and wait: "wait_loop A s1 = Some s2"
    and store: "store_route (int (length (v_routes s))) s2 = Inr s3"
  shows "vehicle_ready A R B ord s3 \<and> v_copy s3 = v_copy s \<and> v_vehicleFlg s3 = v_vehicleFlg s
    \<and> (\<exists>r. v_routes s3 = v_routes s @ [r] \<and> route_holds (v_copy s) a b r)"
proof -
  have w: "cities_ok (p_world s)" "no_null (p_world s)" "v_copy s \<noteq> []" using ready by (simp_all add: vehicle_ready_def)
  have best: "v_best s \<noteq> []"
  proof
    assume "v_best s = []"
    moreover obtain w1 where "Clear (p_world s) = Inr w1" using Clear_ok [OF w(1,2)] by blast
    ultimately have "routeBestSearch A (int a) (int b - 1) s = Inl OutOfBounds" by (simp add: routeBestSearch_def Let_def vget_def)
    with search show False by simp
  qed
  have n: "1 + int (b - a) < 2 ^ 30" using ready ab by (simp add: vehicle_ready_def)
  then have range: "int_range (1 + int (b - a))" by (simp add: int_range_def)
  obtain x where x: "s1 = start_solving A (smartInit A (vehicle_start a b x s))" "cities_ok x" "no_null x" "w_cities x = []" "w_nextId x = 0"
    using vehicle_started [OF w(1,2) best w(3) less_imp_le [OF ab(1)] ab(2) range, of A] search by auto
  let ?s = "vehicle_start a b x s" and ?w = "add_all (vehicle_cities (v_copy s) a b) x"
  have s2: "search_step A ?s s2" "vehicle_view s2 = vehicle_view ?s" using started_and_waited wait unfolding x(1) by blast+
  have ok: "cities_ok ?w" "no_null ?w" using add_all_ok [OF x(2,3)] by blast+
  have f: "p_world s2 = ?w" "v_copy s2 = v_copy s" "v_mutual s2 = v_mutual s" "v_routes s2 = v_routes s" "v_vehicleFlg s2 = v_vehicleFlg s"
    using s2 by (simp_all add: search_step_def vehicle_view_def vehicle_start_def)
  from store obtain r where r: "rmap (\<lambda>p. rbind (deref ?w p) (\<lambda>c. Inr (route_of_city c))) (v_best s2) = Inr r"
    and s3: "s3 = s2\<lparr>v_routes := v_routes s @ [r]\<rparr>"
    using f by (auto simp: store_route_def rbind_eq_Inr vset_def list_update_append)
  have "route_holds (v_copy s) a b r"
  proof (cases "v_best s2 = []")
    case True
    with r show ?thesis by (simp add: route_holds_def)
  next
    case False
    then have "notified A ?w (v_best s2)" using s2(1) by (simp add: search_step_def vehicle_start_def)
    then obtain c where c: "mv_values c = v_best s2" "evolved (ptr_distance (v_mutual s) ?w) (GaRandomInteger_Generate_max R) B ord ?w c"
      using ready ok unfolding vehicle_ready_def evolves_def by blast
    have "matrix_covers (v_mutual s) ?w" using vehicle_covered [OF _ w(3) ab(2) x(2-5)] ready by (simp add: vehicle_ready_def)
    moreover have "GetCount ?w = 1 + int (b - a)"
      using add_all_ok [OF x(2,3), of "vehicle_cities (v_copy s) a b"] x(4) by (simp add: GetCount_def vehicle_cities_def)
    ultimately have "is_tour ord ?w c" using evolved_tour [OF c(2) ok] ready n ab(1) by (simp add: vehicle_ready_def)
    then have "mset (v_best s2) = mset (map snd (w_cities ?w))"
      using GetCities_mset ready by (simp add: is_tour_def c(1) vehicle_ready_def del: mset_map)
    from stored_tour [OF x(2-5) this r] show ?thesis .
  qed
  with ready ok f show ?thesis unfolding s3 by (simp add: vehicle_ready_def)
qed

lemma vehicles_routed:
  assumes "research_vehicles A (map int [k..<k + length bs]) s = Some (Inr t)"
    and "vehicle_ready A R B ord s" and "v_searchStart s = int a" and "length (v_routes s) = k" and "cuts_ok a bs (length (v_copy s))"
    and "length pre = k" and "v_vehicleFlg s = pre @ map (\<lambda>b. int b - 1) bs" and "length (v_copy s) + 1 < 2 ^ 30"
  shows "\<exists>rs. v_routes t = v_routes s @ rs \<and> list_all2 (\<lambda>(a, b) r. route_holds (v_copy s) a b r) (segments a bs) rs"
  using assms
proof (induction bs arbitrary: k s a pre)
  case Nil
  then show ?case by simp
next
  case (Cons b bs)
  have up: "map int [k..<k + length (b # bs)] = int k # map int [Suc k..<Suc k + length bs]" by (simp add: upt_rec)
  have stop: "vget (v_vehicleFlg s) (int k) = Inr (int b - 1)" using Cons.prems(6,7) by (simp add: nth_append)
  from Cons.prems(1)[unfolded up] stop Cons.prems(3) obtain s1 s2 s4 where
    s: "routeBestSearch A (int a) (int b - 1) s = Inr s1" "wait_loop A s1 = Some s2"
    and s4: "rbind (store_route (int k) s2) (\<lambda>s3. rbind (vget (v_vehicleFlg s3) (int k)) (\<lambda>stop.
      rbind (chk (stop + 1)) (\<lambda>k. Inr (s3\<lparr>v_searchStart := k\<rparr>)))) = Inr s4"
    and rest: "research_vehicles A (map int [Suc k..<Suc k + length bs]) s4 = Some (Inr t)"
    by (auto simp del: vget_ok split: sum.splits option.splits)
  from s4 obtain s3 where s3: "store_route (int k) s2 = Inr s3" by (auto simp: rbind_eq_Inr)
  have ab: "a < b" "b \<le> length (v_copy s)" "cuts_ok b bs (length (v_copy s))" using Cons.prems(5) by auto
  from vehicle_routed [OF Cons.prems(2) ab(1,2) s] s3 Cons.prems(4) obtain r where
    ready: "vehicle_ready A R B ord s3" "v_copy s3 = v_copy s" "v_vehicleFlg s3 = v_vehicleFlg s"
    and r: "v_routes s3 = v_routes s @ [r]" "route_holds (v_copy s) a b r" by auto
  have s4': "s4 = s3\<lparr>v_searchStart := int b\<rparr>" using s4 s3 stop ready(3) by (auto simp: rbind_eq_Inr)
  have f: "vehicle_ready A R B ord s4" "v_searchStart s4 = int b" "length (v_routes s4) = Suc k" "cuts_ok b bs (length (v_copy s4))"
      "length (pre @ [int b - 1]) = Suc k" "v_vehicleFlg s4 = (pre @ [int b - 1]) @ map (\<lambda>b. int b - 1) bs" "length (v_copy s4) + 1 < 2 ^ 30"
    using ready r ab(3) Cons.prems(4,6-8) by (simp_all add: s4' vehicle_ready_def)
  from Cons.IH [OF rest f] obtain rs where "v_routes t = v_routes s4 @ rs"
    "list_all2 (\<lambda>(a, b) r. route_holds (v_copy s4) a b r) (segments b bs) rs" by blast
  with r ready show ?case by (intro exI [of _ "r # rs"]) (simp add: s4')
qed

text \<open>What routes hold together that each hold something.\<close>

lemma routes_together:
  assumes "list_all2 (\<lambda>(a, b) r. route_holds cs a b r) (segments a bs) rs" and "[] \<notin> set rs" and "cuts_ok a bs n"
  shows "mset (map re_data (concat rs)) = replicate_mset (length bs) (depot_fields (cc_data (cs ! 0)))
    + mset (map (\<lambda>i. cc_data (cs ! i)) [a..<last (a # bs)])"
proof -
  have "mset (map re_data (concat rs)) = replicate_mset (length bs) (depot_fields (cc_data (cs ! 0)))
      + mset (map (\<lambda>i. cc_data (cs ! i)) (concat (map (\<lambda>(a, b). [a..<b]) (segments a bs))))"
    using assms(1,2)
  proof (induction bs arbitrary: a rs)
    case (Cons b bs)
    then obtain r rs' where rs: "rs = r # rs'" "route_holds cs a b r"
      "list_all2 (\<lambda>(a, b) r. route_holds cs a b r) (segments b bs) rs'" by (auto simp: list_all2_Cons1)
    moreover from this have "r \<noteq> []" using Cons.prems(2) by auto
    ultimately show ?case using Cons.IH [OF rs(3)] Cons.prems(2) by (simp add: route_holds_def)
  qed simp
  then show ?thesis unfolding segments_cover [OF assms(3)] .
qed

section \<open>The routes of the vehicles\<close>


text \<open>A delivery of three stops searched for one vehicle, by an algorithm that notifies the tour it drew.\<close>

definition drawing_api :: "unit env_api" where
  "drawing_api = \<lparr>api_connect = (\<lambda>c e. (True, e)), api_query = (\<lambda>c q e. (None, e)),
     api_set_criteria = (\<lambda>n e. e), api_start = (\<lambda>b w e. e), api_state = (\<lambda>e. (GAS_CRITERIA_STOPPED, e)),
     api_events = (\<lambda>w e. (case TspChromosome_MakeNewFromPrototype (GaRandomInteger_Generate_max sample_raw) (\<lambda>m. m) w sample_tour 0 of
        Inl f \<Rightarrow> [] | Inr (c, g) \<Rightarrow> [BestEvent (mv_values c) (Num 0)], e))\<rparr>"

definition one_vehicle :: "unit program" where
  "one_vehicle = (sample_program ())\<lparr>p_world := sample_world, v_best := [Some 0], v_mutual := sample_matrix,
     v_copy := map (\<lambda>k. \<lparr>cc_id = k, cc_originId = None, cc_data = sample_fields\<rparr>) [1, 3, 2],
     v_vehicleNumber := 1, v_vehicleFlg := [2]\<rparr>"

lemma drawing_polls: "poll drawing_api s = (GAS_CRITERIA_STOPPED, fold deliver (fst (api_events drawing_api (p_world s) ())) s)"
  by (cases s) (simp add: poll_def drawing_api_def Let_def)

lemma drawing_evolves: "evolves drawing_api m sample_raw sample_block (\<lambda>m. m)"
  unfolding evolves_def
proof (intro allI impI)
  fix w code assume "cities_ok w \<and> no_null w \<and> notified drawing_api w code"
  then obtain c g where c: "TspChromosome_MakeNewFromPrototype (GaRandomInteger_Generate_max sample_raw) (\<lambda>m. m) w sample_tour 0 = Inr (c, g)"
    "code = mv_values c"
    by (auto simp: notified_def drawing_api_def split: sum.splits) metis
  from evolved.evolved_new [OF c(1)] c(2) show "\<exists>c. mv_values c = code
      \<and> evolved (ptr_distance m w) (GaRandomInteger_Generate_max sample_raw) sample_block (\<lambda>m. m) w c" by blast
qed

lemma drawing_draws:
  assumes "2 \<le> length (w_cities w)" "length (w_cities w) < 2 ^ 30"
  shows "\<exists>code. fst (api_events drawing_api w e) = [BestEvent code (Num 0)] \<and> mset code = mset (map snd (w_cities w))"
proof -
  have "in_range_gen (GaRandomInteger_Generate_max sample_raw) (int (length (GetCities (\<lambda>m. m) w)) - 1)"
    using assms by (intro Generate_max_in_range_gen [OF sample_unit_doubles]) (auto simp: GetCities_def)
  then obtain c g where "TspChromosome_MakeNewFromPrototype (GaRandomInteger_Generate_max sample_raw) (\<lambda>m. m) w sample_tour 0 = Inr (c, g)"
    "is_tour (\<lambda>m. m) w c" using new_tour [of "\<lambda>m. m" w "GaRandomInteger_Generate_max sample_raw" sample_tour 0] by blast
  then show ?thesis by (simp add: drawing_api_def is_tour_def GetCities_def)
qed

lemma one_vehicle_ready: "vehicle_ready drawing_api sample_raw sample_block (\<lambda>m. m) one_vehicle"
  using drawing_evolves sample_world_ok
  by (simp add: vehicle_ready_def one_vehicle_def sample_unit_doubles sample_block_def ids_covered_def sample_matrix_def)

lemma one_vehicle_run: "\<exists>t. OnResearchDeliveryData drawing_api one_vehicle = Some (Inr (0, t)) \<and> [] \<notin> set (v_routes t)"
proof -
  let ?A = drawing_api
  let ?s0 = "smartInit ?A (one_vehicle\<lparr>p_generationLimit := 70000\<rparr>)"
  obtain c0 where c0: "fst (api_events ?A sample_world ()) = [BestEvent c0 (Num 0)]" "mset c0 = mset (map snd (w_cities sample_world))"
    using drawing_draws [of sample_world "()"] by (auto simp: sample_world_cities)
  define u where "u = deliver (BestEvent c0 (Num 0)) ?s0"
  have u: "poll ?A ?s0 = (GAS_CRITERIA_STOPPED, u)" using c0(1) by (simp add: drawing_polls u_def smartInit_def one_vehicle_def)
  let ?v = "u\<lparr>v_searchStart := 1, v_routes := []\<rparr>"
  have v: "p_world ?v = sample_world" "v_best ?v = c0" "length (v_copy ?v) = 3" "v_vehicleFlg ?v = [2]" "v_vehicleNumber u = 1"
    by (simp_all add: u_def NewBestChromosome_def smartInit_def one_vehicle_def)
  have ne: "v_best ?v \<noteq> []" "v_copy ?v \<noteq> []" using c0(2) v by (auto simp: sample_world_cities)
  obtain w where w: "routeBestSearch ?A (int 1) (int 3 - 1) ?v = Inr (start_solving ?A (smartInit ?A (vehicle_start 1 3 w ?v)))"
    "cities_ok w" "no_null w" "w_cities w = []" "w_nextId w = 0"
    using vehicle_started [of ?v 1 3 ?A] ne v sample_world_ok by (auto simp: int_range_def)
  let ?W = "add_all (vehicle_cities (v_copy ?v) 1 3) w" and ?s1 = "start_solving ?A (smartInit ?A (vehicle_start 1 3 w ?v))"
  have W: "cities_ok ?W" "no_null ?W" "length (w_cities ?W) = 3"
    using add_all_ok [OF w(2,3), of "vehicle_cities (v_copy ?v) 1 3"] w(4) by (simp_all add: vehicle_cities_def)
  then obtain c1 where c1: "fst (api_events ?A ?W ()) = [BestEvent c1 (Num 0)]" "mset c1 = mset (map snd (w_cities ?W))"
    using drawing_draws [of ?W "()"] by auto
  define s2 where "s2 = deliver (BestEvent c1 (Num 0)) ?s1"
  have world: "p_world ?s1 = ?W" by (simp add: start_solving_keeps smartInit_def vehicle_start_def)
  then have p: "poll ?A ?s1 = (GAS_CRITERIA_STOPPED, s2)" using c1(1) by (simp add: drawing_polls s2_def)
  then have wait: "wait_loop ?A ?s1 = Some s2" by (subst wait_loop_step) (simp add: stopped_after_def polled_def)
  have s2: "search_step ?A (vehicle_start 1 3 w ?v) s2" "vehicle_view s2 = vehicle_view (vehicle_start 1 3 w ?v)"
    using started_and_waited [OF wait] by blast+
  then have f: "p_world s2 = ?W" "v_routes s2 = []" "v_vehicleFlg s2 = [2]"
    using v by (simp_all add: search_step_def vehicle_view_def vehicle_start_def)
  have best: "v_best s2 = c1" by (simp add: s2_def NewBestChromosome_def)
  have "\<exists>x. deref ?W q = Inr x" if "q \<in> set c1" for q
    using cities_deref [OF W(1,2), of q] mset_eq_setD [OF c1(2)] that by auto
  then obtain city where "\<forall>q \<in> set c1. deref ?W q = Inr (city q)" by metis
  then have "store_route 0 s2 = Inr (s2\<lparr>v_routes := [map (\<lambda>q. route_of_city (city q)) c1]\<rparr>)"
    using rmap_Inr [of c1 "\<lambda>q. rbind (deref ?W q) (\<lambda>c. Inr (route_of_city c))" "\<lambda>q. route_of_city (city q)"] f best
    by (simp add: store_route_def vset_def)
  moreover have "c1 \<noteq> []" using c1(2) W(3) by auto
  ultimately show ?thesis using u v w(1) wait f by (simp add: OnResearchDeliveryData_def Let_def chk_def int_range_def)
qed


end
