(* ===== verification/CityDirectory.thy ===== *)
theory CityDirectory
  imports Cities
begin

text \<open>
  The singleton of cities against an abstract directory: which ids have a city, which ids have been
  spoilt by removing them without need, and how many cities were lost. The refinement covers
  every sequence of the operations of \<open>TspCities\<close>, the null entries of \<open>RemoveCity\<close> included.
\<close>

section \<open>The abstract directory\<close>

record city_directory =
  cd_next :: int
  cd_city :: "int \<rightharpoonup> TspCity"
  cd_spoilt :: "int set"
  cd_lost :: nat

datatype city_call =
  CallAdd city_fields | CallAddExt city_fields int | CallRemove int | CallFind int | CallCount | CallClear

datatype city_answer = Done | Removed bool | Found "TspCity option" | Counted int

text \<open>A city added under a spoilt id cannot be found, and its memory is lost.\<close>

definition dir_add :: "city_fields \<Rightarrow> int \<Rightarrow> city_directory \<Rightarrow> (city_answer \<times> city_directory) res" where
  "dir_add d orig s =
     (let i = cd_next s + 1
      in if \<not> int_range i then Inl IntOverflow
         else Inr (Done, if i \<in> cd_spoilt s then s\<lparr>cd_next := i, cd_lost := Suc (cd_lost s)\<rparr>
           else s\<lparr>cd_next := i, cd_city := (cd_city s)(i \<mapsto> \<lparr>city_id = i, city_originId = orig, city_data = d\<rparr>)\<rparr>))"

fun dir_step :: "city_call \<Rightarrow> city_directory \<Rightarrow> (city_answer \<times> city_directory) res" where
  "dir_step (CallAdd d) s = dir_add d 0 s"
| "dir_step (CallAddExt d orig) s = dir_add d orig s"
| "dir_step (CallRemove k) s =
     Inr (if cd_city s k = None then (Removed False, s\<lparr>cd_spoilt := insert k (cd_spoilt s)\<rparr>)
          else (Removed True, s\<lparr>cd_city := (cd_city s)(k := None)\<rparr>))"
| "dir_step (CallFind k) s = Inr (Found (cd_city s k), s)"
| "dir_step CallCount s = Inr (Counted (int (card (dom (cd_city s)) + card (cd_spoilt s))), s)"
| "dir_step CallClear s = Inr (Done, s\<lparr>cd_city := Map.empty, cd_spoilt := {}\<rparr>)"

section \<open>The calls of the singleton\<close>

fun city_step :: "city_call \<Rightarrow> world \<Rightarrow> (city_answer \<times> world) res" where
  "city_step (CallAdd d) w = rbind (AddCity d w) (\<lambda>w'. Inr (Done, w'))"
| "city_step (CallAddExt d orig) w = rbind (AddCityExt d orig w) (\<lambda>w'. Inr (Done, w'))"
| "city_step (CallRemove k) w = rbind (RemoveCity k w) (\<lambda>(b, w'). Inr (Removed b, w'))"
| "city_step (CallFind k) w =
     (case GetCityById w k of None \<Rightarrow> Inr (Found None, w) | Some a \<Rightarrow> rbind (deref w (Some a)) (\<lambda>c. Inr (Found (Some c), w)))"
| "city_step CallCount w = Inr (Counted (GetCount w), w)"
| "city_step CallClear w = rbind (Clear w) (\<lambda>w'. Inr (Done, w'))"

fun city_calls :: "('c \<Rightarrow> 's \<Rightarrow> ('a \<times> 's) res) \<Rightarrow> 'c list \<Rightarrow> 's \<Rightarrow> ('a list \<times> 's) res" where
  "city_calls step [] s = Inr ([], s)"
| "city_calls step (c # cs) s =
     rbind (step c s) (\<lambda>(a, t). rbind (city_calls step cs t) (\<lambda>(as, u). Inr (a # as, u)))"

section \<open>The simulation\<close>

text \<open>What the entry of an id stands for.\<close>

definition entry_of :: "world \<Rightarrow> city_directory \<Rightarrow> int \<Rightarrow> bool" where
  "entry_of w s k \<longleftrightarrow>
     (case hm_find (w_cities w) k of
        None \<Rightarrow> cd_city s k = None \<and> k \<notin> cd_spoilt s
      | Some None \<Rightarrow> cd_city s k = None \<and> k \<in> cd_spoilt s
      | Some (Some a) \<Rightarrow> k \<notin> cd_spoilt s \<and> k \<le> w_nextId w \<and> cd_city s k \<noteq> None \<and> cd_city s k = w_heap w a
          \<and> (\<forall>c. w_heap w a = Some c \<longrightarrow> city_id c = k))"

definition directs :: "world \<Rightarrow> city_directory \<Rightarrow> bool" where
  "directs w s \<longleftrightarrow> hm_inv (w_cities w) \<and> w_nextId w = cd_next s \<and> (\<forall>k. entry_of w s k)
     \<and> (\<forall>a \<ge> w_fresh w. w_heap w a = None) \<and> card (dom (w_heap w)) = card (dom (cd_city s)) + cd_lost s"

lemma directs_finite:
  assumes "directs w s"
  shows "finite (dom (w_heap w))" "finite (dom (cd_city s))" "finite (cd_spoilt s)"
    "dom (hm_find (w_cities w)) = dom (cd_city s) \<union> cd_spoilt s" "dom (cd_city s) \<inter> cd_spoilt s = {}"
proof -
  have "dom (w_heap w) \<subseteq> {..<w_fresh w}" using assms by (force simp: directs_def not_le [symmetric])
  then show "finite (dom (w_heap w))" by (rule finite_subset) simp
  have e: "entry_of w s k" for k using assms by (simp add: directs_def)
  show d: "dom (hm_find (w_cities w)) = dom (cd_city s) \<union> cd_spoilt s"
  proof (intro set_eqI)
    show "k \<in> dom (hm_find (w_cities w)) \<longleftrightarrow> k \<in> dom (cd_city s) \<union> cd_spoilt s" for k
      using e [of k] by (auto simp: entry_of_def split: option.splits)
  qed
  have "finite (dom (hm_find (w_cities w)))" using assms hm_size_card [of "w_cities w"] by (simp add: directs_def)
  then show "finite (dom (cd_city s))" "finite (cd_spoilt s)" unfolding d by simp_all
  show "dom (cd_city s) \<inter> cd_spoilt s = {}"
  proof (intro equals0I)
    fix k assume "k \<in> dom (cd_city s) \<inter> cd_spoilt s"
    with e [of k] show False by (auto simp: entry_of_def split: option.splits)
  qed
qed

lemma card_dom_erase: "finite (dom f) \<Longrightarrow> f k = Some v \<Longrightarrow> Suc (card (dom (f(k := None)))) = card (dom f)"
  by (metis card_Suc_Diff1 domI dom_fun_upd)

lemma directs_count:
  assumes "directs w s"
  shows "GetCount w = int (card (dom (cd_city s)) + card (cd_spoilt s))"
proof -
  have "length (w_cities w) = card (dom (cd_city s) \<union> cd_spoilt s)"
    using assms hm_size_card [of "w_cities w"] directs_finite(4) [OF assms] by (simp add: directs_def)
  with directs_finite [OF assms] show ?thesis by (simp add: GetCount_def card_Un_disjoint)
qed

lemma directs_added:
  assumes w: "directs w s" and i: "int_range (cd_next s + 1)"
  shows "\<exists>s'. dir_add d orig s = Inr (Done, s') \<and> directs (added d orig w) s'"
proof -
  let ?i = "cd_next s + 1" and ?a = "w_fresh w"
  have n: "w_nextId w = cd_next s" "w_heap w ?a = None" using w by (simp_all add: directs_def)
  have e: "entry_of w s k" for k using w by (simp add: directs_def)
  have new: "cd_city s ?i = None" using e [of ?i] n by (auto simp: entry_of_def split: option.splits)
  have find: "hm_find (w_cities (added d orig w)) k
      = (if k = ?i \<and> ?i \<notin> cd_spoilt s then Some (Some ?a) else hm_find (w_cities w) k)" for k
    using e [of ?i] new n by (auto simp: added_def Let_def hm_find_insert entry_of_def split: option.splits)
  have inv: "hm_inv (w_cities (added d orig w))" using w by (simp add: directs_def added_def Let_def hm_inv_insert)
  have fresh: "w_heap (added d orig w) b = None" if "w_fresh (added d orig w) \<le> b" for b
    using w that by (simp add: directs_def added_def Let_def)
  have heap: "card (dom (w_heap (added d orig w))) = Suc (card (dom (w_heap w)))"
    using directs_finite(1) [OF w] n(2) by (simp add: added_def Let_def card_insert_if domIff)
  define s' where "s' = (if ?i \<in> cd_spoilt s then s\<lparr>cd_next := ?i, cd_lost := Suc (cd_lost s)\<rparr>
    else s\<lparr>cd_next := ?i, cd_city := (cd_city s)(?i \<mapsto> \<lparr>city_id = ?i, city_originId = orig, city_data = d\<rparr>)\<rparr>)"
  have old: "w_heap (added d orig w) b = w_heap w b" if "hm_find (w_cities w) k = Some (Some b)" for k b
    using e [of k] that n(2) by (auto simp: entry_of_def added_def Let_def)
  have "entry_of (added d orig w) s' k" for k
    using e [of k] find [of k] old [of k] n new
    by (auto simp: entry_of_def s'_def added_def Let_def split: option.splits)
  moreover have "w_nextId (added d orig w) = cd_next s'" using n by (simp add: added_def Let_def s'_def)
  moreover have "card (dom (w_heap (added d orig w))) = card (dom (cd_city s')) + cd_lost s'"
    using heap w new directs_finite(2) [OF w] by (simp add: s'_def directs_def card_insert_if domIff)
  ultimately have "directs (added d orig w) s'" using inv fresh unfolding directs_def by blast
  with i show ?thesis by (simp add: dir_add_def s'_def Let_def)
qed

lemma directs_removed:
  assumes w: "directs w s"
  shows "\<exists>w'. RemoveCity k w = Inr (cd_city s k \<noteq> None, w')
    \<and> directs w' (if cd_city s k = None then s\<lparr>cd_spoilt := insert k (cd_spoilt s)\<rparr> else s\<lparr>cd_city := (cd_city s)(k := None)\<rparr>)"
proof -
  have e: "entry_of w s j" for j using w by (simp add: directs_def)
  have inv: "hm_inv (w_cities w)" and card: "card (dom (w_heap w)) = card (dom (cd_city s)) + cd_lost s"
    and fresh: "\<And>a. w_fresh w \<le> a \<Longrightarrow> w_heap w a = None" and n: "w_nextId w = cd_next s" using w by (simp_all add: directs_def)
  show ?thesis
  proof (cases "cd_city s k")
    case None
    let ?w = "w\<lparr>w_cities := hm_insert k None (w_cities w)\<rparr>" and ?s = "s\<lparr>cd_spoilt := insert k (cd_spoilt s)\<rparr>"
    have f: "hm_find (hm_insert k None (w_cities w)) j = (if j = k then Some None else hm_find (w_cities w) j)" for j
      using e [of k] None by (auto simp: hm_find_insert entry_of_def split: option.splits)
    have "entry_of ?w ?s j" for j using e [of j] None by (auto simp: entry_of_def f split: option.splits)
    then have "directs ?w ?s" using inv card fresh n by (simp add: directs_def hm_inv_insert)
    with None f [of k] show ?thesis by (simp add: RemoveCity_def Let_def)
  next
    case (Some c)
    then obtain a where a: "hm_find (w_cities w) k = Some (Some a)" "w_heap w a = Some c" "city_id c = k"
      using e [of k] by (auto simp: entry_of_def split: option.splits)
    let ?w = "w\<lparr>w_cities := hm_erase k (w_cities w), w_heap := (w_heap w)(a := None)\<rparr>" and ?s = "s\<lparr>cd_city := (cd_city s)(k := None)\<rparr>"
    have "b \<noteq> a" if "hm_find (w_cities w) j = Some (Some b)" "j \<noteq> k" for j b
      using e [of j] that a by (auto simp: entry_of_def)
    then have "entry_of ?w ?s j" for j using e [of j] e [of k] a Some
      by (cases "j = k") (auto simp: entry_of_def hm_find_erase split: option.splits)
    moreover have "card (dom ((w_heap w)(a := None))) = card (dom ((cd_city s)(k := None))) + cd_lost s"
      using card card_dom_erase [OF directs_finite(1) [OF w] a(2)] card_dom_erase [OF directs_finite(2) [OF w] Some] by linarith
    ultimately have "directs ?w ?s" using inv fresh n by (simp add: directs_def hm_inv_erase)
    moreover have "hm_insert k None (w_cities w) = w_cities w" using a(1) by (simp add: hm_insert_def)
    ultimately show ?thesis using Some a by (simp add: RemoveCity_def Let_def delete_city_def)
  qed
qed

lemma directs_cleared:
  assumes w: "directs w s"
  shows "\<exists>w'. Clear w = Inr w' \<and> directs w' (s\<lparr>cd_city := Map.empty, cd_spoilt := {}\<rparr>)"
proof -
  have inv: "hm_inv (w_cities w)" and card: "card (dom (w_heap w)) = card (dom (cd_city s)) + cd_lost s"
    and e: "\<And>k. entry_of w s k" using w by (simp_all add: directs_def)
  let ?A = "{a. \<exists>k. hm_find (w_cities w) k = Some (Some a)}"
  have found: "hm_find (w_cities w) k = Some p \<longleftrightarrow> (k, p) \<in> set (w_cities w)" for k p by (rule hm_find_Some_iff [OF inv])
  have live: "\<exists>c. w_heap w a = Some c \<and> cd_city s k = Some c \<and> city_id c = k" if "hm_find (w_cities w) k = Some (Some a)" for k a
    using e [of k] that by (auto simp: entry_of_def)
  have once: "k = j" if "hm_find (w_cities w) k = Some (Some a)" "hm_find (w_cities w) j = Some (Some a)" for k j a
    using live [OF that(1)] live [OF that(2)] by auto
  have bij: "bij_betw (\<lambda>a. city_id (the (w_heap w a))) ?A (dom (cd_city s))"
    unfolding bij_betw_def
  proof
    show "inj_on (\<lambda>a. city_id (the (w_heap w a))) ?A"
      using live by (intro inj_onI) (smt (verit) mem_Collect_eq option.inject option.sel)
    show "(\<lambda>a. city_id (the (w_heap w a))) ` ?A = dom (cd_city s)"
    proof (intro equalityI subsetI)
      fix k assume "k \<in> dom (cd_city s)"
      with e [of k] obtain a where "hm_find (w_cities w) k = Some (Some a)" by (auto simp: entry_of_def split: option.splits)
      with live [OF this] show "k \<in> (\<lambda>a. city_id (the (w_heap w a))) ` ?A" by force
    qed (use live in force)
  qed
  have "distinct (w_cities w)" using inv by (simp add: hm_inv_def distinct_map)
  moreover have "inj_on snd (set (filter (\<lambda>e. snd e \<noteq> None) (w_cities w)))" using once found by (intro inj_onI) auto
  moreover have "filter (\<lambda>p. p \<noteq> None) (map snd (w_cities w)) = map snd (filter (\<lambda>e. snd e \<noteq> None) (w_cities w))"
    by (simp add: filter_map comp_def)
  ultimately have "distinct (filter (\<lambda>p. p \<noteq> None) (map snd (w_cities w)))" by (simp only: distinct_map distinct_filter)
  moreover have p: "Some a \<in> set (map snd (w_cities w)) \<longleftrightarrow> a \<in> ?A" for a using found by force
  moreover have "w_heap w a \<noteq> None" if "a \<in> ?A" for a using live that by auto
  ultimately have "Clear w = Inr (w\<lparr>w_heap := \<lambda>a. if a \<in> ?A then None else w_heap w a, w_cities := []\<rparr>)"
    using deleted_live [of "map snd (w_cities w)" w] by (simp add: Clear_def)
  moreover have "dom (\<lambda>a. if a \<in> ?A then None else w_heap w a) = dom (w_heap w) - ?A" by (auto simp: dom_def)
  moreover have "?A \<subseteq> dom (w_heap w)" using live by auto
  ultimately show ?thesis using card bij_betw_same_card [OF bij] directs_finite(1) [OF w] w
    by (auto simp: directs_def entry_of_def hm_inv_def hm_find_def card_Diff_subset finite_subset)
qed

lemma directs_find:
  assumes w: "directs w s"
  shows "city_step (CallFind k) w = Inr (Found (cd_city s k), w)"
proof -
  have "entry_of w s k" using w by (simp add: directs_def)
  then show ?thesis by (auto simp: entry_of_def GetCityById_def deref_def split: option.splits)
qed

lemma directs_step:
  assumes w: "directs w s"
  shows "case dir_step c s of Inl f \<Rightarrow> city_step c w = Inl f
    | Inr (a, s') \<Rightarrow> \<exists>w'. city_step c w = Inr (a, w') \<and> directs w' s'"
proof -
  have n: "w_nextId w = cd_next s" using w by (simp add: directs_def)
  have add: "case dir_add d orig s of Inl f \<Rightarrow> rbind (AddCityExt d orig w) (\<lambda>w'. Inr (Done, w')) = Inl f
    | Inr (a, s') \<Rightarrow> \<exists>w'. rbind (AddCityExt d orig w) (\<lambda>w'. Inr (Done, w')) = Inr (a, w') \<and> directs w' s'" for d orig
  proof (cases "int_range (cd_next s + 1)")
    case True
    with directs_added [OF w True, of d orig] n show ?thesis by (auto simp: AddCityExt_eq)
  next
    case False
    with n show ?thesis by (simp add: AddCityExt_eq dir_add_def Let_def)
  qed
  show ?thesis
  proof (cases c)
    case (CallAdd d)
    show ?thesis using add [of d 0] unfolding CallAdd city_step.simps dir_step.simps AddCity_eq AddCityExt_eq .
  next
    case (CallAddExt d orig)
    show ?thesis using add [of d orig] unfolding CallAddExt city_step.simps dir_step.simps .
  next
    case (CallRemove k)
    with directs_removed [OF w, of k] show ?thesis by auto
  next
    case (CallFind k)
    with directs_find [OF w, of k] w show ?thesis by (simp del: city_step.simps)
  next
    case CallCount
    with directs_count [OF w] w show ?thesis by simp
  next
    case CallClear
    with directs_cleared [OF w] show ?thesis by auto
  qed
qed


text \<open>A city is lost when the id it gets was removed before it existed.\<close>

definition empty_directory :: city_directory where
  "empty_directory = \<lparr>cd_next = 0, cd_city = Map.empty, cd_spoilt = {}, cd_lost = 0\<rparr>"

lemma no_cities_directs: "directs no_cities empty_directory"
  by (simp add: directs_def no_cities_def empty_directory_def entry_of_def hm_inv_def hm_find_def)


end
