(* ===== verification/SingleValue.thy ===== *)
theory SingleValue
  imports MultiValue
begin

text \<open>
  \<open>TSP/inc/SingleValueChromosome.h\<close>: chromosomes whose code is one value. The position handed to
  the block is always 0. \<open>TYPE\<close> is a scalar type: a value or backup never written is \<open>None\<close>, and
  reading it is the fault \<open>Uninit\<close>. The last section compares the class with a multi-value
  chromosome whose code has one value.
\<close>

section \<open>Class \<open>GaSingleValueChromosome\<close>\<close>

record 'a single_value = default_chromosome +
  sc_value :: "'a option"
  sc_backup :: "'a option"

definition stored :: "'a option \<Rightarrow> 'a res" where
  "stored v = (case v of None \<Rightarrow> Inl Uninit | Some x \<Rightarrow> Inr x)"

lemma stored_simps [simp]: "stored (Some x) = Inr x" "stored None = Inl Uninit"
  by (simp_all add: stored_def)

lemma stored_eq_Inr [simp]: "stored v = Inr x \<longleftrightarrow> v = Some x"
  by (cases v) auto

definition sc_Flip ::
  "('op, 'a, 'g) domain_block \<Rightarrow> int \<Rightarrow> int \<Rightarrow> 'a single_value \<Rightarrow> 'g \<Rightarrow> ('a single_value \<times> 'g) res" where
  "sc_Flip B start n c g = rbind (random_at B 0 g) (\<lambda>(v, g'). Inr (c\<lparr>sc_value := Some v\<rparr>, g'))"

definition sc_Invert ::
  "('op, 'a, 'g) domain_block \<Rightarrow> int \<Rightarrow> int \<Rightarrow> 'a single_value \<Rightarrow> 'a single_value res" where
  "sc_Invert B start n c =
     rbind (stored (sc_value c)) (\<lambda>v. rbind (inverse_at B 0 v) (\<lambda>w. Inr (c\<lparr>sc_value := Some w\<rparr>)))"

definition sc_base :: "default_chromosome \<Rightarrow> 'a option \<Rightarrow> 'a single_value" where
  "sc_base d v = default_chromosome.extend d \<lparr>sc_value = v, sc_backup = None\<rparr>"

definition sc_new :: "('op, 'a, 'g) domain_block \<Rightarrow> 'a \<Rightarrow> nat \<Rightarrow> 'a single_value res" where
  "sc_new B value block = rbind (GetClosestValue B value 0) (\<lambda>v. Inr (sc_base (default_new block) (Some v)))"

definition sc_new_random :: "('op, 'a, 'g) domain_block \<Rightarrow> nat \<Rightarrow> 'g \<Rightarrow> ('a single_value \<times> 'g) res" where
  "sc_new_random B block g =
     rbind (random_at B 0 g) (\<lambda>(v, g'). Inr (sc_base (default_new block) (Some v), g'))"

definition sc_copy :: "'a single_value \<Rightarrow> bool \<Rightarrow> 'a single_value" where
  "sc_copy c setupOnly =
     sc_base (default_copy (default_chromosome.truncate c) setupOnly) (if setupOnly then None else sc_value c)"

definition sc_MakeNewFromPrototype ::
  "('op, 'a, 'g) domain_block \<Rightarrow> 'a single_value \<Rightarrow> 'g \<Rightarrow> ('a single_value \<times> 'g) res" where
  "sc_MakeNewFromPrototype B c g =
     (let newChromosome = sc_copy c True
      in rbind (random_at B 0 g) (\<lambda>(v, g'). Inr (newChromosome\<lparr>sc_value := Some v\<rparr>, g')))"

definition sc_GetCodeSize :: "'a single_value \<Rightarrow> int" where
  "sc_GetCodeSize c = 1"

definition sc_GetValue :: "'a single_value \<Rightarrow> 'a res" where
  "sc_GetValue c = stored (sc_value c)"

definition sc_SetValue :: "('op, 'a, 'g) domain_block \<Rightarrow> 'a \<Rightarrow> 'a single_value \<Rightarrow> 'a single_value res" where
  "sc_SetValue B value c = rbind (GetClosestValue B value 0) (\<lambda>v. Inr (c\<lparr>sc_value := Some v\<rparr>))"

text \<open>The assignment reads the value of the right-hand side, also when it was never written.\<close>

definition sc_assign :: "'a single_value \<Rightarrow> 'a single_value \<Rightarrow> 'a single_value res" where
  "sc_assign c rhs =
     rbind (stored (sc_value rhs)) (\<lambda>v. Inr (default_assign (c\<lparr>sc_value := Some v\<rparr>) rhs))"

definition sc_equal :: "'a single_value \<Rightarrow> 'a single_value \<Rightarrow> bool res" where
  "sc_equal c d =
     rbind (stored (sc_value c)) (\<lambda>v. rbind (stored (sc_value d)) (\<lambda>w. Inr (v = w)))"

definition sc_PreapareForMutation :: "'a single_value \<Rightarrow> 'a single_value res" where
  "sc_PreapareForMutation c = rbind (stored (sc_value c)) (\<lambda>v. Inr (c\<lparr>sc_backup := Some v\<rparr>))"

definition sc_AcceptMutation :: "'a single_value \<Rightarrow> 'a single_value" where
  "sc_AcceptMutation c = c"

definition sc_RejectMutation :: "'a single_value \<Rightarrow> 'a single_value res" where
  "sc_RejectMutation c = rbind (stored (sc_backup c)) (\<lambda>v. Inr (c\<lparr>sc_value := Some v\<rparr>))"

section \<open>Class \<open>GaSVArithmeticChromosome\<close>\<close>

text \<open>The operators share one shape: \<open>f\<close> is the operation on values (which may fault).\<close>

definition sc_arith ::
  "('op, 'a, 'g) domain_block \<Rightarrow> ('a \<Rightarrow> 'a \<Rightarrow> 'a res) \<Rightarrow> 'a single_value \<Rightarrow> 'a single_value \<Rightarrow> 'a single_value res" where
  "sc_arith B f c rhs =
     (let newChromosome = sc_copy c True
      in rbind (stored (sc_value c)) (\<lambda>x.
         rbind (stored (sc_value rhs)) (\<lambda>y.
         rbind (f x y) (\<lambda>v.
         rbind (GetClosestValue B v 0) (\<lambda>w. Inr (newChromosome\<lparr>sc_value := Some w\<rparr>))))))"

text \<open>Instances for \<open>int\<close> codes.\<close>

definition sc_plus :: "('op, int, 'g) domain_block \<Rightarrow> int single_value \<Rightarrow> int single_value \<Rightarrow> int single_value res" where
  "sc_plus B = sc_arith B (\<lambda>x y. chk (x + y))"

definition sc_minus :: "('op, int, 'g) domain_block \<Rightarrow> int single_value \<Rightarrow> int single_value \<Rightarrow> int single_value res" where
  "sc_minus B = sc_arith B (\<lambda>x y. chk (x - y))"

definition sc_times :: "('op, int, 'g) domain_block \<Rightarrow> int single_value \<Rightarrow> int single_value \<Rightarrow> int single_value res" where
  "sc_times B = sc_arith B (\<lambda>x y. chk (x * y))"

definition sc_divide :: "('op, int, 'g) domain_block \<Rightarrow> int single_value \<Rightarrow> int single_value \<Rightarrow> int single_value res" where
  "sc_divide B = sc_arith B int_div"

definition sc_Midpoint :: "('op, int, 'g) domain_block \<Rightarrow> int single_value \<Rightarrow> int single_value \<Rightarrow> int single_value res" where
  "sc_Midpoint B = sc_arith B (\<lambda>x y. rbind (chk (x + y)) (\<lambda>s. int_div s 2))"

section \<open>Undo of a mutation\<close>

lemma sc_fields [simp]:
  "sc_value (sc_base d v) = v" "sc_backup (sc_base d v) = None"
  "sc_value (sc_copy c b) = (if b then None else sc_value c)" "sc_backup (sc_copy c b) = None"
  "dc_configBlock (sc_copy c b) = dc_configBlock c"
  by (simp_all add: sc_base_def sc_copy_def default_copy_def default_chromosome.defs)

text \<open>Whatever happened to the value between the backup and the undo, the value is restored.\<close>

lemma undo_restores_value:
  assumes "sc_PreapareForMutation c = Inr d"
  shows "\<exists>e'. sc_RejectMutation (e\<lparr>sc_backup := sc_backup d\<rparr>) = Inr e' \<and> sc_value e' = sc_value c"
  using assms by (auto simp: sc_PreapareForMutation_def sc_RejectMutation_def rbind_eq_Inr)

section \<open>Codes built with a block\<close>

text \<open>
  The single-value chromosomes over the block \<open>B\<close>: constructed, copied, drawn from a prototype,
  changed, mutated by flips, combined. Inversion is left out: a value set may invert a member to
  a value that is no member (\<open>inversion_leaves_domain\<close>).
\<close>

inductive over_block :: "('op, 'a, 'g) domain_block \<Rightarrow> 'a single_value \<Rightarrow> bool"
  for B :: "('op, 'a, 'g) domain_block" where
  over_new: "sc_new B v block = Inr c \<Longrightarrow> over_block B c"
| over_new_random: "sc_new_random B block g = Inr (c, g') \<Longrightarrow> over_block B c"
| over_copy: "over_block B c \<Longrightarrow> over_block B (sc_copy c setupOnly)"
| over_prototype: "over_block B c \<Longrightarrow> sc_MakeNewFromPrototype B c g = Inr (d, g') \<Longrightarrow> over_block B d"
| over_set: "over_block B c \<Longrightarrow> sc_SetValue B v c = Inr d \<Longrightarrow> over_block B d"
| over_flip: "over_block B c \<Longrightarrow> sc_Flip B start n c g = Inr (d, g') \<Longrightarrow> over_block B d"
| over_assign: "over_block B c \<Longrightarrow> over_block B rhs \<Longrightarrow> sc_assign c rhs = Inr d \<Longrightarrow> over_block B d"
| over_prepare: "over_block B c \<Longrightarrow> sc_PreapareForMutation c = Inr d \<Longrightarrow> over_block B d"
| over_accept: "over_block B c \<Longrightarrow> over_block B (sc_AcceptMutation c)"
| over_reject: "over_block B c \<Longrightarrow> sc_RejectMutation c = Inr d \<Longrightarrow> over_block B d"
| over_arith: "over_block B c \<Longrightarrow> over_block B rhs \<Longrightarrow> sc_arith B f c rhs = Inr d \<Longrightarrow> over_block B d"

definition valued_in :: "('op, 'a, 'g) domain_block \<Rightarrow> 'a single_value \<Rightarrow> bool" where
  "valued_in B c \<longleftrightarrow> pred_option (in_domain B 0) (sc_value c) \<and> pred_option (in_domain B 0) (sc_backup c)"

lemma closest_is_valued: "lawful_block B \<Longrightarrow> GetClosestValue B v 0 = Inr w \<Longrightarrow> in_domain B 0 w"
  using GetClosestValue_in_domain [of B v 0] by auto

lemmas sc_operations = sc_new_def sc_new_random_def sc_MakeNewFromPrototype_def sc_SetValue_def sc_Flip_def
  sc_assign_def sc_PreapareForMutation_def sc_AcceptMutation_def sc_RejectMutation_def sc_arith_def default_assign_def

lemma over_block_valued: "over_block B c \<Longrightarrow> lawful_block B \<Longrightarrow> valued_in B c"
  by (induction rule: over_block.induct)
    (auto simp: valued_in_def sc_operations Let_def rbind_eq_Inr dest: closest_is_valued random_at_in_domain)

text \<open>
  Over value sets that keep their contract, the value of every single-value chromosome
  built, copied, set, flipped, restored or combined during a run is a member of the value set of
  position 0, once it is written, and so is its backup; the undo of a mutation never brings back
  a foreign value.
\<close>

theorem single_value_in_domain:
  assumes "over_block B c" and "lawful_block B"
  shows "(\<forall>v. sc_value c = Some v \<longrightarrow> in_domain B 0 v) \<and> (\<forall>d. sc_RejectMutation c = Inr d \<longrightarrow> valued_in B d)"
proof -
  have "valued_in B c" using over_block_valued assms by blast
  then show ?thesis by (auto simp: valued_in_def sc_RejectMutation_def rbind_eq_Inr)
qed

lemma over_two_domains:
  "over_block two_domains (sc_base (default_new 0) (Some 7) :: int single_value)"
  by (rule over_new [of _ 0 0]) (simp add: sc_new_def GetClosestValue_def GetValueSet_def two_domains_def domain_index_def constant_set_def)

theorem single_value_in_domain_witness: "in_domain two_domains 0 (7 :: int)"
  using single_value_in_domain [OF over_two_domains two_domains_lawful] by simp

text \<open>Inverting leaves the domain: the set of the value 1, inverted to 0, without the way back.\<close>

definition one_way :: "(unit, int, unit) domain_block" where
  "one_way = \<lparr>pb_parameters = None, ob_fitness = None, ob_comparator = None, ob_mutation = None, ob_crossover = None,
     db_domains = [let s = \<lparr>sv_value = 1, sv_inverted = 0, sv_viceVersa = False\<rparr>
       in Some \<lparr>vs_random = single_random (Pair True) s, vs_inverse = single_inverse s,
            vs_belongs = single_belongs s, vs_closest = single_closest s\<rparr>]\<rparr>"

lemma inversion_leaves_domain:
  "lawful_block one_way"
  "sc_Invert one_way 0 1 (sc_base (default_new 0) (Some 1)) = Inr ((sc_base (default_new 0) (Some 1))\<lparr>sc_value := Some 0\<rparr>)"
  "\<not> in_domain one_way 0 0"
proof -
  show "lawful_block one_way" unfolding lawful_block_def one_way_def Let_def by (simp add: single.ops_lawful)
qed (simp_all add: sc_Invert_def inverse_at_def in_domain_def GetValueSet_def one_way_def domain_index_def
    single_inverse_def single_belongs_def Let_def)

section \<open>A code of one value\<close>

text \<open>The code of a single-value chromosome, written as the vector of a multi-value one.\<close>

definition sc_code :: "'a single_value \<Rightarrow> 'a list res" where
  "sc_code c = rbind (stored (sc_value c)) (\<lambda>v. Inr [v])"

definition mv_code :: "'a multi_value \<Rightarrow> 'a list res" where
  "mv_code m = Inr (mv_values m)"

lemmas one_value = sc_code_def mv_code_def rbind_assoc case_prod_beta Let_def

text \<open>
  C31. A single-value chromosome is a multi-value chromosome with one value: flipping, inverting,
  setting, drawing from a prototype, the operators and the undo of a mutation give the same code,
  the same state of the generator and the same faults, and the comparison gives the same answer.
\<close>

theorem single_value_is_one_value_code:
  assumes "sc_value c = Some x" "mv_values m = [x]" "sc_value d = Some y" "mv_values k = [y]" "mv_backup m = []"
  shows "rbind (sc_Flip B start n c g) (\<lambda>(e, g'). rbind (sc_code e) (\<lambda>vs. Inr (vs, g'))) = mv_Flip B 0 1 (mv_values m) g
    \<and> rbind (sc_Invert B start n c) sc_code = mv_Invert B 0 1 (mv_values m)
    \<and> rbind (sc_SetValue B v c) sc_code = rbind (mv_SetAt B v 0 m) mv_code
    \<and> rbind (sc_MakeNewFromPrototype B c g) (\<lambda>(e, g'). rbind (sc_code e) (\<lambda>vs. Inr (vs, g')))
      = rbind (mv_MakeNewFromPrototype B m g) (\<lambda>(e, g'). rbind (mv_code e) (\<lambda>vs. Inr (vs, g')))
    \<and> rbind (sc_arith B f c d) sc_code = rbind (mv_arith B f m k) mv_code
    \<and> rbind (sc_PreapareForMutation c) (\<lambda>e. rbind (sc_RejectMutation (e\<lparr>sc_value := w\<rparr>)) sc_code)
      = mv_code (RejectMutation ((PreapareForMutation m)\<lparr>mv_values := ws\<rparr>))
    \<and> sc_equal c d = Inr (mv_equal m k) \<and> sc_GetCodeSize c = mv_GetCodeSize m"
proof (intro conjI)
  show "rbind (sc_Flip B start n c g) (\<lambda>(e, g'). rbind (sc_code e) (\<lambda>vs. Inr (vs, g'))) = mv_Flip B 0 1 (mv_values m) g"
    using assms by (simp add: one_value sc_Flip_def mv_Flip_def flip_step_def)
  show "rbind (sc_Invert B start n c) sc_code = mv_Invert B 0 1 (mv_values m)"
    using assms by (simp add: one_value sc_Invert_def mv_Invert_def invert_step_def)
  show "rbind (sc_SetValue B v c) sc_code = rbind (mv_SetAt B v 0 m) mv_code"
    using assms by (simp add: one_value sc_SetValue_def mv_SetAt_def)
  show "rbind (sc_MakeNewFromPrototype B c g) (\<lambda>(e, g'). rbind (sc_code e) (\<lambda>vs. Inr (vs, g')))
      = rbind (mv_MakeNewFromPrototype B m g) (\<lambda>(e, g'). rbind (mv_code e) (\<lambda>vs. Inr (vs, g')))"
    using assms by (simp add: one_value sc_MakeNewFromPrototype_def mv_MakeNewFromPrototype_def)
  show "rbind (sc_arith B f c d) sc_code = rbind (mv_arith B f m k) mv_code"
    using assms by (simp add: one_value sc_arith_def mv_arith_def)
qed (use assms in \<open>simp_all add: one_value sc_PreapareForMutation_def sc_RejectMutation_def PreapareForMutation_def
    RejectMutation_def sc_equal_def mv_equal_def sc_GetCodeSize_def mv_GetCodeSize_def\<close>)

theorem single_value_is_one_value_code_witness:
  "sc_equal (sc_base (default_new 0) (Some 1)) (sc_base (default_new 0) (Some (2 :: int)))
    = Inr (mv_equal ((mv_new 0)\<lparr>mv_values := [1 :: int]\<rparr>) ((mv_new 0)\<lparr>mv_values := [2]\<rparr>))"
proof -
  have "mv_values ((mv_new 0)\<lparr>mv_values := [x :: int]\<rparr>) = [x]" "mv_backup ((mv_new 0)\<lparr>mv_values := [x :: int]\<rparr>) = []" for x
    by (simp_all add: mv_new_def default_chromosome.defs)
  from single_value_is_one_value_code [OF sc_fields(1) this(1) sc_fields(1) this(1) this(2)] show ?thesis
    by (rule conjunct1 [OF conjunct2 [OF conjunct2 [OF conjunct2 [OF conjunct2 [OF conjunct2 [OF conjunct2]]]]]])
qed

end
