(* ===== verification/SortedGroups.thy ===== *)
theory SortedGroups
  imports Parameters
begin

text \<open>
  \<open>TSP/inc/SortedGroup.h\<close>, the result sets of \<open>TSP/inc/PopulationOperations.h\<close> and the refreshing
  of the tracked groups in \<open>TSP/inc/Population.h\<close>. \<open>GaSortedGroup::Add\<close> is compiled; what its
  documentation promises is the predicate \<open>adds_to\<close>, and \<open>reference_Add\<close> shows that it can be kept.
\<close>

section \<open>Class \<open>GaSortedGroup\<close>\<close>

text \<open>\<open>new int[ n ]\<close> leaves its elements indeterminate (\<open>None\<close>); \<open>None\<close> for no array.\<close>

record sorted_group =
  sg_population :: nat
  sg_indices :: "int option list option"
  sg_comparator :: "nat option"
  sg_maxSize :: int
  sg_currentSize :: int
  sg_type :: group_flags

definition group_type :: "group_flags \<Rightarrow> group_flags" where
  "group_type t = (if t = GASGT_NONE then GASGT_OTHER else t)"

definition SortedGroup_new :: "nat \<Rightarrow> int \<Rightarrow> group_flags \<Rightarrow> nat option \<Rightarrow> sorted_group" where
  "SortedGroup_new population maxSize type cmp =
     \<lparr>sg_population = population, sg_indices = (if 0 < maxSize then Some (replicate (nat maxSize) None) else None),
      sg_comparator = cmp, sg_maxSize = maxSize, sg_currentSize = 0, sg_type = group_type type\<rparr>"

definition SortedGroup_new_unsized :: "nat \<Rightarrow> group_flags \<Rightarrow> sorted_group" where
  "SortedGroup_new_unsized population type =
     \<lparr>sg_population = population, sg_indices = None, sg_comparator = None, sg_maxSize = 0, sg_currentSize = 0,
      sg_type = group_type type\<rparr>"

definition SortedGroup_GetAt :: "int \<Rightarrow> sorted_group \<Rightarrow> int res" where
  "SortedGroup_GetAt pos g =
     (case sg_indices g of
        None \<Rightarrow> Inr (- 1)
      | Some xs \<Rightarrow>
          if pos \<ge> sg_currentSize g \<or> pos < 0 then Inr (- 1)
          else rbind (vget xs pos) (\<lambda>v. case v of None \<Rightarrow> Inl Uninit | Some i \<Rightarrow> Inr i))"

text \<open>A group in order: the array has \<open>_maxSize\<close> elements, the first \<open>_currentSize\<close> of them are written.\<close>

definition group_ok :: "sorted_group \<Rightarrow> bool" where
  "group_ok g \<longleftrightarrow> 0 \<le> sg_currentSize g \<and>
     (case sg_indices g of
        None \<Rightarrow> sg_maxSize g \<le> 0 \<and> sg_currentSize g = 0
      | Some xs \<Rightarrow> length xs = nat (sg_maxSize g) \<and> sg_currentSize g \<le> sg_maxSize g
          \<and> None \<notin> set (take (nat (sg_currentSize g)) xs))"

definition members :: "sorted_group \<Rightarrow> int list" where
  "members g = (case sg_indices g of None \<Rightarrow> [] | Some xs \<Rightarrow> map the (take (nat (sg_currentSize g)) xs))"

lemma new_group_ok: "group_ok (SortedGroup_new p n t c)" "group_ok (SortedGroup_new_unsized p t)"
  "members (SortedGroup_new p n t c) = []" "members (SortedGroup_new_unsized p t) = []"
  by (simp_all add: group_ok_def members_def SortedGroup_new_def SortedGroup_new_unsized_def)

lemma length_members: "group_ok g \<Longrightarrow> length (members g) = nat (sg_currentSize g)"
  by (auto simp: group_ok_def members_def split: option.splits)

lemma members_fit: "group_ok g \<Longrightarrow> length (members g) \<le> nat (sg_maxSize g)"
  by (auto simp: length_members group_ok_def split: option.splits)

lemma SortedGroup_GetAt_member:
  assumes "group_ok g"
  shows "SortedGroup_GetAt pos g
    = Inr (if 0 \<le> pos \<and> pos < int (length (members g)) then members g ! nat pos else - 1)"
proof (cases "sg_indices g")
  case None
  then show ?thesis by (simp add: SortedGroup_GetAt_def members_def)
next
  case (Some xs)
  show ?thesis
  proof (cases "0 \<le> pos \<and> pos < sg_currentSize g")
    case True
    with assms Some have "nat pos < length (take (nat (sg_currentSize g)) xs)" by (auto simp: group_ok_def)
    then have "take (nat (sg_currentSize g)) xs ! nat pos \<in> set (take (nat (sg_currentSize g)) xs)" by (rule nth_mem)
    with assms Some True obtain v where "xs ! nat pos = Some v" by (cases "xs ! nat pos") (auto simp: group_ok_def)
    moreover have "sg_currentSize g \<le> int (length xs)" using assms Some by (auto simp: group_ok_def)
    ultimately show ?thesis using Some True by (simp add: SortedGroup_GetAt_def members_def vget_def)
  next
    case False
    with assms Some show ?thesis by (auto simp: SortedGroup_GetAt_def length_members)
  qed
qed

section \<open>Ranking\<close>

text \<open>
  What the groups sort by: the comparator, in the other direction for a group of worst
  chromosomes. \<open>before\<close> is a strict weak order on the chromosomes whose fitness is a number.
\<close>

definition before :: "(cnum \<Rightarrow> cnum \<Rightarrow> int) \<Rightarrow> group_flags \<Rightarrow> (int \<Rightarrow> cnum) \<Rightarrow> int \<Rightarrow> int \<Rightarrow> bool" where
  "before cmp type fit i j \<longleftrightarrow> (if type = GASGT_WORST then cmp (fit j) (fit i) = 1 else cmp (fit i) (fit j) = 1)"

definition ranked :: "(int \<Rightarrow> int \<Rightarrow> bool) \<Rightarrow> int list \<Rightarrow> bool" where
  "ranked bef xs \<longleftrightarrow> sorted_wrt (\<lambda>i j. \<not> bef j i) xs"

text \<open>The documented effect of \<open>Add\<close> on the members, in a group for \<open>k\<close> of them.\<close>

definition adds_member :: "(int \<Rightarrow> int \<Rightarrow> bool) \<Rightarrow> nat \<Rightarrow> int \<Rightarrow> int list \<Rightarrow> int list \<Rightarrow> bool" where
  "adds_member bef k i ms ms' \<longleftrightarrow> (ranked bef ms \<longrightarrow> ranked bef ms') \<and>
     (if i \<in> set ms then ms' = ms
      else if length ms < k then mset ms' = add_mset i (mset ms)
      else if ms \<noteq> [] \<and> bef i (last ms) then mset ms' = add_mset i (mset (butlast ms))
      else ms' = ms)"

text \<open>The \<open>k\<close> best members of \<open>A\<close>, best first.\<close>

definition best_of :: "(int \<Rightarrow> int \<Rightarrow> bool) \<Rightarrow> nat \<Rightarrow> int set \<Rightarrow> int list \<Rightarrow> bool" where
  "best_of bef k A ms \<longleftrightarrow> distinct ms \<and> set ms \<subseteq> A \<and> length ms = min k (card A) \<and> ranked bef ms
     \<and> (\<forall>i \<in> A - set ms. \<forall>j \<in> set ms. \<not> bef i j)"

lemma mset_add: "mset ys = add_mset i (mset xs) \<Longrightarrow> set ys = insert i (set xs) \<and> length ys = Suc (length xs)
    \<and> (distinct ys \<longleftrightarrow> i \<notin> set xs \<and> distinct xs)"
proof -
  assume "mset ys = add_mset i (mset xs)"
  then have "mset ys = mset (i # xs)" by simp
  from mset_eq_setD [OF this] mset_eq_length [OF this] mset_eq_imp_distinct_iff [OF this] show ?thesis by simp
qed

lemma ranked_last: "ranked bef (ys @ [x]) \<Longrightarrow> j \<in> set ys \<Longrightarrow> \<not> bef x j"
  by (auto simp: ranked_def sorted_wrt_append)

locale ranking =
  fixes A :: "int set" and bef :: "int \<Rightarrow> int \<Rightarrow> bool"
  assumes asym: "x \<in> A \<Longrightarrow> y \<in> A \<Longrightarrow> bef x y \<Longrightarrow> \<not> bef y x"
    and weak: "x \<in> A \<Longrightarrow> y \<in> A \<Longrightarrow> z \<in> A \<Longrightarrow> bef x z \<Longrightarrow> bef x y \<or> bef y z"
begin

lemma best_of_all: "finite B \<Longrightarrow> best_of bef k B ms \<Longrightarrow> length ms < k \<Longrightarrow> set ms = B"
  by (auto simp: best_of_def distinct_card card_subset_eq)

lemma added_to_full:
  assumes B: "finite B" "B \<subseteq> A" "i \<in> A" "i \<notin> B" "best_of bef k B (ys @ [x])"
    and full: "k \<le> Suc (length ys)" "bef i x"
    and ms: "mset ms = add_mset i (mset ys)" "ranked bef ms"
  shows "best_of bef k (insert i B) ms"
proof -
  have b: "distinct (ys @ [x])" "set ys \<subseteq> B" "x \<in> B" "Suc (length ys) = min k (card B)" "ranked bef (ys @ [x])"
    "\<And>o' j. o' \<in> B \<Longrightarrow> o' \<notin> set ys \<Longrightarrow> o' \<noteq> x \<Longrightarrow> j = x \<or> j \<in> set ys \<Longrightarrow> \<not> bef o' j"
    using B(5) by (auto simp: best_of_def)
  have m: "set ms = insert i (set ys)" "length ms = Suc (length ys)" "distinct ms"
    using mset_add [OF ms(1)] b(1,2) B(4) by auto
  have "\<not> bef o' j" if "o' \<in> insert i B - set ms" "j \<in> set ms" for o' j
  proof -
    from that m have o: "o' \<in> B" "o' \<notin> set ys" and j: "j = i \<or> j \<in> set ys" by auto
    have "o' \<in> A" "x \<in> A" using o b(3) B(2) by auto
    then show ?thesis using j b(6) [OF o] ranked_last [OF b(5)] asym [of i x] weak [of o' x i] full(2) B(3)
      by (cases "o' = x") blast+
  qed
  moreover have "Suc (length ys) = min k (card (insert i B))" using b(4) full(1) B(1,4) by simp
  ultimately show ?thesis using m b(2) B(2) ms(2) by (auto simp: best_of_def)
qed

lemma added_best_of:
  assumes B: "finite B" "B \<subseteq> A" "i \<in> A" "i \<notin> B" and best: "best_of bef k B ms" and add: "adds_member bef k i ms ms'"
  shows "best_of bef k (insert i B) ms'"
proof -
  have ms: "set ms \<subseteq> B" "distinct ms" "ranked bef ms" "length ms = min k (card B)" using best by (auto simp: best_of_def)
  with add B(4) have r: "ranked bef ms'" "i \<notin> set ms" by (auto simp: adds_member_def)
  consider "length ms < k" | ys x where "ms = ys @ [x]" "k \<le> length ms" "bef i x"
    | "k \<le> length ms" "ms = [] \<or> \<not> bef i (last ms)" by (cases ms rule: rev_cases) fastforce+
  then show ?thesis
  proof cases
    case 1
    then have "mset ms' = add_mset i (mset ms)" using add r(2) by (simp add: adds_member_def)
    from mset_add [OF this] best_of_all [OF B(1) best 1] ms r 1 B show ?thesis by (auto simp: best_of_def)
  next
    case 2
    then have "mset ms' = add_mset i (mset ys)" using add r(2) by (simp add: adds_member_def)
    with added_to_full [OF B(1-4) _ _ 2(3) _ r(1), of k ys] best 2 show ?thesis by simp
  next
    case 3
    then have "ms' = ms" using add r(2) by (simp add: adds_member_def split: if_splits)
    moreover have "\<not> bef i j" if "j \<in> set ms" for j
    proof (cases ms rule: rev_cases)
      case (snoc ys x)
      have A: "j \<in> A" "x \<in> A" using that snoc ms(1) B(2) by auto
      have "j = x \<or> \<not> bef x j" using ranked_last [of bef ys x j] ms(3) that snoc by auto
      with weak [OF B(3) A(2,1)] 3(2) snoc show ?thesis by auto
    qed (use that in simp)
    ultimately show ?thesis using best 3(1) B by (auto simp: best_of_def)
  qed
qed

end

text \<open>On the chromosomes whose fitness is a number, both comparators and both directions rank.\<close>

context comparator
begin

lemma cmp_weak:
  assumes "x \<noteq> FNan" "y \<noteq> FNan" "cmp x z = 1"
  shows "cmp x y = 1 \<or> cmp y z = 1"
  using assms(1,2) by (rule cmp_cases) (use assms(3) cmp_trans [of y x z] in auto)

lemma before_ranks: "ranking {i. fit i \<noteq> FNan} (before cmp type fit)"
proof
  fix x y z assume x: "x \<in> {i. fit i \<noteq> FNan}" and y: "y \<in> {i. fit i \<noteq> FNan}"
  show "before cmp type fit x y \<Longrightarrow> \<not> before cmp type fit y x"
    using cmp_antisym [of "fit x" "fit y"] by (auto simp: before_def split: if_splits)
  assume z: "z \<in> {i. fit i \<noteq> FNan}" and b: "before cmp type fit x z"
  show "before cmp type fit x y \<or> before cmp type fit y z"
    using b cmp_weak [of "fit x" "fit y" "fit z"] cmp_weak [of "fit z" "fit y" "fit x"] x y z
    by (auto simp: before_def split: if_splits)
qed

end

interpretation min_ranks: ranking "{i. fit i \<noteq> FNan}" "before GaMinFitnessComparator type fit" for fit type
  by (rule min_cmp.before_ranks)

interpretation max_ranks: ranking "{i. fit i \<noteq> FNan}" "before GaMaxFitnessComparator type fit" for fit type
  by (rule max_cmp.before_ranks)

section \<open>Refreshing the tracked groups of a population\<close>

text \<open>
  The members of \<open>GaPopulation\<close> that the refreshing uses. \<open>Add\<close> of the group of best or of worst
  chromosomes also changes flags of chromosomes; it is a function of the population and an
  argument here.
\<close>

record 'c population =
  ps_currentSize :: int
  ps_chromosomes :: "'c scaled_chromosome list"
  ps_best :: sorted_group
  ps_worst :: sorted_group

type_synonym 'c add_code = "int \<Rightarrow> 'c population \<Rightarrow> (int \<times> 'c population) res"

definition add_index :: "'c add_code \<Rightarrow> int \<Rightarrow> 'c population \<Rightarrow> 'c population res" where
  "add_index add i p = rbind (add i p) (\<lambda>(position, p'). Inr p')"

definition RefreshBestGroup :: "'c add_code \<Rightarrow> 'c population \<Rightarrow> 'c population res" where
  "RefreshBestGroup add p = rfold (add_index add) [0..ps_currentSize p - 1] p"

definition RefreshWorstGroup :: "'c add_code \<Rightarrow> 'c population \<Rightarrow> 'c population res" where
  "RefreshWorstGroup add p = rfold (add_index add) [0..ps_currentSize p - 1] p"

text \<open>A group whose members are exactly the chromosomes that carry its flag.\<close>

definition tracks :: "('c population \<Rightarrow> sorted_group) \<Rightarrow> 'c population \<Rightarrow> bool" where
  "tracks sel p \<longleftrightarrow> group_ok (sel p) \<and> sg_type (sel p) \<noteq> GASGT_NONE \<and> ps_currentSize p = int (length (ps_chromosomes p))
     \<and> set (members (sel p)) \<subseteq> {0..<ps_currentSize p} \<and> distinct (members (sel p))
     \<and> (\<forall>i < length (ps_chromosomes p).
          GetGroupFlag (sg_type (sel p)) False (ps_chromosomes p ! i) \<longleftrightarrow> int i \<in> set (members (sel p)))"

definition all_numbers :: "('c population \<Rightarrow> int \<Rightarrow> cnum) \<Rightarrow> 'c population \<Rightarrow> bool" where
  "all_numbers fit p \<longleftrightarrow> (\<forall>i \<in> {0..<ps_currentSize p}. fit p i \<noteq> FNan)"

text \<open>The documented contract of \<open>Add\<close>; \<open>fit\<close> is the fitness the compiled code compares.\<close>

definition adds_to ::
  "('c population \<Rightarrow> sorted_group) \<Rightarrow> (cnum \<Rightarrow> cnum \<Rightarrow> int) \<Rightarrow> ('c population \<Rightarrow> int \<Rightarrow> cnum) \<Rightarrow> 'c add_code \<Rightarrow> bool" where
  "adds_to sel cmp fit add \<longleftrightarrow>
     (\<forall>p i. tracks sel p \<and> all_numbers fit p \<and> i \<in> {0..<ps_currentSize p} \<longrightarrow>
       (\<exists>r p'. add i p = Inr (r, p') \<and> tracks sel p' \<and> ps_currentSize p' = ps_currentSize p \<and> fit p' = fit p
          \<and> sg_type (sel p') = sg_type (sel p) \<and> sg_maxSize (sel p') = sg_maxSize (sel p)
          \<and> adds_member (before cmp (sg_type (sel p)) (fit p)) (nat (sg_maxSize (sel p))) i (members (sel p)) (members (sel p'))))"

definition refreshed ::
  "('c population \<Rightarrow> sorted_group) \<Rightarrow> (cnum \<Rightarrow> cnum \<Rightarrow> int) \<Rightarrow> ('c population \<Rightarrow> int \<Rightarrow> cnum) \<Rightarrow> 'c population \<Rightarrow> int \<Rightarrow> 'c population \<Rightarrow> bool" where
  "refreshed sel cmp fit p m q \<longleftrightarrow> tracks sel q \<and> ps_currentSize q = ps_currentSize p \<and> fit q = fit p
     \<and> sg_type (sel q) = sg_type (sel p) \<and> sg_maxSize (sel q) = sg_maxSize (sel p)
     \<and> best_of (before cmp (sg_type (sel p)) (fit p)) (nat (sg_maxSize (sel p))) {0..<m} (members (sel q))"

lemma comparator_ranking: "cmp \<in> {GaMinFitnessComparator, GaMaxFitnessComparator} \<Longrightarrow> ranking {i. fit i \<noteq> FNan} (before cmp type fit)"
  using min_cmp.before_ranks max_cmp.before_ranks by auto

lemma refreshed_step:
  assumes add: "adds_to sel cmp fit add" and cmp: "cmp \<in> {GaMinFitnessComparator, GaMaxFitnessComparator}"
    and num: "all_numbers fit p" and m: "0 \<le> m" "m < ps_currentSize p" and q: "refreshed sel cmp fit p m q"
  shows "\<exists>q'. add_index add m q = Inr q' \<and> refreshed sel cmp fit p (m + 1) q'"
proof -
  have "tracks sel q" "all_numbers fit q" "m \<in> {0..<ps_currentSize q}" using q num m by (auto simp: refreshed_def all_numbers_def)
  with add obtain r q' where q': "add m q = Inr (r, q')" "tracks sel q'" "ps_currentSize q' = ps_currentSize q" "fit q' = fit q"
    "sg_type (sel q') = sg_type (sel q)" "sg_maxSize (sel q') = sg_maxSize (sel q)"
    "adds_member (before cmp (sg_type (sel q)) (fit q)) (nat (sg_maxSize (sel q))) m (members (sel q)) (members (sel q'))"
    unfolding adds_to_def by blast
  have "{0..<m + 1} = insert m {0..<m}" using m by auto
  moreover have "{0..<m} \<subseteq> {i. fit p i \<noteq> FNan}" "m \<in> {i. fit p i \<noteq> FNan}" using num m by (auto simp: all_numbers_def)
  ultimately have "best_of (before cmp (sg_type (sel p)) (fit p)) (nat (sg_maxSize (sel p))) {0..<m + 1} (members (sel q'))"
    using ranking.added_best_of [OF comparator_ranking [OF cmp], of "{0..<m}" "fit p" m] q q'(7) by (auto simp: refreshed_def)
  with q q' show ?thesis by (simp add: add_index_def refreshed_def)
qed

lemma refreshed_prefix:
  assumes "adds_to sel cmp fit add" "cmp \<in> {GaMinFitnessComparator, GaMaxFitnessComparator}" "all_numbers fit p"
    and "tracks sel p" "members (sel p) = []" "int m \<le> ps_currentSize p"
  shows "\<exists>q. rfold (add_index add) [0..int m - 1] p = Inr q \<and> refreshed sel cmp fit p (int m) q"
  using assms(6)
proof (induction m)
  case 0
  show ?case using assms(4,5) by (simp add: refreshed_def best_of_def ranked_def)
next
  case (Suc m)
  then obtain q where q: "rfold (add_index add) [0..int m - 1] p = Inr q" "refreshed sel cmp fit p (int m) q" by auto
  have "[0..int (Suc m) - 1] = [0..int m - 1] @ [int m]" using upto_rec2 [of 0 "int m"] by simp
  with refreshed_step [OF assms(1-3) _ _ q(2)] Suc.prems q(1) show ?case by (auto simp: rfold_append add.commute)
qed

lemma refresh_ok:
  assumes "adds_to sel cmp fit add" "cmp \<in> {GaMinFitnessComparator, GaMaxFitnessComparator}" "all_numbers fit p"
    and "tracks sel p" "members (sel p) = []"
  shows "\<exists>q. rfold (add_index add) [0..ps_currentSize p - 1] p = Inr q \<and> refreshed sel cmp fit p (ps_currentSize p) q"
  using refreshed_prefix [OF assms, of "length (ps_chromosomes p)"] assms(4) by (simp add: tracks_def)

text \<open>
  C26. When \<open>Add\<close> keeps what its documentation promises, refreshing an empty group of best
  chromosomes returns without a fault, and the group then holds the best chromosomes of the
  population, as many as it has room for, each once, sorted with the best first: no chromosome
  outside it ranks before one inside it, and exactly its members carry its flag.
\<close>

theorem refreshed_group_is_best:
  assumes "adds_to ps_best cmp fit add" "cmp \<in> {GaMinFitnessComparator, GaMaxFitnessComparator}" "all_numbers fit p"
    and "tracks ps_best p" "members (ps_best p) = []"
  shows "\<exists>q. RefreshBestGroup add p = Inr q \<and> tracks ps_best q
    \<and> best_of (before cmp (sg_type (ps_best p)) (fit p)) (nat (sg_maxSize (ps_best p))) {0..<ps_currentSize p} (members (ps_best q))"
  using refresh_ok [OF assms] by (auto simp: RefreshBestGroup_def refreshed_def)

lemma refreshed_group_is_worst:
  assumes "adds_to ps_worst cmp fit add" "cmp \<in> {GaMinFitnessComparator, GaMaxFitnessComparator}" "all_numbers fit p"
    and "tracks ps_worst p" "members (ps_worst p) = []"
  shows "\<exists>q. RefreshWorstGroup add p = Inr q \<and> tracks ps_worst q
    \<and> best_of (before cmp (sg_type (ps_worst p)) (fit p)) (nat (sg_maxSize (ps_worst p))) {0..<ps_currentSize p} (members (ps_worst q))"
  using refresh_ok [OF assms] by (auto simp: RefreshWorstGroup_def refreshed_def)

section \<open>An insertion that keeps the contract\<close>

fun rank_insert :: "(int \<Rightarrow> int \<Rightarrow> bool) \<Rightarrow> int \<Rightarrow> int list \<Rightarrow> int list" where
  "rank_insert bef i [] = [i]"
| "rank_insert bef i (x # xs) = (if bef i x then i # x # xs else x # rank_insert bef i xs)"

definition inserted :: "(int \<Rightarrow> int \<Rightarrow> bool) \<Rightarrow> nat \<Rightarrow> int \<Rightarrow> int list \<Rightarrow> int list" where
  "inserted bef k i ms =
     (if i \<in> set ms then ms
      else if length ms < k then rank_insert bef i ms
      else if ms \<noteq> [] \<and> bef i (last ms) then rank_insert bef i (butlast ms)
      else ms)"

definition put_members :: "int list \<Rightarrow> sorted_group \<Rightarrow> sorted_group" where
  "put_members ms g =
     g\<lparr>sg_indices := map_option (\<lambda>xs. map Some ms @ drop (length ms) xs) (sg_indices g), sg_currentSize := int (length ms)\<rparr>"

definition put_flags :: "group_flags \<Rightarrow> int list \<Rightarrow> 'c scaled_chromosome list \<Rightarrow> 'c scaled_chromosome list" where
  "put_flags type ms cs =
     map (\<lambda>k. (if int k \<in> set ms then SetGroupFlags type else ClearGroupFlags type) (cs ! k)) [0..<length cs]"

definition scaled_fitness :: "'c population \<Rightarrow> int \<Rightarrow> cnum" where
  "scaled_fitness p i = (if i \<in> {0..<int (length (ps_chromosomes p))} then sc_scaledFitness (ps_chromosomes p ! nat i) else FNan)"

definition reference_Add :: "(cnum \<Rightarrow> cnum \<Rightarrow> int) \<Rightarrow> 'c add_code" where
  "reference_Add cmp i p =
     (let g = ps_best p; ms = members g;
          ms' = inserted (before cmp (sg_type g) (scaled_fitness p)) (nat (sg_maxSize g)) i ms
      in Inr (if i \<in> set ms \<or> i \<notin> set ms' then - 1 else int (length (takeWhile ((\<noteq>) i) ms')),
              p\<lparr>ps_best := put_members ms' g, ps_chromosomes := put_flags (sg_type g) ms' (ps_chromosomes p)\<rparr>))"

lemma mset_rank_insert: "mset (rank_insert bef i xs) = add_mset i (mset xs)"
  by (induction xs) auto

context ranking
begin

lemma ranked_insert: "ranked bef xs \<Longrightarrow> insert i (set xs) \<subseteq> A \<Longrightarrow> ranked bef (rank_insert bef i xs)"
proof (induction xs)
  case Nil
  then show ?case by (simp add: ranked_def)
next
  case (Cons x xs)
  have set: "set (rank_insert bef i xs) = insert i (set xs)" using mset_add [OF mset_rank_insert] by blast
  show ?case
  proof (cases "bef i x")
    case True
    have "\<not> bef y i" if "y \<in> set xs" for y
      using Cons.prems that True asym [of i x] weak [of y x i] by (auto simp: ranked_def)
    with Cons.prems True asym [of i x] show ?thesis by (auto simp: ranked_def)
  next
    case False
    with Cons set show ?thesis by (auto simp: ranked_def)
  qed
qed

lemma inserted_added:
  assumes "insert i (set ms) \<subseteq> A"
  shows "adds_member bef k i ms (inserted bef k i ms)"
proof -
  have "ranked bef ms \<Longrightarrow> ranked bef (butlast ms)" by (cases ms rule: rev_cases) (auto simp: ranked_def sorted_wrt_append)
  then have "ranked bef ms \<Longrightarrow> ranked bef (inserted bef k i ms)"
    using assms ranked_insert [of ms i] ranked_insert [of "butlast ms" i] in_set_butlastD [of _ ms] by (auto simp: inserted_def)
  then show ?thesis by (auto simp: adds_member_def inserted_def mset_rank_insert)
qed

end

lemma added_members:
  assumes "adds_member bef k i ms ms'" "distinct ms" "length ms \<le> k"
  shows "set ms' \<subseteq> insert i (set ms)" "distinct ms'" "length ms' \<le> k"
proof -
  consider "ms' = ms" | zs where "mset ms' = add_mset i (mset zs)" "i \<notin> set ms" "set zs \<subseteq> set ms" "distinct zs" "length zs < k"
  proof (cases "length ms < k")
    case False
    then have "length (butlast ms) < k \<or> ms = []" using assms(3) by auto
    with False that assms(1,2) in_set_butlastD [of _ ms] distinct_butlast [of ms] show ?thesis
      by (fastforce simp: adds_member_def split: if_splits)
  qed (use that assms(1,2) in \<open>fastforce simp: adds_member_def split: if_splits\<close>)
  then have "set ms' \<subseteq> insert i (set ms) \<and> distinct ms' \<and> length ms' \<le> k"
    by cases (use assms(2,3) mset_add in \<open>fastforce+\<close>)
  then show "set ms' \<subseteq> insert i (set ms)" "distinct ms'" "length ms' \<le> k" by blast+
qed

lemma put_members_ok:
  assumes "group_ok g" "length ms \<le> nat (sg_maxSize g)"
  shows "group_ok (put_members ms g)" "members (put_members ms g) = ms"
  using assms by (auto simp: put_members_def group_ok_def members_def split: option.splits)

lemma put_flags_ok:
  assumes "type \<noteq> GASGT_NONE" "i < length cs"
  shows "GetGroupFlag type False (put_flags type ms cs ! i) \<longleftrightarrow> int i \<in> set ms"
  using assms group_flags_set [of type "cs ! i"] group_flags_clear [of type "cs ! i"]
  by (auto simp: put_flags_def GetGroupFlag_def GASGT_NONE_def)

lemma flags_keep_fitness: "sc_scaledFitness (SetGroupFlags t c) = sc_scaledFitness c" "sc_scaledFitness (ClearGroupFlags t c) = sc_scaledFitness c"
  by (simp_all add: SetGroupFlags_def ClearGroupFlags_def)

lemma reference_Add_contract:
  assumes "cmp \<in> {GaMinFitnessComparator, GaMaxFitnessComparator}"
  shows "adds_to ps_best cmp scaled_fitness (reference_Add cmp :: 'c add_code)"
  unfolding adds_to_def
proof (intro allI impI)
  fix p :: "'c population" and i
  assume p: "tracks ps_best p \<and> all_numbers scaled_fitness p \<and> i \<in> {0..<ps_currentSize p}"
  define g ms k bef ms' where d: "g = ps_best p" "ms = members g" "k = nat (sg_maxSize g)"
    "bef = before cmp (sg_type g) (scaled_fitness p)" "ms' = inserted bef k i ms"
  have g: "group_ok g" "sg_type g \<noteq> GASGT_NONE" "set ms \<subseteq> {0..<ps_currentSize p}" "distinct ms"
    "ps_currentSize p = int (length (ps_chromosomes p))" using p by (auto simp: tracks_def d)
  have "insert i (set ms) \<subseteq> {i. scaled_fitness p i \<noteq> FNan}" using p g(3) by (auto simp: all_numbers_def)
  then have a: "adds_member bef k i ms ms'" unfolding d by (rule ranking.inserted_added [OF comparator_ranking [OF assms]])
  have m: "set ms' \<subseteq> {0..<ps_currentSize p}" "distinct ms'" "length ms' \<le> k"
    using added_members [OF a g(4)] members_fit [OF g(1)] g(3) p by (auto simp: d)
  let ?q = "p\<lparr>ps_best := put_members ms' g, ps_chromosomes := put_flags (sg_type g) ms' (ps_chromosomes p)\<rparr>"
  have q: "sg_type (put_members ms' g) = sg_type g" "sg_maxSize (put_members ms' g) = sg_maxSize g"
    "length (put_flags (sg_type g) ms' (ps_chromosomes p)) = length (ps_chromosomes p)" by (simp_all add: put_members_def put_flags_def)
  have "tracks ps_best ?q" using g m put_members_ok [OF g(1), of ms'] put_flags_ok [OF g(2), of _ "ps_chromosomes p" ms'] q
    by (simp add: tracks_def d(3))
  moreover have "scaled_fitness ?q = scaled_fitness p"
    using q by (auto simp: scaled_fitness_def fun_eq_iff put_flags_def flags_keep_fitness)
  ultimately show "\<exists>r p'. reference_Add cmp i p = Inr (r, p') \<and> tracks ps_best p' \<and> ps_currentSize p' = ps_currentSize p
      \<and> scaled_fitness p' = scaled_fitness p \<and> sg_type (ps_best p') = sg_type (ps_best p) \<and> sg_maxSize (ps_best p') = sg_maxSize (ps_best p)
      \<and> adds_member (before cmp (sg_type (ps_best p)) (scaled_fitness p)) (nat (sg_maxSize (ps_best p))) i (members (ps_best p)) (members (ps_best p'))"
    using a q put_members_ok(2) [OF g(1), of ms'] m(3) by (simp add: reference_Add_def Let_def d)
qed

definition three_chromosomes :: "unit population" where
  "three_chromosomes = \<lparr>ps_currentSize = 3,
     ps_chromosomes = map (\<lambda>(k, f). \<lparr>sc_scaledFitness = Num f, sc_chromosome = (), sc_groups = 0, sc_index = k\<rparr>) [(0, 5), (1, 9), (2, 7)],
     ps_best = SortedGroup_new 0 2 GASGT_BEST None, ps_worst = SortedGroup_new 0 2 GASGT_WORST None\<rparr>"

theorem refreshed_group_is_best_witness:
  "\<exists>q. RefreshBestGroup (reference_Add GaMaxFitnessComparator) three_chromosomes = Inr q \<and> length (members (ps_best q)) = 2"
proof -
  have t: "sg_type (ps_best three_chromosomes) = GASGT_BEST" "members (ps_best three_chromosomes) = []"
    "group_ok (ps_best three_chromosomes)" "sg_maxSize (ps_best three_chromosomes) = 2" "ps_currentSize three_chromosomes = 3"
    by (simp_all add: three_chromosomes_def new_group_ok) (simp_all add: SortedGroup_new_def group_type_def GASGT_BEST_def GASGT_NONE_def)
  moreover have "all_numbers scaled_fitness three_chromosomes"
    by (auto simp: all_numbers_def scaled_fitness_def three_chromosomes_def nth_Cons split: nat.splits)
  moreover have "tracks ps_best three_chromosomes" unfolding tracks_def t
    using t by (auto simp: three_chromosomes_def GetGroupFlag_def GASGT_BEST_def GASGT_NONE_def nth_Cons split: nat.splits)
  ultimately show ?thesis
    using refreshed_group_is_best [OF reference_Add_contract, of GaMaxFitnessComparator three_chromosomes] by (auto simp: best_of_def)
qed

end
