(* ===== verification/Algorithms.thy ===== *)
theory Algorithms
  imports SortedGroups Locks Configuration Session
begin

text \<open>
  What \<open>TSP/inc\<close> defines around a running algorithm: the result sets of \<open>PopulationOperations.h\<close>,
  the life of \<open>GaIncrementalAlgorithm\<close> (\<open>IncrementalAlgorithm.h\<close>), the locks, criteria and observers
  of \<open>GaBaseAlgorithm\<close> (\<open>Algorithm.h\<close>), statistical values (\<open>Statistics.h\<close>) and single bits
  (\<open>BinaryChromosome.h\<close>). The constructors of the result sets and the destructor of a coupling
  result are compiled and arguments here.
\<close>

section \<open>Result sets\<close>

record coupling_set =
  cs_numberOfOffsprings :: int
  cs_clearDuplicates :: bool
  cs_selection :: nat

record result_heap =
  rh_groups :: "nat \<Rightarrow> sorted_group option"
  rh_selections :: "nat \<Rightarrow> nat option"
  rh_couplings :: "nat \<Rightarrow> coupling_set option"
  rh_next :: nat

record result_code =
  rc_new_selection :: "int \<Rightarrow> nat \<Rightarrow> result_heap \<Rightarrow> (nat \<times> result_heap) res"
  rc_new_coupling :: "int \<Rightarrow> nat \<Rightarrow> result_heap \<Rightarrow> (nat \<times> result_heap) res"
  rc_delete_coupling :: "nat \<Rightarrow> result_heap \<Rightarrow> result_heap res"

definition results_ok :: "result_heap \<Rightarrow> bool" where
  "results_ok h \<longleftrightarrow> (\<forall>a \<ge> rh_next h. rh_groups h a = None \<and> rh_selections h a = None \<and> rh_couplings h a = None)"

text \<open>
  The documented effects: a selection result makes a group of its own, a coupling result keeps a
  pointer to a selection result, and its destructor leaves that one alone.
\<close>

definition lawful_results :: "result_code \<Rightarrow> bool" where
  "lawful_results C \<longleftrightarrow>
     (\<forall>n p h. results_ok h \<longrightarrow> (\<exists>a g G h'. rc_new_selection C n p h = Inr (a, h') \<and> results_ok h'
        \<and> rh_groups h g = None \<and> rh_selections h a = None \<and> rh_groups h' = (rh_groups h)(g \<mapsto> G)
        \<and> rh_selections h' = (rh_selections h)(a \<mapsto> g) \<and> rh_couplings h' = rh_couplings h))
   \<and> (\<forall>n s h. results_ok h \<longrightarrow> (\<exists>b B h'. rc_new_coupling C n s h = Inr (b, h') \<and> results_ok h'
        \<and> rh_couplings h b = None \<and> cs_selection B = s \<and> rh_groups h' = rh_groups h
        \<and> rh_selections h' = rh_selections h \<and> rh_couplings h' = (rh_couplings h)(b \<mapsto> B)))
   \<and> (\<forall>b h. rc_delete_coupling C b h
        = (if rh_couplings h b = None then Inl Dangling else Inr (h\<lparr>rh_couplings := (rh_couplings h)(b := None)\<rparr>)))"

definition SelectionResultSet_delete :: "nat \<Rightarrow> result_heap \<Rightarrow> result_heap res" where
  "SelectionResultSet_delete a h =
     (case rh_selections h a of
        None \<Rightarrow> Inl Dangling
      | Some g \<Rightarrow>
          if rh_groups h g = None then Inl Dangling
          else Inr (h\<lparr>rh_groups := (rh_groups h)(g := None), rh_selections := (rh_selections h)(a := None)\<rparr>))"

definition MakeResultSet :: "result_code \<Rightarrow> nat \<Rightarrow> selection_params \<Rightarrow> result_heap \<Rightarrow> (nat \<times> result_heap) res" where
  "MakeResultSet C population parameters = rc_new_selection C (sp_selectionSize parameters) population"

definition SetClearDuplicates :: "bool \<Rightarrow> coupling_set \<Rightarrow> coupling_set" where
  "SetClearDuplicates clear B = B\<lparr>cs_clearDuplicates := clear\<rparr>"

definition GetSelectionResultSet :: "nat \<Rightarrow> result_heap \<Rightarrow> nat res" where
  "GetSelectionResultSet b h = (case rh_couplings h b of None \<Rightarrow> Inl Dangling | Some B \<Rightarrow> Inr (cs_selection B))"

section \<open>Class \<open>GaIncrementalAlgorithm\<close>\<close>

record incremental_algorithm =
  ia_population :: nat
  ia_parameters :: workers_params
  ia_buffer :: nat

definition IncrementalAlgorithm_new ::
  "result_code \<Rightarrow> nat \<Rightarrow> workers_params \<Rightarrow> result_heap \<Rightarrow> (incremental_algorithm \<times> result_heap) res" where
  "IncrementalAlgorithm_new C population parameters h =
     rbind (rc_new_selection C 0 population h) (\<lambda>(s, h1). rbind (rc_new_coupling C 0 s h1) (\<lambda>(b, h2).
       Inr (\<lparr>ia_population = population, ia_parameters = parameters, ia_buffer = b\<rparr>, h2)))"

definition IncrementalAlgorithm_delete :: "result_code \<Rightarrow> incremental_algorithm \<Rightarrow> result_heap \<Rightarrow> result_heap res" where
  "IncrementalAlgorithm_delete C x h =
     rbind (GetSelectionResultSet (ia_buffer x) h) (\<lambda>s. rbind (SelectionResultSet_delete s h) (rc_delete_coupling C (ia_buffer x)))"

section \<open>Class \<open>GaBaseAlgorithm\<close>\<close>

text \<open>The thread that calls is the argument \<open>t\<close>; \<open>None\<close> is a thread that waits.\<close>

record base_algorithm =
  ba_state :: GaAlgorithmState
  ba_stopCriteria :: ga_pair
  ba_syncParameterChanges :: mutex
  ba_syncStateChange :: mutex
  ba_observers :: "nat list"

definition BaseAlgorithm_new :: base_algorithm where
  "BaseAlgorithm_new = \<lparr>ba_state = GAS_UNINITIALIZED, ba_stopCriteria = pair_default, ba_syncParameterChanges = None,
     ba_syncStateChange = None, ba_observers = []\<rparr>"

definition BeginParameterChange :: "nat \<Rightarrow> base_algorithm \<Rightarrow> base_algorithm option" where
  "BeginParameterChange t a =
     map_option (\<lambda>m. a\<lparr>ba_syncParameterChanges := m\<rparr>) (GaCriticalSection_Lock t (ba_syncParameterChanges a))"

definition EndParameterChange :: "nat \<Rightarrow> base_algorithm \<Rightarrow> base_algorithm res" where
  "EndParameterChange t a =
     rbind (GaCriticalSection_Unlock t (ba_syncParameterChanges a)) (\<lambda>m. Inr (a\<lparr>ba_syncParameterChanges := m\<rparr>))"

definition BlockParameterChanges :: "nat \<Rightarrow> base_algorithm \<Rightarrow> base_algorithm option" where
  "BlockParameterChanges t a =
     map_option (\<lambda>m. a\<lparr>ba_syncParameterChanges := m\<rparr>) (GaCriticalSection_Lock t (ba_syncParameterChanges a))"

definition ReleaseParameterChanages :: "nat \<Rightarrow> base_algorithm \<Rightarrow> base_algorithm res" where
  "ReleaseParameterChanages t a =
     rbind (GaCriticalSection_Unlock t (ba_syncParameterChanges a)) (\<lambda>m. Inr (a\<lparr>ba_syncParameterChanges := m\<rparr>))"

definition BlockStateChange :: "nat \<Rightarrow> base_algorithm \<Rightarrow> base_algorithm option" where
  "BlockStateChange t a = map_option (\<lambda>m. a\<lparr>ba_syncStateChange := m\<rparr>) (GaCriticalSection_Lock t (ba_syncStateChange a))"

definition ReleaseStateChange :: "nat \<Rightarrow> base_algorithm \<Rightarrow> base_algorithm res" where
  "ReleaseStateChange t a =
     rbind (GaCriticalSection_Unlock t (ba_syncStateChange a)) (\<lambda>m. Inr (a\<lparr>ba_syncStateChange := m\<rparr>))"

definition SetStopCriteriaParams :: "nat option \<Rightarrow> base_algorithm \<Rightarrow> params_heap \<Rightarrow> (base_algorithm \<times> params_heap) res" where
  "SetStopCriteriaParams parameters a h =
     rbind (pair_SetParameters parameters (ba_stopCriteria a) h) (\<lambda>(p, h'). Inr (a\<lparr>ba_stopCriteria := p\<rparr>, h'))"

text \<open>The operators of the list of observers are compiled; a null observer is dereferenced.\<close>

definition SubscribeObserver :: "(nat \<Rightarrow> nat list \<Rightarrow> nat list) \<Rightarrow> nat option \<Rightarrow> base_algorithm \<Rightarrow> base_algorithm res" where
  "SubscribeObserver add observer a =
     (case observer of None \<Rightarrow> Inl NullDeref | Some x \<Rightarrow> Inr (a\<lparr>ba_observers := add x (ba_observers a)\<rparr>))"

definition UnsubscribeObserver :: "(nat \<Rightarrow> nat list \<Rightarrow> nat list) \<Rightarrow> nat option \<Rightarrow> base_algorithm \<Rightarrow> base_algorithm res" where
  "UnsubscribeObserver remove observer a =
     (case observer of None \<Rightarrow> Inl NullDeref | Some x \<Rightarrow> Inr (a\<lparr>ba_observers := remove x (ba_observers a)\<rparr>))"

section \<open>Statistical values\<close>

record stat_value =
  sv_current :: cnum
  sv_previous :: cnum

definition StatValue_new :: "cnum \<Rightarrow> cnum \<Rightarrow> stat_value" where
  "StatValue_new current previous = \<lparr>sv_current = current, sv_previous = previous\<rparr>"

definition StatValue_default :: stat_value where
  "StatValue_default = \<lparr>sv_current = Num 0, sv_previous = Num 0\<rparr>"

definition Changed :: "stat_value \<Rightarrow> bool" where
  "Changed v \<longleftrightarrow> \<not> feq (sv_previous v) (sv_current v)"

definition StatValue_plus :: "stat_value \<Rightarrow> stat_value \<Rightarrow> stat_value" where
  "StatValue_plus v rhs =
     (let r = v; r1 = r\<lparr>sv_current := fadd round32 (sv_current r) (sv_current rhs)\<rparr>
      in r1\<lparr>sv_previous := fadd round32 (sv_previous r1) (sv_previous rhs)\<rparr>)"

text \<open>\<open>rhs\<close> is \<open>None\<close> when the object is added to itself.\<close>

definition StatValue_add :: "stat_value \<Rightarrow> stat_value option \<Rightarrow> stat_value" where
  "StatValue_add v rhs =
     (let v1 = v\<lparr>sv_current := fadd round32 (sv_current v) (sv_current (case rhs of None \<Rightarrow> v | Some r \<Rightarrow> r))\<rparr>
      in v1\<lparr>sv_previous := fadd round32 (sv_previous v1) (sv_previous (case rhs of None \<Rightarrow> v1 | Some r \<Rightarrow> r))\<rparr>)"

text \<open>The members of \<open>GaStatistics\<close>; a value is read by its type, which is an index of the array.\<close>

record statistics =
  st_currentGeneration :: int
  st_values :: "stat_value list"
  st_fitnessComparator :: "nat option"

definition GaNumberOfStatValueTypes :: nat where
  "GaNumberOfStatValueTypes = 8 - 0 + 1"

fun stat_index :: "GaStatValueType \<Rightarrow> nat" where
  "stat_index GSV_BEST_FITNESS = 0"
| "stat_index GSV_BEST_FITNESS_SCALED = 1"
| "stat_index GSV_AVG_FITNESS = 2"
| "stat_index GSV_AVG_FITNESS_SCALED = 3"
| "stat_index GSV_WORST_FITNESS = 4"
| "stat_index GSV_WORST_FITNESS_SCALED = 5"
| "stat_index GSV_TOTAL_FITNESS = 6"
| "stat_index GSV_TOTAL_FITNESS_SCALED = 7"
| "stat_index GSV_POPULATION_SIZE = 8"

definition Statistics_new :: "nat option \<Rightarrow> statistics" where
  "Statistics_new cmp =
     \<lparr>st_currentGeneration = 0, st_values = replicate GaNumberOfStatValueTypes StatValue_default, st_fitnessComparator = cmp\<rparr>"

definition GetValue :: "GaStatValueType \<Rightarrow> statistics \<Rightarrow> stat_value res" where
  "GetValue value s = vget (st_values s) (int (stat_index value))"

definition SetFitnessComparator :: "nat option \<Rightarrow> statistics \<Rightarrow> statistics" where
  "SetFitnessComparator cmp s = s\<lparr>st_fitnessComparator := cmp\<rparr>"

text \<open>\<open>+\<close> copies this object and calls the compiled \<open>+=\<close>.\<close>

definition Statistics_plus :: "(statistics \<Rightarrow> statistics \<Rightarrow> statistics) \<Rightarrow> statistics \<Rightarrow> statistics \<Rightarrow> statistics" where
  "Statistics_plus add s rhs = (let r = s in add r rhs)"

section \<open>Class \<open>GaBit\<close>\<close>

record bit = bt_bitState :: bool

definition bit_Initialize :: "('g \<Rightarrow> bool \<times> 'g) \<Rightarrow> bit \<Rightarrow> 'g \<Rightarrow> bit \<times> 'g" where
  "bit_Initialize rb b g = (let (state, g') = rb g in (b\<lparr>bt_bitState := state\<rparr>, g'))"

text \<open>
  The buffer is read as words of 32 bits; \<open>sizeof( unsigned int )\<close> is 4, and the position converts
  to an unsigned 64-bit number.
\<close>

definition bit_FromBuffer :: "32 word list \<Rightarrow> int \<Rightarrow> bit \<Rightarrow> bit res" where
  "bit_FromBuffer buffer pos b =
     (let p = pos mod 2 ^ 64 in
      rbind (vget buffer (p div 4)) (\<lambda>w. Inr (b\<lparr>bt_bitState := (drop_bit (nat (p mod 4)) w AND 1 \<noteq> 0)\<rparr>)))"

section \<open>The life of an algorithm\<close>

text \<open>
  C32. An incremental algorithm is built on any heap of results and destroyed again without a
  fault, and then exactly the results that were alive before are alive: nothing is leaked and
  nothing else is freed. Destroying it a second time uses a deleted result.
\<close>

theorem incremental_frees_results:
  assumes C: "lawful_results C" and h: "results_ok h"
  shows "\<exists>x h1 h2. IncrementalAlgorithm_new C population parameters h = Inr (x, h1) \<and> IncrementalAlgorithm_delete C x h1 = Inr h2
    \<and> rh_groups h2 = rh_groups h \<and> rh_selections h2 = rh_selections h \<and> rh_couplings h2 = rh_couplings h
    \<and> IncrementalAlgorithm_delete C x h2 = Inl Dangling"
proof -
  obtain a g G h1 where s: "rc_new_selection C 0 population h = Inr (a, h1)" "results_ok h1" "rh_groups h g = None" "rh_selections h a = None"
    "rh_groups h1 = (rh_groups h)(g \<mapsto> G)" "rh_selections h1 = (rh_selections h)(a \<mapsto> g)" "rh_couplings h1 = rh_couplings h"
    using C h unfolding lawful_results_def by meson
  obtain b B h2 where c: "rc_new_coupling C 0 a h1 = Inr (b, h2)" "rh_couplings h1 b = None" "cs_selection B = a" "rh_groups h2 = rh_groups h1"
    "rh_selections h2 = rh_selections h1" "rh_couplings h2 = (rh_couplings h1)(b \<mapsto> B)"
    using C s(2) unfolding lawful_results_def by meson
  have d: "rc_delete_coupling C b k
      = (if rh_couplings k b = None then Inl Dangling else Inr (k\<lparr>rh_couplings := (rh_couplings k)(b := None)\<rparr>))" for k
    using C unfolding lawful_results_def by blast
  show ?thesis using s c d
    by (auto simp: IncrementalAlgorithm_new_def IncrementalAlgorithm_delete_def GetSelectionResultSet_def SelectionResultSet_delete_def)
qed

text \<open>Result sets made at the next free address, and one heap that already holds a result.\<close>

definition plain_results :: result_code where
  "plain_results =
     \<lparr>rc_new_selection = (\<lambda>n p h. let a = rh_next h in Inr (a, h\<lparr>rh_groups := (rh_groups h)(a \<mapsto> SortedGroup_new p n GASGT_OTHER None),
        rh_selections := (rh_selections h)(a \<mapsto> a), rh_next := Suc a\<rparr>)),
      rc_new_coupling = (\<lambda>n s h. let b = rh_next h in Inr (b, h\<lparr>rh_couplings := (rh_couplings h)(b \<mapsto> \<lparr>cs_numberOfOffsprings = n,
        cs_clearDuplicates = False, cs_selection = s\<rparr>), rh_next := Suc b\<rparr>)),
      rc_delete_coupling = (\<lambda>b h. if rh_couplings h b = None then Inl Dangling
        else Inr (h\<lparr>rh_couplings := (rh_couplings h)(b := None)\<rparr>))\<rparr>"

lemma plain_results_lawful: "lawful_results plain_results"
  by (auto simp: lawful_results_def plain_results_def results_ok_def Let_def) (metis coupling_set.select_convs(3))

definition one_result :: result_heap where
  "one_result = \<lparr>rh_groups = [0 \<mapsto> SortedGroup_new 0 2 GASGT_OTHER None], rh_selections = [0 \<mapsto> 0], rh_couplings = Map.empty, rh_next = 1\<rparr>"

theorem incremental_frees_results_witness:
  "\<exists>x h1 h2. IncrementalAlgorithm_new plain_results 0 WorkersParams_default one_result = Inr (x, h1)
    \<and> IncrementalAlgorithm_delete plain_results x h1 = Inr h2 \<and> rh_selections h2 = [0 \<mapsto> 0]"
proof -
  have "results_ok one_result" by (simp add: results_ok_def one_result_def)
  from incremental_frees_results [OF plain_results_lawful this, of 0 WorkersParams_default]
  show ?thesis by (auto simp: one_result_def)
qed

section \<open>Changes of parameters\<close>

text \<open>
  While a thread changes parameters no thread can begin another change, and the algorithm cannot
  block changes; ending it restores the algorithm, and only the thread that began may end it.
\<close>

lemma parameter_change_excludes:
  assumes "BeginParameterChange t a = Some a'"
  shows "BeginParameterChange u a' = None" "BlockParameterChanges u a' = None"
    "EndParameterChange t a' = Inr a" "u \<noteq> t \<Longrightarrow> EndParameterChange u a' = Inl BadRange"
  using assms by (auto simp: BeginParameterChange_def EndParameterChange_def BlockParameterChanges_def GaCriticalSection_Lock_def
      GaCriticalSection_Unlock_def split: option.splits)

text \<open>The two sections are independent: a change of state may happen during a change of parameters.\<close>

lemma state_change_independent:
  "BeginParameterChange t a = Some a' \<Longrightarrow> (BlockStateChange u a' = None) = (BlockStateChange u a = None)"
  by (auto simp: BeginParameterChange_def BlockStateChange_def)

section \<open>Statistics and bits\<close>

text \<open>Adding a value to itself reads each half before it changes it, so both sums agree with \<open>+\<close>.\<close>

lemma StatValue_add_is_plus: "StatValue_add v (Some r) = StatValue_plus v r" "StatValue_add v None = StatValue_plus v v"
  by (simp_all add: StatValue_add_def StatValue_plus_def Let_def)

lemma GetValue_new: "GetValue kind (Statistics_new cmp) = Inr StatValue_default"
  by (cases kind) (simp_all add: GetValue_def Statistics_new_def GaNumberOfStatValueTypes_def vget_def nth_Cons')

text \<open>
  Reading a bit from a buffer looks only at the four low bits of each 32-bit word: the
  position is divided by the size of a word in bytes, not in bits. A buffer of n words holds 4 n
  readable bits, and positions from there on are outside it.
\<close>

lemma bit_reads_four_of_each_word:
  "bit_FromBuffer buffer pos b = bit_FromBuffer (map (\<lambda>w. w AND 15) buffer) pos b
   \<and> (0 \<le> pos \<and> pos < 2 ^ 63 \<longrightarrow> (bit_FromBuffer buffer pos b = Inl OutOfBounds) = (4 * int (length buffer) \<le> pos))"
proof
  have w: "drop_bit k (w AND 15) AND 1 = drop_bit k w AND 1" if "k < 4" for k and w :: "32 word"
  proof (rule bit_word_eqI)
    have "(15 :: 32 word) = mask 4" by (simp add: mask_numeral)
    moreover have "bit (mask 4 :: 32 word) k" using that by (subst bit_mask_iff) simp
    ultimately have "bit (15 :: 32 word) k" by metis
    then show "bit (drop_bit k (w AND 15) AND 1) n = bit (drop_bit k w AND 1) n" for n by (cases n) (auto simp: bit_simps)
  qed
  have "nat (p mod 4) < 4" for p :: int by simp
  then show "bit_FromBuffer buffer pos b = bit_FromBuffer (map (\<lambda>w. w AND 15) buffer) pos b"
    by (auto simp: bit_FromBuffer_def vget_def w Let_def simp del: drop_bit_and)
  show "0 \<le> pos \<and> pos < 2 ^ 63 \<longrightarrow> (bit_FromBuffer buffer pos b = Inl OutOfBounds) = (4 * int (length buffer) \<le> pos)"
    by (auto simp: bit_FromBuffer_def vget_def Let_def)
qed

end
