(* ===== verification/Capacity.thy ===== *)
theory Capacity
  imports Store
begin

text \<open>
  When the steps of \<open>TSP/TspView.cpp\<close> stay inside their buffers and their data: a weakest
  precondition of actions, what the tables of the database promise about the rows they answer,
  and the sizes of the query texts for fields of the declared widths.
\<close>

section \<open>Weakest preconditions of actions\<close>

text \<open>
  \<open>wp E Q m s\<close>: the action \<open>m\<close> runs from \<open>s\<close> without a fault; an early return gives a code and a
  state with \<open>E\<close>, otherwise \<open>Q\<close> holds for the value and the state.
\<close>

definition wp :: "(int \<Rightarrow> 'e program \<Rightarrow> bool) \<Rightarrow> ('a \<Rightarrow> 'e program \<Rightarrow> bool) \<Rightarrow> ('e, 'a) act \<Rightarrow> 'e program \<Rightarrow> bool" where
  "wp E Q m s = (case m s of Inl f \<Rightarrow> False | Inr (r, t) \<Rightarrow> (case r of Inl c \<Rightarrow> E c t | Inr a \<Rightarrow> Q a t))"

lemma wp_run: "wp E Q m s \<longleftrightarrow> (\<exists>r t. m s = Inr (r, t) \<and> (case r of Inl c \<Rightarrow> E c t | Inr a \<Rightarrow> Q a t))"
  by (auto simp: wp_def split: sum.splits)

lemma wp_bounded: "wp E Q m s \<Longrightarrow> \<exists>r t. m s = Inr (r, t) \<and> (\<forall>a. r = Inr a \<longrightarrow> Q a t)"
  by (auto simp: wp_def split: sum.splits)

lemma wp_completes:
  assumes "wp (\<lambda>_ _. False) Q m s"
  shows "\<exists>a t. m s = Inr (Inr a, t) \<and> Q a t"
proof -
  obtain r t where "m s = Inr (r, t)" "case r of Inl c \<Rightarrow> False | Inr a \<Rightarrow> Q a t" using assms unfolding wp_run by blast
  then show ?thesis by (cases r) auto
qed

lemma wp_abind [simp]: "wp E Q (abind m g) s = wp E (\<lambda>a t. wp E Q (g a) t) m s"
  by (auto simp: wp_def abind_def rbind_def split: sum.splits)

lemma wp_aret [simp]: "wp E Q (aret a) s = Q a s"
  by (simp add: wp_def)

lemma wp_aget [simp]: "wp E Q (aget f) s = Q (f s) s"
  by (simp add: wp_def)

lemma wp_amodify [simp]: "wp E Q (amodify h) s = Q () (h s)"
  by (simp add: wp_def)

lemma wp_ares [simp]: "wp E Q (ares r) s = (\<exists>a. r = Inr a \<and> Q a s)"
  by (auto simp: wp_def rbind_def split: sum.splits)

lemma wp_if: "(c \<Longrightarrow> wp E Q m s) \<Longrightarrow> (\<not> c \<Longrightarrow> wp E Q m' s) \<Longrightarrow> wp E Q (if c then m else m') s"
  by simp

lemma wp_mono: "wp E Q m s \<Longrightarrow> (\<And>a t. Q a t \<Longrightarrow> Q' a t) \<Longrightarrow> wp E Q' m s"
  by (auto simp: wp_def split: sum.splits)

lemma wp_keeps: "wp E Q m s \<Longrightarrow> keeps f m \<Longrightarrow> wp E (\<lambda>a t. Q a t \<and> f t = f s) m s"
  by (auto simp: wp_def keeps_def split: sum.splits)

lemma wp_afor:
  assumes "P s" and "\<And>x s. x \<in> set xs \<Longrightarrow> P s \<Longrightarrow> wp E (\<lambda>_. P) (f x) s"
  shows "wp E (\<lambda>_. P) (afor f xs) s"
  using assms
proof (induction xs arbitrary: s)
  case (Cons x xs)
  have "wp E (\<lambda>_. P) (f x) s" using Cons.prems by simp
  then have "wp E (\<lambda>_ t. wp E (\<lambda>_. P) (afor f xs) t) (f x) s"
    by (rule wp_mono) (rule Cons.IH, simp_all add: Cons.prems(2))
  then show ?case by simp
qed simp

lemma wp_afor_upto:
  assumes "P 0 s" and "\<And>i s. i < k \<Longrightarrow> P i s \<Longrightarrow> wp E (\<lambda>_. P (Suc i)) (f (int i)) s"
  shows "wp E (\<lambda>_. P k) (afor f [0..int k - 1]) s"
  using assms(2)
proof (induction k)
  case (Suc k)
  have "wp E (\<lambda>_. P k) (afor f [0..int k - 1]) s" using Suc by simp
  then have "wp E (\<lambda>_ t. wp E (\<lambda>_. P (Suc k)) (f (int k)) t) (afor f [0..int k - 1]) s"
    by (rule wp_mono) (simp add: Suc.prems)
  moreover have "[0..int (Suc k) - 1] = [0..int k - 1] @ [int k]" by (simp add: upto_snoc)
  ultimately show ?case by (simp only: afor_append) simp
qed (simp add: assms(1))

text \<open>\<open>early_ok A E\<close>: early returns end with \<open>E\<close>, or the database never makes one.\<close>

definition early_ok :: "'e env_api \<Rightarrow> (int \<Rightarrow> 'e program \<Rightarrow> bool) \<Rightarrow> bool" where
  "early_ok A E \<longleftrightarrow> always_answers A \<or> (\<forall>c t. E c t)"

lemma wp_connect:
  assumes "early_ok A E" and "\<And>e. Q () (s\<lparr>p_env := e\<rparr>)"
  shows "wp E Q (db_connect A c code) s"
  using assms by (auto simp: wp_def db_connect_def Let_def split_beta early_ok_def always_answers_def)

text \<open>A query whose text fits goes on with rows the database promises.\<close>

definition answers :: "'e env_api \<Rightarrow> piece list \<Rightarrow> arg list \<Rightarrow> (row list \<Rightarrow> bool) \<Rightarrow> bool" where
  "answers A ps xs P \<longleftrightarrow> (\<forall>cap sql c e rows. sprintf cap ps xs = Inr sql
     \<longrightarrow> fst (api_query A c sql e) = Some rows \<longrightarrow> P rows)"

definition answers_all :: "'e env_api \<Rightarrow> piece list \<Rightarrow> (row list \<Rightarrow> bool) \<Rightarrow> bool" where
  "answers_all A ps P \<longleftrightarrow> (\<forall>xs. answers A ps xs P)"

lemma answers_allD: "answers_all A ps P \<Longrightarrow> answers A ps xs P"
  by (simp add: answers_all_def)

lemma answers_trivial: "answers A ps xs (\<lambda>_. True)"
  by (simp add: answers_def)

lemma wp_query:
  assumes "early_ok A E" and "answers A ps xs P" and "arity_ok ps xs" and "text_size ps + sum_list (map arg_size xs) < cap"
    and "\<And>rows e. P rows \<Longrightarrow> Q rows (s\<lparr>p_env := e\<rparr>)"
  shows "wp E Q (db_query A c code cap ps xs) s"
proof -
  obtain sql where sql: "sprintf cap ps xs = Inr sql" using sprintf_ok [OF assms(3,4)] by blast
  show ?thesis
  proof (cases "api_query A c sql (p_env s)")
    case (Pair r e)
    show ?thesis
    proof (cases r)
      case None
      then have "fst (api_query A c sql (p_env s)) = None" using Pair by simp
      then have "E code (s\<lparr>p_env := e\<rparr>)" using assms(1) unfolding early_ok_def always_answers_def by blast
      then show ?thesis using Pair sql None by (simp add: wp_def db_query_def)
    next
      case (Some rows)
      then have "fst (api_query A c sql (p_env s)) = Some rows" using Pair by simp
      then have "P rows" using assms(2) sql unfolding answers_def by blast
      then show ?thesis using assms(5) Pair sql Some by (simp add: wp_def db_query_def)
    qed
  qed
qed

section \<open>Rows and fields\<close>

text \<open>Column \<open>k\<close> holds a text that fits an array of \<open>w\<close> bytes.\<close>

definition field :: "row \<Rightarrow> nat \<Rightarrow> nat \<Rightarrow> bool" where
  "field r k w \<longleftrightarrow> k < length r \<and> (\<exists>t. r ! k = Some t \<and> length t < w)"

lemma field_column: "field r k w \<Longrightarrow> \<exists>t. column r (int k) = Inr t \<and> length t < w"
  by (auto simp: field_def column_def)

lemma field_copy: "field r k w \<Longrightarrow> w \<le> cap \<Longrightarrow> \<exists>t. copy_column cap r (int k) = Inr t \<and> length t < w"
  using field_column [of r k w] by (auto simp: copy_column_def)

lemma copy_column_Inr: "copy_column cap r k = Inr t \<Longrightarrow> length t < cap"
  by (auto simp: copy_column_def rbind_eq_Inr)

definition row_fits :: "nat list \<Rightarrow> row \<Rightarrow> bool" where
  "row_fits ws r \<longleftrightarrow> (\<forall>k < length ws. field r k (ws ! k))"

text \<open>The arrays of one order and of one entry of the distance table.\<close>

definition order_widths :: "nat list" where
  "order_widths = [32, 32, 4, 10, 4, 64, 100, 100, 2, 256, 32, 64, 64, 2, 2, 2, 32, 100]"

definition mutual_widths :: "nat list" where
  "mutual_widths = [32, 64, 2, 64, 2, 64, 64, 64, 64, 64, 64, 64, 2, 2, 64, 64]"

lemma all_below_iff: "(\<forall>k < length (w # ws). P k ((w # ws) ! k)) \<longleftrightarrow> P 0 w \<and> (\<forall>k < length ws. P (Suc k) (ws ! k))"
  by (auto simp: less_Suc_eq_0_disj)

lemma row_fits_field: "row_fits ws r \<Longrightarrow> k < length ws \<Longrightarrow> field r k (ws ! k)"
  by (simp add: row_fits_def)

lemma row_fits_copy:
  assumes "row_fits ws r" and "k < length ws"
  shows "\<exists>t. copy_column (ws ! k) r (int k) = Inr t"
  using field_copy [OF row_fits_field [OF assms]] by blast

text \<open>The fields of an order that queries and cities use.\<close>

definition order_fits :: "VectorOrderData \<Rightarrow> bool" where
  "order_fits d \<longleftrightarrow> length (ve_accno d) < 32 \<and> length (ve_guestId d) < 64 \<and> length (ve_guestTel d) < 100
     \<and> length (ve_guestJusoSubId d) < 2 \<and> length (ve_pay d) < 32 \<and> length (ve_guestLat d) < 64
     \<and> length (ve_guestLon d) < 64 \<and> length (ve_isShop d) < 2 \<and> length (ve_accnoDupleJuso d) < 100"

lemma read_order_fits: "read_order r = Inr d \<Longrightarrow> order_fits d"
  unfolding read_order_def rbind_eq_Inr by (elim exE conjE) (auto dest!: copy_column_Inr simp: order_fits_def)

lemma read_order_total:
  assumes "row_fits order_widths r"
  shows "\<exists>d. read_order r = Inr d"
proof -
  note copy = row_fits_copy [OF assms, unfolded order_widths_def]
  from copy [of 0] copy [of 1] copy [of 2] copy [of 3] copy [of 4] copy [of 5] copy [of 6] copy [of 7] copy [of 8]
    copy [of 9] copy [of 10] copy [of 11] copy [of 12] copy [of 13] copy [of 14] copy [of 15] copy [of 16] copy [of 17]
  show ?thesis by (simp add: read_order_def) (elim exE, simp)
qed

lemma read_mutual_total:
  assumes "row_fits mutual_widths r"
  shows "\<exists>d. read_mutual r = Inr d"
proof -
  note copy = row_fits_copy [OF assms, unfolded mutual_widths_def]
  from copy [of 0] copy [of 1] copy [of 2] copy [of 3] copy [of 4] copy [of 5] copy [of 6] copy [of 7] copy [of 8]
    copy [of 9] copy [of 10] copy [of 11] copy [of 12] copy [of 13] copy [of 14] copy [of 15]
  show ?thesis by (simp add: read_mutual_def) (elim exE, simp)
qed

section \<open>Printed numbers\<close>

lemma show_nat_length: "n < 10 ^ k \<Longrightarrow> 0 < k \<Longrightarrow> length (show_nat n) \<le> k"
proof (induction k arbitrary: n)
  case (Suc k)
  show ?case
  proof (cases "n < 10")
    case True
    then show ?thesis by (subst show_nat.simps) simp
  next
    case False
    then have "0 < k" using Suc.prems by (cases k) simp_all
    moreover have "n div 10 < 10 ^ k" using Suc.prems by (simp add: less_mult_imp_div_less mult.commute)
    ultimately have "length (show_nat (n div 10)) \<le> k" using Suc.IH by simp
    with False show ?thesis by (subst show_nat.simps) simp
  qed
qed simp

lemma show_int_length: "int_range n \<Longrightarrow> length (show_int n) \<le> 11"
proof -
  assume "int_range n"
  then have "nat n < 10 ^ 10" "nat (- n) < 10 ^ 10" by (auto simp: int_range_def)
  then show ?thesis using show_nat_length [of "nat n" 10] show_nat_length [of "nat (- n)" 10] by (simp add: show_int_def)
qed

end
