(* ===== verification/Loading.thy ===== *)
theory Loading
  imports Capacity
begin

text \<open>
  Step 01 of \<open>TSP/TspView.cpp\<close> stays inside its buffers, its vectors and its rows when the
  database keeps what its tables promise (\<open>load_schema\<close>): the count is the number of orders, an
  order has its details, a sum of payments is not \<open>NULL\<close>, and the columns are no wider than the
  arrays they are copied into.
\<close>

section \<open>What the loading relies on\<close>

text \<open>The arguments of the program, as short as \<open>main\<close> makes them.\<close>

definition session_args :: "'e program \<Rightarrow> string list" where
  "session_args s = [v_deliveryDate s, v_meridiemType s, v_meridiemFlag s, v_vehicleNo s, v_locationId s]"

definition short_args :: "'e program \<Rightarrow> bool" where
  "short_args s \<longleftrightarrow> (\<forall>a \<in> set (session_args s). length a < 64)"

definition detail_args :: "'e program \<Rightarrow> string \<Rightarrow> string \<Rightarrow> string \<Rightarrow> arg list" where
  "detail_args s accno guestId isShop = [AStr accno, AStr (v_locationId s), AStr (v_deliveryDate s),
     AStr (v_meridiemType s), AStr (v_meridiemFlag s), AStr guestId, AStr isShop]"

definition pay_sum_args :: "'e program \<Rightarrow> VectorOrderData \<Rightarrow> arg list" where
  "pay_sum_args s d = [AStr (v_deliveryDate s), AStr (v_meridiemType s), AStr (v_meridiemFlag s),
     AStr (v_locationId s), AStr (ve_accnoDupleJuso d)]"

text \<open>An order with a duplicate address has a sum of payments.\<close>

definition pay_known :: "'e env_api \<Rightarrow> 'e program \<Rightarrow> VectorOrderData \<Rightarrow> bool" where
  "pay_known A s d \<longleftrightarrow> (ve_accnoDupleJuso d \<noteq> []
     \<longrightarrow> answers A sql_order_pay (pay_sum_args s d) (\<lambda>rows. rows \<noteq> [] \<and> field (hd rows) 0 32))"

definition detail_known :: "'e env_api \<Rightarrow> 'e program \<Rightarrow> row list \<Rightarrow> bool" where
  "detail_known A s rows \<longleftrightarrow> rows \<noteq> [] \<and> row_fits order_widths (hd rows)
     \<and> (\<forall>d. read_order (hd rows) = Inr d \<longrightarrow> pay_known A s d)"

definition order_known :: "'e env_api \<Rightarrow> 'e program \<Rightarrow> row \<Rightarrow> bool" where
  "order_known A s r \<longleftrightarrow> field r 1 32 \<and> field r 6 64 \<and> field r 28 2
     \<and> (\<forall>accno guestId isShop. column r 1 = Inr accno \<longrightarrow> column r 6 = Inr guestId \<longrightarrow> column r 28 = Inr isShop
          \<longrightarrow> answers A sql_order_detail (detail_args s accno guestId isShop) (detail_known A s))"

definition counts :: "nat \<Rightarrow> row list \<Rightarrow> bool" where
  "counts n rows \<longleftrightarrow> rows \<noteq> [] \<and> rbind (column (hd rows) 0) atoi = Inr (int n)"

definition load_schema :: "'e env_api \<Rightarrow> 'e program \<Rightarrow> nat \<Rightarrow> bool" where
  "load_schema A s n \<longleftrightarrow> answers A sql_order_count (order_args s) (counts n)
     \<and> answers A sql_orders (order_args s) (\<lambda>rows. length rows \<le> n \<and> (\<forall>r \<in> set rows. order_known A s r))
     \<and> answers_all A sql_mutual (\<lambda>rows. rows \<noteq> [] \<longrightarrow> row_fits mutual_widths (hd rows))"

lemma short_args_lengths:
  assumes "short_args s"
  shows "length (v_deliveryDate s) < 64" "length (v_meridiemType s) < 64" "length (v_meridiemFlag s) < 64"
    "length (v_vehicleNo s) < 64" "length (v_locationId s) < 64"
  using assms by (simp_all add: short_args_def session_args_def)

section \<open>The orders\<close>

text \<open>The state while the orders are loaded: the arguments of \<open>s\<close>, \<open>n\<close> orders that fit.\<close>

definition loading :: "'e env_api \<Rightarrow> 'e program \<Rightarrow> nat \<Rightarrow> 'e program \<Rightarrow> bool" where
  "loading A s n t \<longleftrightarrow> session_args t = session_args s \<and> v_mutual t = [] \<and> v_count t = Some (int n)
     \<and> length (v_orders t) = n \<and> (\<forall>d \<in> set (v_orders t). order_fits d \<and> pay_known A s d)"

lemma loading_env [simp]: "loading A s n (t\<lparr>p_env := e\<rparr>) = loading A s n t"
  by (simp add: loading_def session_args_def)

lemma blank_order_fits: "order_fits blank_order" "pay_known A s blank_order"
  by (simp_all add: order_fits_def blank_order_def pay_known_def)

lemma first_row_hd: "rows \<noteq> [] \<Longrightarrow> first_row rows = Inr (hd rows)"
  by (cases rows) (simp_all add: first_row_def)

lemma set_names_fits: "arity_ok sql_set_names []" "text_size sql_set_names + sum_list (map arg_size []) < 512"
  by (simp_all add: format_arities format_sizes)

lemma order_args_fit:
  assumes "short_args s"
  shows "arity_ok sql_orders (order_args s)" "text_size sql_orders + sum_list (map arg_size (order_args s)) < 2048"
    "arity_ok sql_order_count (order_args s)" "text_size sql_order_count + sum_list (map arg_size (order_args s)) < 2048"
  using short_args_lengths [OF assms] by (simp_all add: order_args_def format_arities format_sizes)

lemma wp_load_count:
  assumes "early_ok A E" and "load_schema A s n" and "short_args s" and "v_orders s = []" and "v_mutual s = []"
  shows "wp E (\<lambda>_. loading A s n) (load_count A) (s\<lparr>v_completeLoad := b\<rparr>)"
proof -
  let ?s = "s\<lparr>v_completeLoad := b\<rparr>"
  have args: "order_args (?s\<lparr>p_env := e\<rparr>) = order_args s" for e by (simp add: order_args_def)
  have fit: "\<exists>sql. sprintf 2048 sql_orders (order_args s) = Inr sql" using sprintf_ok order_args_fit [OF assms(3)] by blast
  have new: "resize blank_order (int n) [] = Inr (replicate n blank_order)" by (simp add: resize_def)
  have count: "answers A sql_order_count (order_args s) (counts n)" using assms(2) by (simp add: load_schema_def)
  have ok: "loading A s n (s\<lparr>v_completeLoad := b, p_env := e, v_count := Some (int n),
      v_vehiclePayIndex := Some (replicate n 0), v_orders := replicate n blank_order\<rparr>)" for e
    using assms(5) blank_order_fits by (auto simp: loading_def session_args_def)
  show ?thesis
    unfolding load_count_def wp_abind
    apply (rule wp_connect [OF assms(1)])
    apply simp
    apply (rule wp_query [OF assms(1) answers_trivial set_names_fits])
    apply (simp add: args)
    using fit
    apply (elim exE)
    apply simp
    apply (rule wp_query [OF assms(1) count order_args_fit(3,4) [OF assms(3)]])
    apply (auto simp: counts_def first_row_hd assms(4) new ok)
    done
qed

lemma wp_set_order:
  assumes "loading A s n t" and "0 \<le> i" and "i < int n" and "order_fits d" and "pay_known A s d"
  shows "wp E (\<lambda>_. loading A s n) (set_order i d) t"
  using assms set_update_subset_insert [of "v_orders t" "nat i" d]
  by (auto simp: set_order_def loading_def session_args_def dest!: subsetD)

lemma wp_load_order:
  assumes "early_ok A E" and "short_args s" and "loading A s n t" and "order_known A s r" and "0 \<le> i" and "i < int n"
  shows "wp E (\<lambda>_. loading A s n) (load_order A (i, r)) t"
proof -
  obtain accno guestId isShop where c: "column r 1 = Inr accno" "length accno < 32" "column r 6 = Inr guestId"
      "length guestId < 64" "column r 28 = Inr isShop" "length isShop < 2"
    using assms(4) field_column [of r 1 32] field_column [of r 6 64] field_column [of r 28 2]
    unfolding order_known_def by auto
  have detail: "answers A sql_order_detail (detail_args s accno guestId isShop) (detail_known A s)"
    using assms(4) c by (simp add: order_known_def)
  have args: "[AStr accno, AStr (v_locationId t), AStr (v_deliveryDate t), AStr (v_meridiemType t),
      AStr (v_meridiemFlag t), AStr guestId, AStr isShop] = detail_args s accno guestId isShop"
    using assms(3) by (simp add: loading_def session_args_def detail_args_def)
  have fit: "arity_ok sql_order_detail (detail_args s accno guestId isShop)"
      "text_size sql_order_detail + sum_list (map arg_size (detail_args s accno guestId isShop)) < 2048"
    using short_args_lengths [OF assms(2)] c by (simp_all add: detail_args_def format_arities format_sizes)
  have set: "\<exists>d. read_order (hd rows) = Inr d \<and> wp E (\<lambda>_. loading A s n) (set_order i d) (t\<lparr>p_env := e\<rparr>)"
    if known: "detail_known A s rows" for rows e
  proof -
    obtain d where "read_order (hd rows) = Inr d" using read_order_total [of "hd rows"] known unfolding detail_known_def by blast
    with known assms(3,5,6) read_order_fits show ?thesis by (auto simp: detail_known_def intro!: wp_set_order)
  qed
  show ?thesis
    unfolding load_order_def using c args
    by (auto simp: first_row_hd detail_known_def [THEN iffD1, THEN conjunct1] intro!: wp_query [OF assms(1) detail fit] set)
qed

lemma wp_load_orders:
  assumes "early_ok A E" and "load_schema A s n" and "short_args s" and "loading A s n t"
  shows "wp E (\<lambda>_. loading A s n) (load_orders A) t"
proof -
  have args: "order_args t = order_args s"
    using assms(4) by (simp add: loading_def session_args_def order_args_def)
  have "wp E (\<lambda>_. loading A s n) (afor (load_order A) (zip [0..int (length rows) - 1] rows)) (t\<lparr>p_env := e\<rparr>)"
    if "length rows \<le> n" "\<forall>r \<in> set rows. order_known A s r" for rows e
  proof (rule wp_afor)
    fix x u assume x: "x \<in> set (zip [0..int (length rows) - 1] rows)" and "loading A s n u"
    moreover obtain i r where "x = (i, r)" by force
    ultimately show "wp E (\<lambda>_. loading A s n) (load_order A x) u"
      using that set_zip_leftD [of i r "[0..int (length rows) - 1]" rows] set_zip_rightD [of i r "[0..int (length rows) - 1]" rows]
      by (auto intro!: wp_load_order assms(1,3))
  qed (simp add: assms(4))
  moreover have "answers A sql_orders (order_args s) (\<lambda>rows. length rows \<le> n \<and> (\<forall>r \<in> set rows. order_known A s r))"
    using assms(2) by (simp add: load_schema_def)
  ultimately show ?thesis
    unfolding load_orders_def using args
    by (auto intro!: wp_query [OF assms(1) _ order_args_fit(1,2) [OF assms(3)]] wp_connect [OF assms(1)]
        wp_query [OF assms(1) answers_trivial set_names_fits])
qed

lemma wp_load_pay:
  assumes "early_ok A E" and "short_args s" and "loading A s n t" and "i < n"
  shows "wp E (\<lambda>_. loading A s n) (load_pay A (int i)) t"
proof -
  let ?d = "v_orders t ! i"
  have i: "i < length (v_orders t)" and "?d \<in> set (v_orders t)" using assms(3,4) by (simp_all add: loading_def)
  then have d: "order_fits ?d" "pay_known A s ?d" using assms(3) by (simp_all add: loading_def)
  have args: "[AStr (v_deliveryDate t), AStr (v_meridiemType t), AStr (v_meridiemFlag t), AStr (v_locationId t),
      AStr (ve_accnoDupleJuso ?d)] = pay_sum_args s ?d"
    using assms(3) by (simp add: loading_def session_args_def pay_sum_args_def)
  have fit: "arity_ok sql_order_pay (pay_sum_args s ?d)" "text_size sql_order_pay + sum_list (map arg_size (pay_sum_args s ?d)) < 2048"
    using short_args_lengths [OF assms(2)] d(1) by (simp_all add: pay_sum_args_def format_arities format_sizes order_fits_def)
  have "wp E (\<lambda>_. loading A s n) (set_order (int i) (?d\<lparr>ve_pay := pay\<rparr>)) (t\<lparr>p_env := e\<rparr>)" if "length pay < 32" for pay e
    using assms(3,4) d that by (intro wp_set_order) (simp_all add: order_fits_def pay_known_def pay_sum_args_def)
  moreover have "answers A sql_order_pay (pay_sum_args s ?d) (\<lambda>rows. rows \<noteq> [] \<and> field (hd rows) 0 32)"
    if "ve_accnoDupleJuso ?d \<noteq> []" using d(2) that by (simp add: pay_known_def)
  ultimately show ?thesis
    unfolding load_pay_def using i args assms(3) field_copy [of _ 0 32 32]
    by (fastforce simp: first_row_hd intro!: wp_query [OF assms(1) _ fit])
qed

section \<open>The distances\<close>

text \<open>\<open>k\<close> rows of the distance table are complete, and in row \<open>k\<close> there is a cell for every order.\<close>

definition orders_loaded :: "nat \<Rightarrow> 'e program \<Rightarrow> bool" where
  "orders_loaded n t \<longleftrightarrow> v_count t = Some (int n) \<and> length (v_orders t) = n \<and> (\<forall>d \<in> set (v_orders t). order_fits d)"

lemma orders_loaded_env [simp]:
  "orders_loaded n (t\<lparr>p_env := e\<rparr>) = orders_loaded n t" "orders_loaded n (t\<lparr>v_mutual := m\<rparr>) = orders_loaded n t"
  by (simp_all add: orders_loaded_def)

lemma mutual_args_fit:
  assumes "order_fits a" and "order_fits b"
  shows "arity_ok sql_mutual (mutual_args a b)" "text_size sql_mutual + sum_list (map arg_size (mutual_args a b)) < 2048"
  using assms by (simp_all add: mutual_args_def order_fits_def format_arities format_sizes)

lemma wp_load_cell:
  assumes "early_ok A E" and "answers_all A sql_mutual (\<lambda>rows. rows \<noteq> [] \<longrightarrow> row_fits mutual_widths (hd rows))"
    and "orders_loaded n t" and "length (v_mutual t) = Suc k" and "length (v_mutual t ! k) = n" and "k < n" and "j < n"
  shows "wp E (\<lambda>_ t. orders_loaded n t \<and> length (v_mutual t) = Suc k \<and> length (v_mutual t ! k) = n)
    (load_cell A (int k) (int j)) t"
proof -
  have "v_orders t ! k \<in> set (v_orders t)" "v_orders t ! j \<in> set (v_orders t)" and len: "length (v_orders t) = n"
    using assms(3,6,7) by (simp_all add: orders_loaded_def)
  then have fit: "order_fits (v_orders t ! k)" "order_fits (v_orders t ! j)" using assms(3) by (simp_all add: orders_loaded_def)
  have cell: "\<exists>d. (case rows of [] \<Rightarrow> Inr blank_mutual | r # _ \<Rightarrow> read_mutual r) = Inr d"
    if "rows \<noteq> [] \<longrightarrow> row_fits mutual_widths (hd rows)" for rows
    using that read_mutual_total by (cases rows) auto
  have set: "set_cell (int k) (int j) d (v_mutual t) = Inr ((v_mutual t)[k := (v_mutual t ! k)[j := d]])" for d
    using assms(4,5,7) by (simp add: set_cell_def)
  show ?thesis
    unfolding load_cell_def using assms(3-7) len cell set
    by (auto intro!: wp_query [OF assms(1) answers_allD [OF assms(2)] mutual_args_fit [OF fit]])
qed

lemma wp_load_row:
  assumes "early_ok A E" and "answers_all A sql_mutual (\<lambda>rows. rows \<noteq> [] \<longrightarrow> row_fits mutual_widths (hd rows))"
    and "orders_loaded n t" and "length (v_mutual t) = k" and "k < n"
  shows "wp E (\<lambda>_ t. orders_loaded n t \<and> length (v_mutual t) = Suc k) (load_row A (int n) (int k)) t"
proof -
  let ?P = "\<lambda>t. orders_loaded n t \<and> length (v_mutual t) = Suc k \<and> length (v_mutual t ! k) = n"
  let ?m = "(v_mutual t @ [[]])[k := replicate n blank_mutual]"
  have row: "rbind (vget (v_mutual t @ [[]]) (int k)) (\<lambda>r. rbind (resize blank_mutual (int n) r)
      (\<lambda>r'. vset (v_mutual t @ [[]]) (int k) r')) = Inr ?m"
    using assms(4) by (simp add: vget_def vset_def resize_def nth_append)
  have "wp E (\<lambda>_. ?P) (afor (load_cell A (int k)) [0..int n - 1]) (t\<lparr>v_mutual := ?m\<rparr>)"
    by (rule wp_afor_upto [where P = "\<lambda>_. ?P"])
      (use assms in \<open>auto simp: nth_list_update nth_append intro!: wp_load_cell\<close>)
  then have "wp E (\<lambda>_ t. orders_loaded n t \<and> length (v_mutual t) = Suc k) (afor (load_cell A (int k)) [0..int n - 1]) (t\<lparr>v_mutual := ?m\<rparr>)"
    by (rule wp_mono) simp
  then show ?thesis using row by (simp add: load_row_def)
qed

section \<open>The whole step\<close>

text \<open>What step 01 leaves: the orders with texts that fit, and a square table of distances.\<close>

lemma wp_load:
  assumes "early_ok A E" and "load_schema A s n" and "short_args s" and "v_orders s = []" and "v_mutual s = []"
  shows "wp E (\<lambda>_ t. orders_loaded n t) (OnLoadDeliveryData A) s"
proof -
  have mutual: "answers_all A sql_mutual (\<lambda>rows. rows \<noteq> [] \<longrightarrow> row_fits mutual_widths (hd rows))"
    using assms(2) by (simp add: load_schema_def)
  have square: "wp E (\<lambda>_ t. orders_loaded n t \<and> length (v_mutual t) = n) (load_mutual A) t" if "loading A s n t" for t
  proof -
    have "wp E (\<lambda>_ t. orders_loaded n t \<and> length (v_mutual t) = n) (afor (load_row A (int n)) [0..int n - 1]) t"
      by (rule wp_afor_upto [where P = "\<lambda>k t. orders_loaded n t \<and> length (v_mutual t) = k"])
        (use that in \<open>auto simp: loading_def orders_loaded_def [of n t] intro!: wp_load_row [OF assms(1) mutual]\<close>)
    then show ?thesis using that by (simp add: load_mutual_def get_count_def loading_def)
  qed
  have mutual: "wp E (\<lambda>_ t. orders_loaded n t) (load_mutual A) t" if "loading A s n t" for t
    by (rule wp_mono [OF square [OF that]]) simp
  have pay: "wp E (\<lambda>_. loading A s n) (afor (load_pay A) [0..int (length (v_orders t)) - 1]) t" if "loading A s n t" for t
    by (rule wp_afor_upto [where P = "\<lambda>_. loading A s n"])
      (use that in \<open>auto simp: loading_def [of A s n t] intro!: wp_load_pay assms(1,3)\<close>)
  show ?thesis
    unfolding OnLoadDeliveryData_def
    by (auto intro!: wp_mono [OF wp_load_count [OF assms]] wp_mono [OF wp_load_orders [OF assms(1-3)]] wp_mono [OF pay] mutual)
qed

end
