(* ===== verification/Filing.thy ===== *)
theory Filing
  imports Loading
begin

text \<open>
  Step 08 of \<open>TSP/TspView.cpp\<close> stays inside its buffers and its rows when the texts of the copies
  have the widths step 01 gives them and the database has what step 08 reads (\<open>store_schema\<close>): a
  distance with its route for every way of the tour, the guest of every single order, and
  columns no wider than their fields.
\<close>

section \<open>What the storing relies on\<close>

definition city_fits :: "city_fields \<Rightarrow> bool" where
  "city_fits f \<longleftrightarrow> length (f_accno f) < 32 \<and> length (f_guestId f) < 64 \<and> length (f_jusoSubId f) < 2
     \<and> length (f_isShop f) < 2 \<and> length (f_accnoDuple f) < 100 \<and> length (f_guestName f) < 100
     \<and> length (f_guestTel f) < 100 \<and> length (f_guestJuso f) < 256 \<and> length (f_pay f) < 32
     \<and> length (f_guestLat f) < 64 \<and> length (f_guestLon f) < 64"

definition way_known :: "'e env_api \<Rightarrow> city_fields \<Rightarrow> city_fields \<Rightarrow> bool" where
  "way_known A a b \<longleftrightarrow> answers A sql_distance (distance_args a b)
     (\<lambda>rows. rows \<noteq> [] \<and> (\<exists>n. rbind (column (hd rows) 9) atoi = Inr n) \<and> field (hd rows) 12 202400)"

definition guest_known :: "'e env_api \<Rightarrow> 'e program \<Rightarrow> city_fields \<Rightarrow> bool" where
  "guest_known A s b \<longleftrightarrow> (f_accnoDuple b = [] \<longrightarrow> answers A sql_guest_info (guest_args s (stop_of_copies b b))
     (\<lambda>rows. rows \<noteq> [] \<and> field (hd rows) 0 100 \<and> field (hd rows) 1 256))"

definition store_schema :: "'e env_api \<Rightarrow> 'e program \<Rightarrow> nat \<Rightarrow> bool" where
  "store_schema A s n \<longleftrightarrow> answers_all A sql_duplicates (\<lambda>rows. \<forall>r \<in> set rows. row_fits order_widths r)
     \<and> answers A sql_error_rows (vehicle_args s) (\<lambda>rows. int_range (int n + int (length rows)) \<and> (\<forall>r \<in> set rows. field r 0 32))"

text \<open>The copies, their texts and what the database knows about them.\<close>

definition stop_known :: "'e env_api \<Rightarrow> 'e program \<Rightarrow> ChromosomeCopy list \<Rightarrow> nat \<Rightarrow> bool" where
  "stop_known A s cs j \<longleftrightarrow>
     (let a = cc_data (cs ! j); b = cc_data (cs ! (if Suc j = length cs then 0 else Suc j))
      in city_fits a \<and> city_fits b \<and> way_known A a b \<and> guest_known A s b)"

lemma length_narrow [simp]: "length (narrow w) = length w"
  by (simp add: narrow_def)

lemma guest_args_stop: "guest_args s (stop_of_copies a b) = guest_args s (stop_of_copies b b)"
  by (simp add: guest_args_def stop_of_copies_def)

definition storing :: "'e program \<Rightarrow> 'e program \<Rightarrow> bool" where
  "storing s t \<longleftrightarrow> v_copy t = v_copy s \<and> session_args t = session_args s"

lemma storing_env [simp]: "storing s (t\<lparr>p_env := e\<rparr>) = storing s t"
  by (simp add: storing_def session_args_def)

lemma storing_short: "storing s t \<Longrightarrow> short_args s \<Longrightarrow> short_args t"
  by (simp add: storing_def short_args_def)

lemma storing_guest_args: "storing s t \<Longrightarrow> guest_args t v = guest_args s v"
  by (simp add: storing_def session_args_def guest_args_def)

section \<open>One row\<close>

definition stop_fits :: "stop_row \<Rightarrow> bool" where
  "stop_fits v \<longleftrightarrow> length (vr_deguestAccno v) < 256 \<and> length (vr_deguestName v) < 256 \<and> length (vr_deguestTel v) < 256
     \<and> length (vr_deguestPay v) < 256 \<and> length (vr_guestId v) < 256 \<and> length (vr_deguestId v) < 256
     \<and> length (vr_guestJusoSubId v) < 256 \<and> length (vr_deguestJusoSubId v) < 256 \<and> length (vr_guestLat v) < 256
     \<and> length (vr_guestLon v) < 256 \<and> length (vr_deguestLat v) < 256 \<and> length (vr_deguestLon v) < 256
     \<and> length (vr_Juso v) < 256 \<and> length (vr_guestIsShop v) < 256 \<and> length (vr_deguestIsShop v) < 256
     \<and> length (vr_accnoDupleJuso v) < 256"

lemma stop_of_copies_fits: "city_fits a \<Longrightarrow> city_fits b \<Longrightarrow> stop_fits (stop_of_copies a b)"
  by (simp add: city_fits_def stop_fits_def stop_of_copies_def)

lemma insert_args_fit:
  assumes "short_args t" and "stop_fits v" and "length json < 202400" and "int_range j" and "int_range n"
  shows "arity_ok sql_insert (insert_args t j n json v)"
    "text_size sql_insert + sum_list (map arg_size (insert_args t j n json v)) < 404800"
  using short_args_lengths [OF assms(1)] assms(2,3) show_int_length [OF assms(4)] show_int_length [OF assms(5)]
  by (simp_all add: insert_args_def insert_arity format_sizes stop_fits_def)

lemma wp_insert_row:
  assumes "early_ok A E" and "short_args s" and "storing s t" and "stop_fits v" and "length json < 202400"
    and "int_range j" and "int_range n"
  shows "wp E (\<lambda>_. storing s) (insert_row A c j n json v) t"
  unfolding insert_row_def
  using insert_args_fit [OF storing_short [OF assms(3,2)] assms(4-7)] assms(3)
  by (auto intro!: wp_query [OF assms(1) answers_trivial])

lemma stop_of_row_fits:
  assumes "row_fits order_widths r" and "city_fits a"
  shows "\<exists>v. stop_of_row a r = Inr v \<and> stop_fits v"
proof -
  have c: "\<exists>t. column r (int k) = Inr t \<and> length t < 256" if "k < 18" for k
  proof -
    have "order_widths ! k \<le> 256" using that unfolding order_widths_def
      by (auto simp: less_Suc_eq numeral_eq_Suc)
    moreover have "field r k (order_widths ! k)" using row_fits_field [OF assms(1), of k] that by (simp add: order_widths_def)
    ultimately show ?thesis using field_column by fastforce
  qed
  from c [of 1] c [of 6] c [of 7] c [of 10] c [of 5] c [of 8] c [of 11] c [of 12] c [of 9] c [of 14] c [of 17]
  show ?thesis using assms(2) by (simp add: stop_of_row_def) (elim exE conjE, simp add: stop_fits_def city_fits_def)
qed

section \<open>One stop\<close>

lemma wp_insert_single:
  assumes "early_ok A E" and "short_args s" and "storing s t" and "city_fits a" and "city_fits b" and "guest_known A s b"
    and "f_accnoDuple b = []" and "length json < 202400" and "int_range j" and "int_range n"
  shows "wp E (\<lambda>_. storing s) (insert_single A j n json a b) t"
proof -
  let ?v = "stop_of_copies a b"
  have v: "stop_fits ?v" using stop_of_copies_fits assms(4,5) by blast
  have args: "guest_args t ?v = guest_args s (stop_of_copies b b)"
    using storing_guest_args [OF assms(3)] guest_args_stop by metis
  have fit: "arity_ok sql_guest_info (guest_args s (stop_of_copies b b))"
      "text_size sql_guest_info + sum_list (map arg_size (guest_args s (stop_of_copies b b))) < 2048"
    using short_args_lengths [OF assms(2)] assms(5)
    by (simp_all add: guest_args_def stop_of_copies_def city_fits_def format_arities format_sizes)
  have known: "answers A sql_guest_info (guest_args s (stop_of_copies b b))
      (\<lambda>rows. rows \<noteq> [] \<and> field (hd rows) 0 100 \<and> field (hd rows) 1 256)"
    using assms(6,7) by (simp add: guest_known_def)
  have row: "wp E (\<lambda>_. storing s) (insert_row A 1 j n json (?v\<lparr>vr_deguestName := name, vr_Juso := juso\<rparr>)) (t\<lparr>p_env := e\<rparr>)"
    if "length name < 100" "length juso < 256" for name juso e
    using that v assms(3,8-10) by (intro wp_insert_row [OF assms(1,2)]) (simp_all add: stop_fits_def)
  show ?thesis
    unfolding insert_single_def Let_def using field_column [of _ 0 100] field_column [of _ 1 256] row
    by (fastforce simp: first_row_hd args intro!: wp_query [OF assms(1) known fit])
qed

lemma wp_insert_duplicates:
  assumes "early_ok A E" and "short_args s" and "storing s t" and "city_fits a" and "city_fits b"
    and "answers_all A sql_duplicates (\<lambda>rows. \<forall>r \<in> set rows. row_fits order_widths r)"
    and "length json < 202400" and "int_range j" and "int_range n"
  shows "wp E (\<lambda>_. storing s) (insert_duplicates A j n json a b) t"
proof -
  have rows: "wp E (\<lambda>_. storing s) (afor (\<lambda>r. abind (ares (stop_of_row a r)) (insert_row A 2 j n json)) rows) (t\<lparr>p_env := e\<rparr>)"
    if "\<forall>r \<in> set rows. row_fits order_widths r" for rows e
    by (rule wp_afor) (use that assms stop_of_row_fits in \<open>fastforce intro!: wp_insert_row [OF assms(1,2)]\<close>)+
  have "length (v_locationId t) < 64" "length (v_deliveryDate t) < 64" "length (v_meridiemType t) < 64" "length (v_meridiemFlag t) < 64"
    using short_args_lengths [OF storing_short [OF assms(3,2)]] by simp_all
  then show ?thesis
    unfolding insert_duplicates_def using assms(5) rows
    by (auto simp: format_arities format_sizes city_fits_def intro!: wp_connect [OF assms(1)]
      wp_query [OF assms(1) answers_trivial set_names_fits] wp_query [OF assms(1) answers_allD [OF assms(6)]])
qed

lemma wp_insert_stop:
  assumes "early_ok A E" and "short_args s" and "storing s t" and "store_schema A s (length (v_copy s))"
    and "j < length (v_copy s)" and "stop_known A s (v_copy s) j" and "int_range (int j)"
  shows "wp E (\<lambda>_. storing s) (insert_stop A (int j)) t"
proof -
  define a where "a = cc_data (v_copy s ! j)"
  define k where "k = (if Suc j = length (v_copy s) then 0 else Suc j)"
  define b where "b = cc_data (v_copy s ! k)"
  have known: "city_fits a" "city_fits b" "way_known A a b" "guest_known A s b"
    using assms(6) by (simp_all add: stop_known_def Let_def a_def b_def k_def)
  have dups: "answers_all A sql_duplicates (\<lambda>rows. \<forall>r \<in> set rows. row_fits order_widths r)"
    using assms(4) by (simp add: store_schema_def)
  have copies: "vget (v_copy t') (int j) = Inr (v_copy s ! j)" "next_copy (v_copy t') (int j) = Inr (v_copy s ! k)"
    if "storing s t'" for t'
    using that assms(5) by (simp_all add: storing_def next_copy_nth k_def)
  have fit: "arity_ok sql_distance (distance_args a b)" "text_size sql_distance + sum_list (map arg_size (distance_args a b)) < 2048"
    using known(1,2) by (simp_all add: distance_args_def city_fits_def format_arities format_sizes)
  have columns: "rbind (column r 9) atoi = Inr n \<Longrightarrow> int_range n"
      "field r 12 202400 \<Longrightarrow> \<exists>json. copy_column 202400 r 12 = Inr json \<and> length json < 202400" for r n
    using field_copy [of r 12 202400 202400] by (auto simp: rbind_eq_Inr atoi_def Let_def split_beta)
  have way: "wp E (\<lambda>x u. storing s u \<and> int_range (fst x) \<and> length (snd x) < 202400) (load_way A (int j)) t"
  proof -
    have "wp E (\<lambda>x u. storing s u \<and> int_range (fst x) \<and> length (snd x) < 202400)
        (abind (db_query A 1 800 2048 sql_distance (distance_args a b)) (\<lambda>rows. abind (ares (first_row rows)) (\<lambda>r.
           abind (ares (rbind (column r 9) atoi)) (\<lambda>n. abind (ares (copy_column 202400 r 12)) (\<lambda>json. aret (n, json)))))) t"
      unfolding wp_abind
      by (rule wp_query [OF assms(1) known(3) [unfolded way_known_def] fit])
        (use columns assms(3) in \<open>fastforce simp: first_row_hd\<close>)
    then show ?thesis unfolding load_way_def using copies [OF assms(3)] by (simp add: a_def b_def)
  qed
  have "wp E (\<lambda>_. storing s) (insert_way A (int j) n json) u"
    if "storing s u" "int_range n" "length json < 202400" for n json u
  proof -
    have "wp E (\<lambda>_. storing s) (insert_last A (int j) n json a b) u"
      unfolding insert_last_def using that stop_of_copies_fits known assms by (intro wp_insert_row) auto
    moreover have "wp E (\<lambda>_. storing s) (insert_single A (int j) n json a b) u" if "f_accnoDuple b = []"
      using that \<open>storing s u\<close> \<open>int_range n\<close> \<open>length json < 202400\<close> known assms by (intro wp_insert_single) auto
    moreover have "wp E (\<lambda>_. storing s) (insert_duplicates A (int j) n json a b) u"
      using that known dups assms by (intro wp_insert_duplicates) auto
    ultimately have "wp E (\<lambda>_. storing s) (if int j = int (length (v_copy u)) - 1 then insert_last A (int j) n json a b
        else if f_accnoDuple b = [] then insert_single A (int j) n json a b else insert_duplicates A (int j) n json a b) u"
      by (intro wp_if) blast+
    then show ?thesis
      unfolding insert_way_def a_def b_def using copies [OF that(1)] by (simp split del: if_split)
  qed
  then show ?thesis
    unfolding insert_stop_def wp_abind by (intro wp_mono [OF way]) auto
qed

section \<open>The whole step\<close>

lemma wp_renumber:
  assumes "early_ok A E" and "int_range m" and "int_range (m + 1)" and "field r 0 32"
  shows "wp E (\<lambda>_ _. True) (renumber A (m, r)) t"
proof -
  obtain seq where seq: "column r 0 = Inr seq" "length seq < 32" using field_column [OF assms(4)] by auto
  then have "arity_ok sql_error_update [AInt m, AStr seq]" "text_size sql_error_update + sum_list (map arg_size [AInt m, AStr seq]) < 2048"
    using show_int_length [OF assms(2)] by (simp_all add: format_arities format_sizes)
  then show ?thesis
    unfolding renumber_def using seq assms(3) by (auto simp: chk_ok intro!: wp_query [OF assms(1) answers_trivial])
qed

lemma wp_renumber_errors:
  assumes "early_ok A E" and "short_args s" and "store_schema A s n"
  shows "wp E (\<lambda>_ _. True) (renumber_errors A (vehicle_args s) (int n)) t"
proof -
  have fit: "arity_ok sql_error_rows (vehicle_args s)" "text_size sql_error_rows + sum_list (map arg_size (vehicle_args s)) < 2048"
    using short_args_lengths [OF assms(2)] by (simp_all add: vehicle_args_def format_arities format_sizes)
  have rows: "answers A sql_error_rows (vehicle_args s) (\<lambda>rows. int_range (int n + int (length rows)) \<and> (\<forall>r \<in> set rows. field r 0 32))"
    using assms(3) by (simp add: store_schema_def)
  have "wp E (\<lambda>_ _. True) (afor (renumber A) (zip [int n..int n + int (length rows) - 1] rows)) u"
    if "int_range (int n + int (length rows))" "\<forall>r \<in> set rows. field r 0 32" for rows u
  proof (rule wp_afor)
    fix x :: "int \<times> row" and u assume x: "x \<in> set (zip [int n..int n + int (length rows) - 1] rows)"
    obtain m r where "x = (m, r)" by force
    with x have "m \<in> {int n..int n + int (length rows) - 1}" "r \<in> set rows"
      using set_zip_leftD set_zip_rightD by (metis set_upto)+
    with that \<open>x = (m, r)\<close> show "wp E (\<lambda>_ _. True) (renumber A x) u"
      by (auto simp: int_range_def intro!: wp_renumber assms(1))
  qed simp
  then show ?thesis
    unfolding renumber_errors_def
    by (auto intro!: wp_connect [OF assms(1)] wp_query [OF assms(1) answers_trivial set_names_fits] wp_query [OF assms(1) rows fit])
qed

lemma wp_store:
  assumes "early_ok A E" and "short_args s" and "store_schema A s (length (v_copy s))" and "int_range (int (length (v_copy s)))"
    and "\<forall>j < length (v_copy s). stop_known A s (v_copy s) j"
  shows "wp E (\<lambda>_ _. True) (OnVehicleDataInsert A) s"
proof -
  let ?cs = "v_copy s"
  have "wp E (\<lambda>_. storing s) (afor (insert_stop A) [0..int (length ?cs) - 1]) t" if "storing s t" for t
    by (rule wp_afor_upto [where P = "\<lambda>_. storing s"])
      (use that assms in \<open>auto simp: int_range_def intro!: wp_insert_stop\<close>)
  then have stops: "wp E (\<lambda>_. wp E (\<lambda>_ _. True) (renumber_errors A (vehicle_args s) (int (length ?cs))))
      (afor (insert_stop A) [0..int (length ?cs) - 1]) t" if "storing s t" for t
    using that wp_renumber_errors [OF assms(1-3)] by (blast intro: wp_mono)
  have view: "vehicle_args (s\<lparr>p_env := e\<rparr>) = vehicle_args s" "storing s (s\<lparr>p_env := e\<rparr>)" for e
    by (simp_all add: vehicle_args_def storing_def session_args_def)
  have fit: "arity_ok sql_delete (vehicle_args s)" "text_size sql_delete + sum_list (map arg_size (vehicle_args s)) < 1024"
    using short_args_lengths [OF assms(2)] by (simp_all add: vehicle_args_def format_arities format_sizes)
  show ?thesis
    unfolding OnVehicleDataInsert_def using view stops
    by (auto intro!: wp_connect [OF assms(1)] wp_query [OF assms(1) answers_trivial set_names_fits]
        wp_query [OF assms(1) answers_trivial fit])
qed

end
