(* ===== verification/Completion.thy ===== *)
theory Completion
  imports Filing Pipeline Storing
begin

text \<open>
  The program run to its end: when the database keeps what its tables promise and the algorithm
  stops with a tour, no step faults or returns early, and the day is delivered and stored.
\<close>

section \<open>The arguments stay\<close>

lemma session_env [simp]: "session_args (s\<lparr>p_env := e\<rparr>) = session_args s"
  by (simp add: session_args_def)

lemma deliver_session [simp]: "session_args (fold deliver evs s) = session_args s"
proof (induction evs arbitrary: s)
  case (Cons ev evs)
  then show ?case by (cases ev) (simp_all add: StatisticUpdate_def NewBestChromosome_def session_args_def)
qed simp

lemma polled_session: "session_args ((polled A ^^ k) s) = session_args s"
  by (induction k) (simp_all add: polled_def poll_def Let_def split_beta)

lemma search_session:
  assumes "OnSearchDeliveryData A s = Some (c, t)"
  shows "session_args t = session_args s"
proof -
  let ?s0 = "start_solving A (smartInit A (s\<lparr>p_generationLimit := 70000\<rparr>))"
  from assms obtain k where "t = (polled A ^^ k) ?s0"
    by (auto simp: OnSearchDeliveryData_def wait_loop_iff simp del: funpow.simps split: if_splits)
  then show ?thesis
    by (simp add: polled_session start_solving_def smartInit_def poll_def Let_def split_beta) (simp add: session_args_def)
qed

lemma keeps_session_load: "keeps session_args (OnLoadDeliveryData A)"
  unfolding OnLoadDeliveryData_def load_count_def load_orders_def load_order_def load_pay_def
    load_mutual_def load_row_def load_cell_def get_count_def set_order_def Let_def split_beta
  by (intro keeps_intros) (simp_all add: session_args_def)

lemma keeps_session_set: "keeps session_args OnSetDeliveryData"
  unfolding OnSetDeliveryData_def get_count_def set_city_def by (intro keeps_intros) (simp_all add: session_args_def)

lemma keeps_session_relocation: "keeps session_args OnRelocationDeliveryData"
  unfolding OnRelocationDeliveryData_def by (intro keeps_intros) (simp_all add: session_args_def)

text \<open>What the storing relies on depends on the arguments only.\<close>

lemma known_session:
  assumes "session_args t = session_args s"
  shows "guest_known A t b = guest_known A s b" "store_schema A t n = store_schema A s n" "short_args t = short_args s"
  using assms by (simp_all add: session_args_def guest_known_def guest_args_def store_schema_def vehicle_args_def short_args_def)

section \<open>From the copies to the database\<close>

lemma city_of_order_fits: "order_fits d \<Longrightarrow> city_fits (city_of_order d)"
  by (simp add: order_fits_def city_fits_def city_of_order_def)

definition routes_known :: "'e env_api \<Rightarrow> 'e program \<Rightarrow> VectorOrderData list \<Rightarrow> bool" where
  "routes_known A s os \<longleftrightarrow> (\<forall>a \<in> set os. guest_known A s (city_of_order a)
     \<and> (\<forall>b \<in> set os. way_known A (city_of_order a) (city_of_order b)))"

lemma delivery_stored:
  assumes "early_ok A E" and "short_args s" and "store_schema A s (length os)" and "routes_known A s os" and "\<forall>d \<in> set os. order_fits d"
    and "session_args t = session_args s" and "mset (map cc_data (v_copy t)) = mset (map city_of_order os)" and "int_range (int (length os))"
  shows "wp E (\<lambda>_ _. True) (OnVehicleDataInsert A) t"
proof (rule wp_store [OF assms(1)])
  have len: "length (v_copy t) = length os" using mset_eq_length [OF assms(7)] by simp
  show "short_args t" "store_schema A t (length (v_copy t))" "int_range (int (length (v_copy t)))"
    using known_session [OF assms(6)] assms(2,3,8) len by simp_all
  have copies: "\<exists>d \<in> set os. cc_data (v_copy t ! i) = city_of_order d" if "i < length (v_copy t)" for i
    using mset_eq_setD [OF assms(7)] that nth_mem [of i "v_copy t"] by auto
  show "\<forall>j < length (v_copy t). stop_known A t (v_copy t) j"
  proof (intro allI impI)
    fix j assume j: "j < length (v_copy t)"
    define k where "k = (if Suc j = length (v_copy t) then 0 else Suc j)"
    have "k < length (v_copy t)" using j by (auto simp: k_def)
    with copies j obtain a b where "a \<in> set os" "b \<in> set os" "cc_data (v_copy t ! j) = city_of_order a"
        "cc_data (v_copy t ! k) = city_of_order b" by blast
    then show "stop_known A t (v_copy t) j"
      using assms(4,5) by (simp add: stop_known_def k_def [symmetric] known_session(1) [OF assms(6)] routes_known_def city_of_order_fits)
  qed
qed

section \<open>From the arguments to the end\<close>

lemma start_program_state:
  assumes "start_program argv e = Inr s"
  shows "short_args s \<and> v_orders s = [] \<and> v_mutual s = [] \<and> v_copy s = [] \<and> p_world s = empty_world"
  using assms by (auto simp: start_program_def rbind_eq_Inr TSPView_new_def short_args_def session_args_def)

text \<open>The state in which step 03 starts to poll, and an algorithm that stops there with a tour.\<close>

definition search_start :: "'e env_api \<Rightarrow> 'e program \<Rightarrow> 'e program" where
  "search_start A s = start_solving A (smartInit A (s\<lparr>p_generationLimit := 70000\<rparr>))"

definition finds_tour :: "'e env_api \<Rightarrow> 'e program \<Rightarrow> bool" where
  "finds_tour A s \<longleftrightarrow> (\<exists>k. stopped_after A (search_start A s) k)
     \<and> (\<forall>k. stopped_after A (search_start A s) k \<longrightarrow> v_best ((polled A ^^ Suc k) (search_start A s)) \<noteq> [])"

lemma finds_tour_search:
  assumes "finds_tour A s"
  shows "\<exists>t. OnSearchDeliveryData A s = Some (0, t) \<and> v_best t \<noteq> []"
proof -
  let ?s0 = "search_start A s"
  have ex: "\<exists>k. stopped_after A ?s0 k" using assms by (simp add: finds_tour_def)
  then have "stopped_after A ?s0 (LEAST k. stopped_after A ?s0 k)" by (rule LeastI_ex)
  with assms have "v_best ((polled A ^^ Suc (LEAST k. stopped_after A ?s0 k)) ?s0) \<noteq> []" unfolding finds_tour_def by blast
  with ex show ?thesis
    by (simp add: OnSearchDeliveryData_def wait_loop_iff search_start_def del: funpow.simps)
qed

text \<open>The tours the algorithm notifies are those of chromosomes it evolved from the cities.\<close>

definition evolves :: "'e env_api \<Rightarrow> 'g raw_gen \<Rightarrow> ('op, ptr, 'd) domain_block \<Rightarrow> city_order \<Rightarrow> 'e program \<Rightarrow> bool" where
  "evolves A R B ord u \<longleftrightarrow> (\<forall>code. notified A (p_world u) code \<longrightarrow> (\<exists>c. mv_values c = code
      \<and> evolved (ptr_distance (v_mutual u) (p_world u)) (GaRandomInteger_Generate_max R) B ord (p_world u) c))"

lemma set_after_loading:
  assumes "OnLoadDeliveryData A s = Inr (Inr (), t)" and "v_mutual s = []" and "p_world s = empty_world"
  shows "\<exists>u. OnSetDeliveryData t = Inr (Inr (), u)"
proof -
  obtain n where "v_count t = Some (int n)" "length (v_orders t) = n" "int_range (int n)"
    using OnLoad_Inr [OF assms(1,2)] by blast
  moreover have "p_world t = empty_world" using keepsD [OF keeps_world assms(1)] assms(3) by simp
  ultimately show ?thesis using OnSet_eq [of t n] empty_world_start(2) by simp
qed

lemma thread_completes:
  assumes db: "always_answers A" "load_schema A s n" "store_schema A s n"
    and s: "short_args s" "v_orders s = []" "v_mutual s = []" "v_copy s = []" "p_world s = empty_world"
    and n: "2 \<le> n" "n < 2 ^ 30"
    and day: "\<And>t u. OnLoadDeliveryData A s = Inr (Inr (), t) \<Longrightarrow> OnSetDeliveryData t = Inr (Inr (), u)
      \<Longrightarrow> routes_known A s (v_orders t) \<and> finds_tour A u \<and> evolves A R B ord u"
    and lib: "iteration_order ord" "unit_doubles R" "db_domains B = []"
  shows "\<exists>t z. OnLoadDeliveryData A s = Inr (Inr (), t) \<and> length (v_orders t) = n
    \<and> t_function A s = Some (Inr ([0, 0, 0, 0, 0], z)) \<and> cc_id (hd (v_copy z)) = 1
    \<and> mset (map cc_data (v_copy z)) = mset (map city_of_order (v_orders t))"
proof -
  have ok: "early_ok A (\<lambda>_ _. False)" using db(1) by (simp add: early_ok_def)
  obtain t where load: "OnLoadDeliveryData A s = Inr (Inr (), t)" and t: "orders_loaded n t"
    using wp_completes [OF wp_load [OF ok db(2) s(1-3)]] by auto
  obtain u where set: "OnSetDeliveryData t = Inr (Inr (), u)" using set_after_loading [OF load s(3,5)] by blast
  note day = day [OF load set]
  obtain s3 where search: "OnSearchDeliveryData A u = Some (0, s3)" "v_best s3 \<noteq> []"
    using finds_tour_search day by blast
  have len: "length (v_orders t) = n" using t by (simp add: orders_loaded_def)
  obtain s4 where s4: "OnRelocationDeliveryData s3 = Inr (Inr (), s4)" "cc_id (hd (v_copy s4)) = 1"
      "mset (map cc_data (v_copy s4)) = mset (map city_of_order (v_orders t))"
    using tour_delivered [OF load s(3-5) set _ lib, of s3] day search search_search_step [OF search(1)] n len
    unfolding evolves_def by blast
  have "session_args s4 = session_args s"
    using keepsD [OF keeps_session_load load] keepsD [OF keeps_session_set set] search_session [OF search(1)]
      keepsD [OF keeps_session_relocation s4(1)] by simp
  then have "wp (\<lambda>_ _. False) (\<lambda>_ _. True) (OnVehicleDataInsert A) s4"
    using delivery_stored [OF ok s(1), of "v_orders t" s4] db(3) day t s4(3) n len
    by (simp add: orders_loaded_def int_range_def)
  then obtain z where store: "OnVehicleDataInsert A s4 = Inr (Inr (), z)" using wp_completes by fastforce
  then have "v_copy z = v_copy s4" using keepsD [OF keeps_store] by (auto simp: delivery_view_def)
  moreover have "t_function A s = Some (Inr ([0, 0, 0, 0, 0], z))"
    using load set search(1) s4(1) store unfolding t_function_Some by (simp add: returned_Inr)
  ultimately show ?thesis using load len s4(2,3) by auto
qed

section \<open>A steady day\<close>

text \<open>
  For the witnesses: a database that answers every query with the same two rows, and an algorithm
  that notifies one tour of two cities and has stopped.
\<close>

definition steady_row :: row where
  "steady_row = replicate 29 (Some ''2'')"

definition steady_api :: "unit env_api" where
  "steady_api = \<lparr>api_connect = (\<lambda>c e. (True, e)), api_query = (\<lambda>c q e. (Some [steady_row, steady_row], e)),
     api_set_criteria = (\<lambda>n e. e), api_start = (\<lambda>b w e. e), api_state = (\<lambda>e. (GAS_CRITERIA_STOPPED, e)),
     api_events = (\<lambda>w e. ([BestEvent [Some 1, Some 0] (Num 0)], e))\<rparr>"

definition steady_args :: "string list" where
  "steady_args = [''tsp'', ''1'', ''1'', ''1'', ''1'', ''1'', ''1'']"

definition steady_program :: "unit program" where
  "steady_program = (TSPView_new empty_world 100000 1 ())\<lparr>v_deliveryDate := ''1'', v_meridiemType := ''1'',
     v_meridiemFlag := ''1'', v_locationId := ''1'', v_vehicleNo := ''1'', v_vehicleNumber := 1\<rparr>"

lemma steady_start: "start_program steady_args () = Inr steady_program"
proof -
  have "atoi ''1'' = Inr 1" by code_simp
  then show ?thesis by (simp add: start_program_def steady_args_def argument_def steady_program_def strcpy_def)
qed

lemma steady_answers: "P [steady_row, steady_row] \<Longrightarrow> answers steady_api ps xs P"
  by (auto simp: answers_def steady_api_def)

lemma steady_fields: "row_fits order_widths steady_row" "row_fits mutual_widths steady_row"
  by (auto simp: row_fits_def field_def steady_row_def order_widths_def mutual_widths_def less_Suc_eq numeral_eq_Suc)

lemma steady_field: "k < 29 \<Longrightarrow> 1 < w \<Longrightarrow> field steady_row k w"
  by (simp add: field_def steady_row_def)

lemma steady_number: "rbind (column steady_row 0) atoi = Inr 2" "rbind (column steady_row 9) atoi = Inr 2"
  by code_simp+

lemma steady_schemas: "always_answers steady_api" "load_schema steady_api s 2" "store_schema steady_api s 2" "routes_known steady_api s os"
proof -
  have "order_known steady_api s steady_row"
    by (auto simp: order_known_def steady_field detail_known_def steady_fields pay_known_def intro!: steady_answers)
  then show "load_schema steady_api s 2"
    by (auto simp: load_schema_def answers_all_def counts_def steady_number steady_fields intro!: steady_answers)
  show "store_schema steady_api s 2"
    by (auto simp: store_schema_def answers_all_def steady_fields steady_field int_range_def intro!: steady_answers)
  show "routes_known steady_api s os"
    by (auto simp: routes_known_def guest_known_def way_known_def steady_field steady_number intro!: steady_answers)
  show "always_answers steady_api" by (simp add: always_answers_def steady_api_def)
qed

lemma steady_search: "finds_tour steady_api s"
proof -
  have "fst (poll steady_api t) = GAS_CRITERIA_STOPPED" "v_best (polled steady_api t) = [Some 1, Some 0]" for t :: "unit program"
    by (simp_all add: polled_def poll_def steady_api_def NewBestChromosome_def)
  then show ?thesis by (simp add: finds_tour_def stopped_after_def)
qed

lemma steady_evolves:
  assumes "OnLoadDeliveryData steady_api steady_program = Inr (Inr (), t)" and "OnSetDeliveryData t = Inr (Inr (), u)"
  shows "evolves steady_api sample_raw sample_block (\<lambda>m. m) u"
proof -
  have start: "v_mutual steady_program = []" "v_copy steady_program = []" "p_world steady_program = empty_world"
      "v_orders steady_program = []" "short_args steady_program"
    using start_program_state [OF steady_start] by simp_all
  have "length (v_orders t) = 2"
    using wp_bounded [OF wp_load [of steady_api "\<lambda>_ _. True", OF _ steady_schemas(2) start(5,4,1)]] assms(1)
    by (auto simp: early_ok_def orders_loaded_def)
  then obtain a b where os: "v_orders t = [a, b]" by (auto simp: numeral_2_eq_2 length_Suc_conv)
  have "p_world u = add_orders [a, b] empty_world"
    using start_of_search(1) [OF assms(1) start(1-3) assms(2)] os by simp
  then show ?thesis
    using two_orders_evolved [where a = a and b = b] by (auto simp: evolves_def notified_def steady_api_def)
qed

section \<open>Properties\<close>

text \<open>
  C17. The thread never ends exactly when its first two steps pass without a fault and no poll
  of the search that follows finds the algorithm stopped by its criterion; nothing else waits.
\<close>

theorem thread_waits_for_the_search:
  "t_function A s = None \<longleftrightarrow> (\<exists>c1 s1 c2 s2. returned (OnLoadDeliveryData A) s = Inr (c1, s1)
     \<and> returned OnSetDeliveryData s1 = Inr (c2, s2) \<and> (\<forall>k. \<not> stopped_after A (search_start A s2) k))"
  by (auto simp: t_function_def run_step_def OnSearchDeliveryData_def wait_loop_iff search_start_def rbind_def bind_eq_None_conv
      split: sum.splits prod.splits)







end
