(* ===== verification/Spec2Isabelle.thy ===== *)
theory Spec2Isabelle
  imports Main Prelude CFloat CStrings HashMap Cities RandomGen ValueSets Chromosomes MultiValue Tour
    Evolution Sql Session Load Route Delivery Store Balance Storing Rehearsal Pipeline Locks SmartPtr FPEqual Catalogue OperationPair Parameters Operations Configuration
    Observation Delivered Vehicles CityDirectory SingleValue SortedGroups Algorithms
    Capacity Loading Filing Completion
begin

text \<open>
  A model of the delivery route planner in \<open>src/TSP\<close> and of the parts of the genetic algorithm
  library in \<open>src/TSP/inc\<close> whose bodies are in its headers.

  \<^bold>\<open>The program.\<close> \<open>TSP.cpp\<close> starts a thread that runs numbered steps of \<open>TSPView\<close>
  (\<open>TspView.cpp\<close>): load the orders of a day and their mutual distances from a database (01), turn
  the orders into cities (02), let a genetic algorithm search a short round tour (03), rotate the
  tour to start at the depot (04), optionally split it among vehicles (05) and search and rotate a
  tour for each of them (06, 07), and store the result (08). \<open>TspCity.cpp\<close> holds the singleton of
  cities whose distances come from the loaded table; \<open>TspAlgorithm.cpp\<close> holds the chromosome, the
  crossover and the fitness of the search. The library supplies chromosomes over value sets,
  random numbers, operations, and the running algorithm, which calls back the view as an observer.

  \<^bold>\<open>Theories: shared vocabulary.\<close> \<open>Prelude\<close>: faults (null and dangling pointers, indices out of
  range, overflow, uninitialised reads, buffer overruns, wrong casts), checked access and
  arithmetic, loops as folds. \<open>CFloat\<close>, \<open>CStrings\<close>: rounded floating-point arithmetic, \<open>atoi\<close>, \<open>atof\<close>,
  \<open>strcpy\<close>, \<open>sprintf\<close> and wide strings. \<open>HashMap\<close>: the contract of \<open>hash_map\<close> as a locale, and its model.

  \<^bold>\<open>Theories: the library in \<open>src/TSP/inc\<close>.\<close> \<open>RandomGen\<close>: \<open>Random.h\<close>. \<open>ValueSets\<close>: \<open>ValueSets.h\<close>, with
  the contract of a value set as a locale interpreted by each class. \<open>Chromosomes\<close>: \<open>Chromosome.h\<close>,
  \<open>FitnessComparators.h\<close>, \<open>SortedGroupType.h\<close>, with the contract of a comparator as a locale.
  \<open>MultiValue\<close>: \<open>DomainChromosome.h\<close>, \<open>MultiValueChromosome.h\<close> and the code buffers of
  \<open>RepresentationInterfaces.h\<close>. \<open>SingleValue\<close>: \<open>SingleValueChromosome.h\<close>, compared with a multi-value
  code of one value. \<open>SortedGroups\<close>: \<open>SortedGroup.h\<close> and the refreshing of the tracked groups in
  \<open>Population.h\<close>, with rankings as a locale interpreted by both comparators. \<open>Parameters\<close>,
  \<open>Operations\<close>: the parameter classes of the operations and what each operation makes and accepts.
  \<open>OperationPair\<close>: \<open>Operation.h\<close>. \<open>Configuration\<close>: the configuration of a population (\<open>Population.h\<close>)
  and the construction, the criteria and the destruction of the search (\<open>TSP::TSP\<close>, \<open>TSP::smartInit\<close>,
  \<open>TSP::~TSP\<close> in \<open>TspAlgorithm.cpp\<close>). \<open>Algorithms\<close>: result sets (\<open>PopulationOperations.h\<close>), the life of
  \<open>GaIncrementalAlgorithm\<close>, \<open>GaBaseAlgorithm\<close> (\<open>Algorithm.h\<close>), statistical values (\<open>Statistics.h\<close>), \<open>GaBit\<close>.
  \<open>Catalogue\<close>: \<open>Catalogue.h\<close>, refining an abstract directory. \<open>SmartPtr\<close>: \<open>SmartPtr.h\<close>. \<open>Locks\<close>: spin
  locks, semaphores, events and sections of \<open>Threading.h\<close> and \<open>Platform.h\<close>. \<open>FPEqual\<close>: \<open>FPEqual.h\<close>.

  \<^bold>\<open>Theories: the planner.\<close> \<open>Cities\<close>: \<open>TspCity.h\<close>, \<open>TspCity.cpp\<close>; \<open>CityDirectory\<close>: its operations refine
  an abstract directory. \<open>Tour\<close>: \<open>TspAlgorithm.cpp\<close>; \<open>Evolution\<close>: the chromosomes a run can hold, as an
  inductive relation, and the properties of tours. \<open>Sql\<close>: the formats of the queries. \<open>Session\<close>: the
  state of \<open>TSPView\<close> (record \<open>program\<close>), the world outside (record \<open>env_api\<close>) and actions with early
  returns. \<open>Load\<close>: steps 00 to 02. \<open>Route\<close>: steps 03, 04, 06 and 07. \<open>Balance\<close>: step 05. \<open>Store\<close>: step
  08. \<open>Delivery\<close>, \<open>Storing\<close>, \<open>Vehicles\<close>: the properties of these steps. \<open>Rehearsal\<close>: a small day run
  step by step, for witnesses. \<open>Pipeline\<close>: the thread and \<open>main\<close> of \<open>TSP.cpp\<close>. \<open>Observation\<close>: a run with
  a log of its queries behaves like one without; \<open>Delivered\<close>: what a completed day has stored. \<open>Capacity\<close>: weakest
  preconditions of the actions of the view and the room its buffers leave; \<open>Loading\<close>, \<open>Filing\<close>: the
  schema of the answers of the database, and that steps 01, 02 and 08 succeed on it; \<open>Completion\<close>:
  the whole program on such a database.

  \<^bold>\<open>State and errors.\<close> A class is a record, an object behind a pointer an address in a heap. An
  operation returns \<open>Inl fault\<close> where the C++ program has undefined behaviour or throws, and
  \<open>Inr\<close> its result and new state otherwise; a step of the view can also return a code early. The
  loops that wait or that end on a condition of the data are \<open>partial_function (option)\<close>, \<open>None\<close>
  for a run that never ends, so that returning is part of the statements. No fuel is used.

  \<^bold>\<open>Parameters.\<close> The compiled base generator (record \<open>raw_gen\<close>; its documented interval is the
  hypothesis \<open>unit_doubles\<close>); the iteration order of the hash map (\<open>iteration_order\<close>); the database
  and the running algorithm (\<open>env_api\<close>; that it notifies only chromosomes it evolved is a hypothesis
  of the properties of whole runs; the number, the width and the type of the columns of its answers
  are the hypotheses \<open>load_schema\<close> and \<open>store_schema\<close>); the registrations of \<open>GaInitialize\<close> (\<open>library_registered\<close>);
  \<open>GaSortedGroup::Add\<close> (\<open>adds_to\<close>, its documented contract, kept by \<open>reference_Add\<close>); the constructors
  of result sets (\<open>lawful_results\<close>); \<open>BindPopulation\<close>, the rescaling of a population and the lists of
  observers.

  \<^bold>\<open>What the properties show.\<close> The crossover, the shuffle and the mutation keep tours, the crossover
  terminates and is greedy, the fitness is the length of the tour; loading gives a complete table
  of the answers of the database and a singleton on which crossover and fitness are correct; the
  search returns exactly when the algorithm stops; the rotations start at the depot. The
  thread goes from the search to the rotation exactly when the search stops. On a database that
  keeps its schema no query overruns the fixed buffers of loading and storing, and the program
  delivers the whole day. Together: a day on which the steps complete stores every order with its predecessor on the tour, and the
  routes of the vehicles hold every stop once. Step 05 computes a greedy cut, but never completes.
  Value sets, buffers, codes, groups, catalogues, smart pointers and locks satisfy their
  contracts. Some properties state faults of the code where it does not do what it means to.

  \<^bold>\<open>Not modelled.\<close> The compiled parts of the library, of which the repository has declarations
  only (populations, the genetic operations, running and stopping algorithms, binary codes,
  \<open>GaThread\<close>, \<open>GaInitialize\<close>). The MySQL client, whose headers are vendored. Console output, sleeping
  and the release of buffers and result sets, which change no modelled state. \<open>Utf8StringToWString\<close>
  and \<open>dbConnectTest\<close>, which are never called. The locks of the view protect single steps of one
  thread.
\<close>

end
